(* ===== verification/Rgw_Prelude.thy ===== *)
theory Rgw_Prelude
  imports Main "HOL-Library.Word" "HOL-Library.Char_ord" "HOL-Library.List_Lexorder"
begin

unbundle bit_operations_syntax

text \<open>
  What every component of the gateway shares: results with negative error codes, bytes,
  C strings, the character classes of the C locale, and the few operations of
  \<^verbatim>\<open>std::string\<close> the sources use.

  A \<^verbatim>\<open>std::string\<close> is a \<open>string\<close>, a list of 8-bit characters; a
  \<^verbatim>\<open>const char *\<close> is the part of such a list before its first NUL.  An
  \<^verbatim>\<open>int\<close> function with output parameters is a \<open>result\<close>: \<open>Inl\<close> of the negative
  code it returns, or \<open>Inr\<close> of its outputs.  Plain \<^verbatim>\<open>char\<close> is signed, as it is
  with gcc on x86-64 Linux, the platform the Makefiles build for.
\<close>

section \<open>Collections of the development\<close>

named_theorems result_simps \<open>evaluation of results\<close>
named_theorems byte_simps \<open>bytes and their bits\<close>
named_theorems codec_simps \<open>round trips of encoders and decoders\<close>

section \<open>Results\<close>

type_synonym 'a result = "int + 'a"

abbreviation (input) EPERM :: int where "EPERM \<equiv> 1"
abbreviation (input) ENOENT :: int where "ENOENT \<equiv> 2"
abbreviation (input) EACCES :: int where "EACCES \<equiv> 13"
abbreviation (input) EINVAL :: int where "EINVAL \<equiv> 22"
abbreviation (input) EDOM :: int where "EDOM \<equiv> 33"
abbreviation (input) ERANGE :: int where "ERANGE \<equiv> 34"

definition bind_res :: "'e + 'a \<Rightarrow> ('a \<Rightarrow> 'e + 'b) \<Rightarrow> 'e + 'b" where
  "bind_res r f = (case r of Inl e \<Rightarrow> Inl e | Inr x \<Rightarrow> f x)"

lemma bind_res_simps [simp, result_simps]:
  "bind_res (Inl e) f = Inl e"
  "bind_res (Inr x) f = f x"
  by (simp_all add: bind_res_def)

lemma bind_res_eq_Inr [result_simps]:
  "bind_res r f = Inr y \<longleftrightarrow> (\<exists>x. r = Inr x \<and> f x = Inr y)"
  by (cases r) simp_all

lemma bind_res_assoc [result_simps]:
  "bind_res (bind_res r f) g = bind_res r (\<lambda>x. bind_res (f x) g)"
  by (cases r) simp_all

lemma bind_res_cong [fundef_cong]:
  assumes "r = r'" and "\<And>x. r' = Inr x \<Longrightarrow> f x = f' x"
  shows "bind_res r f = bind_res r' f'"
  using assms by (cases r') simp_all

section \<open>Bytes\<close>

abbreviation byte :: "char \<Rightarrow> nat" where
  "byte c \<equiv> of_char c"

abbreviation NUL :: char where "NUL \<equiv> CHR 0x00"
abbreviation TAB :: char where "TAB \<equiv> CHR 0x09"
abbreviation LF :: char where "LF \<equiv> CHR 0x0A"
abbreviation CR :: char where "CR \<equiv> CHR 0x0D"
abbreviation DQUOTE :: char where "DQUOTE \<equiv> CHR 0x22"
abbreviation BACKSLASH :: char where "BACKSLASH \<equiv> CHR 0x5C"

text \<open>The value of a (signed) \<^verbatim>\<open>char\<close> promoted to \<^verbatim>\<open>int\<close>.\<close>

definition schar :: "char \<Rightarrow> int" where
  "schar c = (if byte c < 128 then int (byte c) else int (byte c) - 256)"

lemma byte_less_256 [simp]: "byte c < 256"
  by simp

lemma byte_le_255 [simp]: "byte c \<le> 255"
  using byte_less_256 [of c] by linarith

lemma char_of_byte [simp, byte_simps]: "char_of (byte c) = c"
  by simp

lemma byte_char_of [byte_simps]: "n < 256 \<Longrightarrow> byte (char_of n) = n"
  by simp

lemma byte_eq_iff: "byte c = byte d \<longleftrightarrow> c = d"
  by simp

lemma or_shift_add: "y < 2 ^ n \<Longrightarrow> push_bit n x OR y = x * 2 ^ n + (y :: nat)"
proof -
  assume "y < 2 ^ n"
  then have y: "take_bit n y = y" by (simp add: take_bit_nat_eq_self)
  have "push_bit n x AND y = 0"
    by (rule bit_eqI) (metis y bit_0_eq bit_and_iff bit_push_bit_iff_nat bit_take_bit_iff bot_apply not_le bot_bool_def)
  then show ?thesis by (simp add: push_bit_eq_mult flip: disjunctive_add_eq_or)
qed

lemma and_exp_eq: "c AND 2 ^ n = of_bool (bit c n) * 2 ^ n" for c :: nat
  by (rule bit_eqI) (auto simp: bit_and_iff bit_exp_iff)

lemma and_or_distrib_nat: "x AND (y OR z) = (x AND y) OR (x AND z)" for x :: nat
  by (rule bit_eqI) (auto simp: bit_and_iff bit_or_iff)

lemma bit_nat_less: "x < 2 ^ k \<Longrightarrow> bit x n \<Longrightarrow> n < k" for x :: nat
  by (metis bit_take_bit_iff take_bit_nat_eq_self)

lemma bit_byte_high [byte_simps]: "8 \<le> n \<Longrightarrow> \<not> bit (byte c) n"
proof -
  assume "8 \<le> n"
  have "byte c < 2 ^ 8" by simp
  also have "(2::nat) ^ 8 \<le> 2 ^ n" using \<open>8 \<le> n\<close> by (rule power_increasing) simp
  finally show "\<not> bit (byte c) n" by (simp add: bit_iff_odd)
qed

lemma bit_byteD [dest]: "bit (byte c) n \<Longrightarrow> n < 8"
  using bit_byte_high [of n c] by linarith

text \<open>Decide a statement about every byte by evaluating it at all of them.\<close>

lemma all_bytesI: "list_all (\<lambda>n. P (char_of n)) [0..<256] \<Longrightarrow> P c"
proof -
  assume "list_all (\<lambda>n. P (char_of n)) [0..<256]"
  moreover have "byte c \<in> set [0..<256]" by simp
  ultimately have "P (char_of (byte c))" by (metis list_all_iff)
  then show "P c" by simp
qed

section \<open>C strings and character classes\<close>

definition c_str :: "string \<Rightarrow> string" where
  "c_str s = takeWhile (\<lambda>c. c \<noteq> NUL) s"

definition no_nul :: "string \<Rightarrow> bool" where
  "no_nul s \<longleftrightarrow> NUL \<notin> set s"

lemma c_str_no_nul [simp]: "no_nul (c_str s)"
  by (auto simp: no_nul_def c_str_def dest: set_takeWhileD)

lemma c_str_id [simp]: "no_nul s \<Longrightarrow> c_str s = s"
  by (auto simp: no_nul_def c_str_def takeWhile_eq_all_conv)

lemma no_nul_simps [simp]:
  "no_nul []"
  "no_nul (c # s) \<longleftrightarrow> c \<noteq> NUL \<and> no_nul s"
  "no_nul (s @ t) \<longleftrightarrow> no_nul s \<and> no_nul t"
  by (auto simp: no_nul_def)

definition isdigit :: "char \<Rightarrow> bool" where
  "isdigit c \<longleftrightarrow> 48 \<le> byte c \<and> byte c \<le> 57"

definition isupper :: "char \<Rightarrow> bool" where
  "isupper c \<longleftrightarrow> 65 \<le> byte c \<and> byte c \<le> 90"

definition islower :: "char \<Rightarrow> bool" where
  "islower c \<longleftrightarrow> 97 \<le> byte c \<and> byte c \<le> 122"

definition isalpha :: "char \<Rightarrow> bool" where
  "isalpha c \<longleftrightarrow> isupper c \<or> islower c"

definition isalnum :: "char \<Rightarrow> bool" where
  "isalnum c \<longleftrightarrow> isalpha c \<or> isdigit c"

definition isspace :: "char \<Rightarrow> bool" where
  "isspace c \<longleftrightarrow> byte c = 32 \<or> (9 \<le> byte c \<and> byte c \<le> 13)"

definition tolower :: "char \<Rightarrow> char" where
  "tolower c = (if isupper c then char_of (byte c + 32) else c)"

definition toupper :: "char \<Rightarrow> char" where
  "toupper c = (if islower c then char_of (byte c - 32) else c)"

text \<open>\<^verbatim>\<open>strcasecmp(s, t) == 0\<close> on C strings.\<close>

definition strcaseeq :: "string \<Rightarrow> string \<Rightarrow> bool" where
  "strcaseeq s t \<longleftrightarrow> map tolower (c_str s) = map tolower (c_str t)"

lemma strcaseeq_refl [simp]: "strcaseeq s s"
  by (simp add: strcaseeq_def)

lemma strcaseeq_sym: "strcaseeq s t \<longleftrightarrow> strcaseeq t s"
  by (auto simp: strcaseeq_def)

section \<open>Operations of std::string\<close>

text \<open>The first position from \<open>pos\<close> on whose character satisfies \<open>P\<close>;
  \<open>None\<close> is \<^verbatim>\<open>npos\<close>.\<close>

definition find_from :: "(char \<Rightarrow> bool) \<Rightarrow> string \<Rightarrow> nat \<Rightarrow> nat option" where
  "find_from P s pos =
     (let n = length (takeWhile (\<lambda>c. \<not> P c) (drop pos s))
      in if pos + n < length s then Some (pos + n) else None)"

text \<open>The last position whose character satisfies \<open>P\<close>.\<close>

definition find_last :: "(char \<Rightarrow> bool) \<Rightarrow> string \<Rightarrow> nat option" where
  "find_last P s =
     (let n = length (takeWhile (\<lambda>c. \<not> P c) (rev s))
      in if n < length s then Some (length s - 1 - n) else None)"

definition substr :: "string \<Rightarrow> nat \<Rightarrow> nat \<Rightarrow> string" where
  "substr s pos n = take n (drop pos s)"

definition starts_with :: "string \<Rightarrow> string \<Rightarrow> bool" where
  "starts_with s p \<longleftrightarrow> take (length p) s = p"

lemma starts_with_append [simp]: "starts_with (p @ s) p"
  by (simp add: starts_with_def)

lemma starts_with_iff: "starts_with s p \<longleftrightarrow> (\<exists>t. s = p @ t)"
  by (metis append_eq_conv_conj starts_with_def)

lemma length_takeWhile_less_iff: "length (takeWhile P xs) < length xs \<longleftrightarrow> (\<exists>x \<in> set xs. \<not> P x)"
  by (induction xs) auto

lemma find_from_Some:
  assumes "find_from P s pos = Some i"
  shows "pos \<le> i" "i < length s" "P (s ! i)" "\<And>j. pos \<le> j \<Longrightarrow> j < i \<Longrightarrow> \<not> P (s ! j)"
proof -
  let ?t = "drop pos s"
  let ?n = "length (takeWhile (\<lambda>c. \<not> P c) ?t)"
  from assms have i: "i = pos + ?n" and lt: "pos + ?n < length s"
    by (auto simp: find_from_def Let_def split: if_splits)
  show "pos \<le> i" "i < length s" using i lt by auto
  from lt have "?n < length ?t" by simp
  then have "P (?t ! ?n)" using nth_length_takeWhile by blast
  then show "P (s ! i)" using i lt by simp
  fix j assume j: "pos \<le> j" "j < i"
  then have "j - pos < ?n" using i by simp
  then have "takeWhile (\<lambda>c. \<not> P c) ?t ! (j - pos) = ?t ! (j - pos)"
    by (rule takeWhile_nth)
  moreover have "takeWhile (\<lambda>c. \<not> P c) ?t ! (j - pos) \<in> set (takeWhile (\<lambda>c. \<not> P c) ?t)"
    using \<open>j - pos < ?n\<close> by (rule nth_mem)
  ultimately have "\<not> P (?t ! (j - pos))" by (auto dest: set_takeWhileD)
  then show "\<not> P (s ! j)" using j i lt by (simp add: nth_drop)
qed

lemma find_from_split:
  assumes "find_from P s pos = Some i"
  obtains u where "drop pos s = u @ drop i s" "drop i s = s ! i # drop (Suc i) s" "\<forall>c \<in> set u. \<not> P c"
    "P (s ! i)" "i = pos + length u" "i < length s" "substr s pos (i - pos) = u"
proof -
  let ?u = "takeWhile (\<lambda>c. \<not> P c) (drop pos s)"
  have i: "i = pos + length ?u" "i < length s"
    using assms by (auto simp: find_from_def Let_def split: if_splits)
  have "drop pos s = ?u @ drop (length ?u) (drop pos s)"
    by (metis takeWhile_dropWhile_id dropWhile_eq_drop)
  then have split: "drop pos s = ?u @ drop i s" using i(1) by (simp add: add.commute)
  show thesis
  proof (rule that [of ?u])
    show "drop i s = s ! i # drop (Suc i) s" using i(2) by (rule Cons_nth_drop_Suc [symmetric])
    show "substr s pos (i - pos) = ?u" unfolding substr_def by (subst split) (simp add: i(1))
  qed (use split i find_from_Some(3) [OF assms] in \<open>auto dest: set_takeWhileD\<close>)
qed

lemma find_from_None:
  assumes "pos \<le> length s"
  shows "find_from P s pos = None \<longleftrightarrow> (\<forall>c \<in> set (drop pos s). \<not> P c)"
proof -
  let ?t = "drop pos s"
  have "find_from P s pos = None \<longleftrightarrow> \<not> (length (takeWhile (\<lambda>c. \<not> P c) ?t) < length ?t)"
    using assms by (auto simp: find_from_def Let_def)
  then show ?thesis by (simp only: length_takeWhile_less_iff) auto
qed

section \<open>Hexadecimal digits\<close>

text \<open>The digits that \<^verbatim>\<open>%x\<close> and \<^verbatim>\<open>%X\<close> print, and a digit's value.\<close>

definition xdigits_lower :: string where
  "xdigits_lower = ''0123456789abcdef''"

definition xdigits_upper :: string where
  "xdigits_upper = ''0123456789ABCDEF''"

definition hex_lower :: "nat \<Rightarrow> char" where
  "hex_lower n = xdigits_lower ! n"

definition hex_upper :: "nat \<Rightarrow> char" where
  "hex_upper n = xdigits_upper ! n"

definition xdigit_val :: "char \<Rightarrow> nat option" where
  "xdigit_val c =
     (if 48 \<le> byte c \<and> byte c \<le> 57 then Some (byte c - 48)
      else if 65 \<le> byte c \<and> byte c \<le> 70 then Some (byte c - 55)
      else if 97 \<le> byte c \<and> byte c \<le> 102 then Some (byte c - 87)
      else None)"

definition hex2_lower :: "nat \<Rightarrow> string" where
  "hex2_lower n = [hex_lower (n div 16), hex_lower (n mod 16)]"

definition hex2_upper :: "nat \<Rightarrow> string" where
  "hex2_upper n = [hex_upper (n div 16), hex_upper (n mod 16)]"

lemma map_xdigit_val:
  "map xdigit_val xdigits_lower = map Some [0..<16]"
  "map xdigit_val xdigits_upper = map Some [0..<16]"
  by code_simp+

lemma length_xdigits [simp]: "length xdigits_lower = 16" "length xdigits_upper = 16"
  by (simp_all add: xdigits_lower_def xdigits_upper_def)

lemma hex_in_xdigits:
  assumes "n < 16"
  shows "hex_lower n \<in> set xdigits_lower" "hex_upper n \<in> set xdigits_upper"
  using assms by (simp_all add: hex_lower_def hex_upper_def)

lemma xdigit_val_hex [simp]:
  assumes "n < 16"
  shows "xdigit_val (hex_lower n) = Some n" "xdigit_val (hex_upper n) = Some n"
proof -
  have "map xdigit_val xdigits_lower ! n = Some n" "map xdigit_val xdigits_upper ! n = Some n"
    using assms by (simp_all add: map_xdigit_val)
  then show "xdigit_val (hex_lower n) = Some n" "xdigit_val (hex_upper n) = Some n"
    using assms by (simp_all add: hex_lower_def hex_upper_def)
qed

lemma hex_upper_low:
  assumes "n < 16"
  shows "byte (hex_upper n) < 128" "hex_upper n \<noteq> NUL"
proof -
  have "\<forall>c \<in> set xdigits_upper. byte c < 128 \<and> c \<noteq> NUL" by (simp add: xdigits_upper_def)
  with hex_in_xdigits(2) [OF assms] show "byte (hex_upper n) < 128" "hex_upper n \<noteq> NUL" by blast+
qed

lemma byte_div_16_less [simp]: "byte c div 16 < 16"
  by (simp add: less_mult_imp_div_less)

section \<open>Decimal numbers\<close>

text \<open>\<^verbatim>\<open>%lu\<close>, and the value of a run of digits.\<close>

fun dec :: "nat \<Rightarrow> string" where
  "dec n = (if n < 10 then [char_of (48 + n)] else dec (n div 10) @ [char_of (48 + n mod 10)])"

declare dec.simps [simp del]

text \<open>\<^verbatim>\<open>%lld\<close>.\<close>

definition dec_int_str :: "int \<Rightarrow> string" where
  "dec_int_str i = (if i < 0 then ''-'' @ dec (nat (- i)) else dec (nat i))"

definition digit_val :: "char \<Rightarrow> nat" where
  "digit_val c = byte c - 48"

definition dec_val :: "string \<Rightarrow> nat" where
  "dec_val s = foldl (\<lambda>n c. n * 10 + digit_val c) 0 s"

lemma digit_char: "n < 10 \<Longrightarrow> isdigit (char_of (48 + n))" "n < 10 \<Longrightarrow> digit_val (char_of (48 + n)) = n"
  by (simp_all add: isdigit_def digit_val_def byte_char_of)

lemma dec_val_snoc: "dec_val (s @ [c]) = dec_val s * 10 + digit_val c"
  by (simp add: dec_val_def)

lemma dec_val_dec [simp]: "dec_val (dec n) = n"
proof (induction n rule: dec.induct)
  case (1 n)
  then show ?case
    by (subst dec.simps) (simp add: dec_val_snoc digit_char(2), simp add: dec_val_def digit_char(2))
qed

lemma dec_digits: "\<forall>c \<in> set (dec n). isdigit c"
proof (induction n rule: dec.induct)
  case (1 n)
  then show ?case by (subst dec.simps) (auto simp: digit_char(1))
qed

lemma dec_not_Nil [simp]: "dec n \<noteq> []"
  by (subst dec.simps) simp

section \<open>Unsigned 64-bit integers\<close>

type_synonym uint64 = "64 word"

lemma unat_word_of_nat64: "n < 2 ^ 64 \<Longrightarrow> unat (word_of_nat n :: uint64) = n"
  by (simp add: unat_of_nat take_bit_nat_eq_self)

lemma unat_minus_one64: "unat (-1 :: uint64) = 2 ^ 64 - 1"
  by (simp add: mask_eq_exp_minus_1 unsigned_minus_1_eq_mask)

end
