(* ===== verification/Armor.thy ===== *)
theory Armor
  imports Rgw_Prelude
begin

text \<open>
  Base64, \<^verbatim>\<open>src/common/armor.c\<close>: the encoder of request signatures and MD5 digests.
  A destination range \<^verbatim>\<open>[dst, dst_end)\<close> is its capacity and the characters written
  so far; lengths are unbounded naturals (the C code counts them in \<^verbatim>\<open>int\<close>).
\<close>

section \<open>The code\<close>

definition pem_key :: string where
  "pem_key = ''ABCDEFGHIJKLMNOPQRSTUVWXYZabcdefghijklmnopqrstuvwxyz0123456789+/''"

definition encode_bits :: "nat \<Rightarrow> char" where
  "encode_bits c = pem_key ! c"

definition decode_bits :: "char \<Rightarrow> int" where
  "decode_bits c =
     (if 65 \<le> byte c \<and> byte c \<le> 90 then int (byte c) - 65
      else if 97 \<le> byte c \<and> byte c \<le> 122 then int (byte c) - 97 + 26
      else if 48 \<le> byte c \<and> byte c \<le> 57 then int (byte c) - 48 + 52
      else if c = CHR ''+'' \<or> c = CHR ''-'' then 62
      else if c = CHR ''/'' \<or> c = CHR ''_'' then 63
      else if c = CHR ''='' then 0
      else - EINVAL)"

definition set_str_val :: "nat \<Rightarrow> string \<Rightarrow> char \<Rightarrow> string result" where
  "set_str_val cap out c = (if length out < cap then Inr (out @ [c]) else Inl (- ERANGE))"

text \<open>A sequence of \<^verbatim>\<open>SET_DST\<close>: the first failing store returns.\<close>

fun set_dst :: "nat \<Rightarrow> string \<Rightarrow> string \<Rightarrow> string result" where
  "set_dst cap out [] = Inr out"
| "set_dst cap out (c # cs) = bind_res (set_str_val cap out c) (\<lambda>out'. set_dst cap out' cs)"

text \<open>One turn of the encoding loop: the four characters for the next one, two or three
  source bytes.\<close>

definition quad3 :: "nat \<Rightarrow> nat \<Rightarrow> nat \<Rightarrow> string" where
  "quad3 a b c =
     [encode_bits (drop_bit 2 a),
      encode_bits (push_bit 4 (a AND 3) OR drop_bit 4 b),
      encode_bits (push_bit 2 (b AND 15) OR drop_bit 6 c),
      encode_bits (c AND 63)]"

definition quad2 :: "nat \<Rightarrow> nat \<Rightarrow> string" where
  "quad2 a b =
     [encode_bits (drop_bit 2 a),
      encode_bits (push_bit 4 (a AND 3) OR drop_bit 4 b),
      encode_bits (push_bit 2 (b AND 15)), CHR ''='']"

definition quad1 :: "nat \<Rightarrow> string" where
  "quad1 a =
     [encode_bits (drop_bit 2 a), encode_bits (push_bit 4 (a AND 3)), CHR ''='', CHR ''='']"

definition next_quad :: "char \<Rightarrow> string \<Rightarrow> string \<times> string" where
  "next_quad a src =
     (case src of
        [] \<Rightarrow> (quad1 (byte a), [])
      | [b] \<Rightarrow> (quad2 (byte a) (byte b), [])
      | b # c # rest \<Rightarrow> (quad3 (byte a) (byte b) (byte c), rest))"

definition line_end :: "nat \<Rightarrow> nat \<Rightarrow> bool" where
  "line_end line_width line \<longleftrightarrow> line_width \<noteq> 0 \<and> line = line_width"

function armor_loop :: "nat \<Rightarrow> nat \<Rightarrow> nat \<Rightarrow> nat \<Rightarrow> string \<Rightarrow> string \<Rightarrow> (nat \<times> string) result" where
  "armor_loop cap line_width olen line out [] = Inr (olen, out)"
| "armor_loop cap line_width olen line out (a # src) =
     (let (quad, rest) = next_quad a src
      in bind_res (set_dst cap out quad) (\<lambda>out.
           if line_end line_width (line + 4)
           then bind_res (set_dst cap out [LF]) (\<lambda>out.
                  armor_loop cap line_width (olen + 4 + 1) 0 out rest)
           else armor_loop cap line_width (olen + 4) (line + 4) out rest))"
  by pat_completeness auto
termination
  by (relation "measure (\<lambda>(cap, line_width, olen, line, out, src). length src)")
    (auto simp: next_quad_def split: list.splits)

definition ceph_armor_line_break :: "nat \<Rightarrow> string \<Rightarrow> nat \<Rightarrow> (nat \<times> string) result" where
  "ceph_armor_line_break cap src line_width = armor_loop cap line_width 0 0 [] src"

definition ceph_armor :: "nat \<Rightarrow> string \<Rightarrow> (nat \<times> string) result" where
  "ceph_armor cap src = ceph_armor_line_break cap src 0"

fun unarmor_loop :: "nat \<Rightarrow> nat \<Rightarrow> string \<Rightarrow> string \<Rightarrow> (nat \<times> string) result" where
  "unarmor_loop cap olen out [] = Inr (olen, out)"
| "unarmor_loop cap olen out (s0 # src) =
     (if s0 = LF then unarmor_loop cap olen out src
      else case src of
        s1 # s2 # s3 # rest \<Rightarrow>
          (let a = decode_bits s0; b = decode_bits s1; c = decode_bits s2; d = decode_bits s3 in
           if a < 0 \<or> b < 0 \<or> c < 0 \<or> d < 0 then Inl (- EINVAL)
           else
             bind_res (set_str_val cap out (char_of (push_bit 2 (nat a) OR drop_bit 4 (nat b)))) (\<lambda>out.
             if s2 = CHR ''='' then Inr (olen + 1, out)
             else
             bind_res (set_str_val cap out (char_of (push_bit 4 (nat b AND 15) OR drop_bit 2 (nat c)))) (\<lambda>out.
             if s3 = CHR ''='' then Inr (olen + 2, out)
             else
             bind_res (set_str_val cap out (char_of (push_bit 6 (nat c AND 3) OR nat d))) (\<lambda>out.
             unarmor_loop cap (olen + 3) out rest))))
      | _ \<Rightarrow> Inl (- EINVAL))"

definition ceph_unarmor :: "nat \<Rightarrow> string \<Rightarrow> (nat \<times> string) result" where
  "ceph_unarmor cap src = unarmor_loop cap 0 [] src"

section \<open>The text an encoding produces\<close>

fun armored :: "nat \<Rightarrow> nat \<Rightarrow> string \<Rightarrow> string" where
  "armored w line [] = []"
| "armored w line [a] = quad1 (byte a) @ (if line_end w (line + 4) then [LF] else [])"
| "armored w line [a, b] = quad2 (byte a) (byte b) @ (if line_end w (line + 4) then [LF] else [])"
| "armored w line (a # b # c # rest) =
     quad3 (byte a) (byte b) (byte c) @
     (if line_end w (line + 4) then LF # armored w 0 rest else armored w (line + 4) rest)"

lemma set_dst_eq:
  "set_dst cap out cs =
     (if cs = [] \<or> length out + length cs \<le> cap then Inr (out @ cs) else Inl (- ERANGE))"
  by (induction cap out cs rule: set_dst.induct) (auto simp: set_str_val_def)

lemma length_quads [simp]:
  "length (quad1 a) = 4" "length (quad2 a b) = 4" "length (quad3 a b c) = 4"
  by (simp_all add: quad1_def quad2_def quad3_def)

lemma quads_not_Nil [simp]:
  "quad1 a \<noteq> []" "quad2 a b \<noteq> []" "quad3 a b c \<noteq> []"
  by (simp_all add: quad1_def quad2_def quad3_def)

lemma armor_loop_eq:
  "armor_loop cap w olen line out src =
     (if src = [] \<or> length out + length (armored w line src) \<le> cap
      then Inr (olen + length (armored w line src), out @ armored w line src)
      else Inl (- ERANGE))"
  by (induction w line src arbitrary: olen out rule: armored.induct)
    (auto simp: set_dst_eq next_quad_def)

lemma length_armored_0: "length (armored 0 line src) = 4 * ((length src + 2) div 3)"
proof (induction "0 :: nat" line src rule: armored.induct)
  case (4 line a b c rest)
  have "(length (a # b # c # rest) + 2) div 3 = Suc ((length rest + 2) div 3)"
    using div_add_self2 [of 3 "length rest + 2"] by (simp add: add.commute)
  with 4 show ?case by (simp add: line_end_def)
qed (simp_all add: line_end_def)

section \<open>Decoding inverts encoding\<close>

lemma decode_pem_key: "map decode_bits pem_key = map int [0..<64]"
  by code_simp

lemma length_pem_key [simp]: "length pem_key = 64"
  by (simp add: pem_key_def)

lemma pem_key_no_pad: "CHR ''='' \<notin> set pem_key" "LF \<notin> set pem_key"
  by (simp_all add: pem_key_def)

lemma decode_encode_bits:
  assumes "n < 64"
  shows "decode_bits (encode_bits n) = int n" "encode_bits n \<noteq> CHR ''=''" "encode_bits n \<noteq> LF"
proof -
  have "map decode_bits pem_key ! n = int n" using assms by (simp add: decode_pem_key)
  then show "decode_bits (encode_bits n) = int n" using assms by (simp add: encode_bits_def)
  have "encode_bits n \<in> set pem_key" using assms by (simp add: encode_bits_def)
  then show "encode_bits n \<noteq> CHR ''=''" "encode_bits n \<noteq> LF" using pem_key_no_pad by auto
qed

lemma decode_pad [simp]: "decode_bits (CHR ''='') = 0"
  by (simp add: decode_bits_def)

lemma nat_less_2p: "(\<And>n. k \<le> n \<Longrightarrow> \<not> bit x n) \<Longrightarrow> x < 2 ^ k" for x :: nat
proof -
  assume "\<And>n. k \<le> n \<Longrightarrow> \<not> bit x n"
  then have "take_bit k x = x" by (intro bit_eqI) (meson bit_take_bit_iff leI)
  then show "x < 2 ^ k" by (metis take_bit_nat_less_exp)
qed

lemma bit_3_15_63 [byte_simps]:
  "bit (3::nat) n \<longleftrightarrow> n < 2" "bit (15::nat) n \<longleftrightarrow> n < 4" "bit (63::nat) n \<longleftrightarrow> n < 6"
proof -
  have "(3::nat) = mask 2" "(15::nat) = mask 4" "(63::nat) = mask 6" by (simp_all add: mask_eq_exp_minus_1)
  then show "bit (3::nat) n \<longleftrightarrow> n < 2" "bit (15::nat) n \<longleftrightarrow> n < 4" "bit (63::nat) n \<longleftrightarrow> n < 6"
    by (simp_all only: bit_mask_iff) simp_all
qed

lemmas sextet_bits = bit_and_iff bit_or_iff bit_push_bit_iff_nat bit_drop_bit_eq o_apply bit_3_15_63

lemma sextets_less:
  "drop_bit 2 (byte a) < 64"
  "push_bit 4 (byte a AND 3) OR drop_bit 4 (byte b) < 64"
  "push_bit 2 (byte b AND 15) OR drop_bit 6 (byte c) < 64"
  "byte c AND 63 < 64"
  "push_bit 4 (byte a AND 3) < 64"
  "push_bit 2 (byte b AND 15) < 64"
proof -
  have *: "x < 64" if "\<And>n. 6 \<le> n \<Longrightarrow> \<not> bit x n" for x :: nat
    using nat_less_2p [of 6 x] that by simp
  show "drop_bit 2 (byte a) < 64" "push_bit 4 (byte a AND 3) OR drop_bit 4 (byte b) < 64"
    "push_bit 2 (byte b AND 15) OR drop_bit 6 (byte c) < 64" "byte c AND 63 < 64"
    "push_bit 4 (byte a AND 3) < 64" "push_bit 2 (byte b AND 15) < 64"
    by (rule *, simp only: sextet_bits, (auto simp: bit_byte_high)[1])+
qed

lemma bit_byte_nibble: "bit (byte b) n \<Longrightarrow> n - 4 < 4"
  by (drule bit_byteD) simp

lemma octets_of_sextets:
  "push_bit 2 (drop_bit 2 (byte a)) OR drop_bit 4 (push_bit 4 (byte a AND 3) OR drop_bit 4 (byte b)) = byte a"
  "push_bit 4 ((push_bit 4 (byte a AND 3) OR drop_bit 4 (byte b)) AND 15) OR
     drop_bit 2 (push_bit 2 (byte b AND 15) OR drop_bit 6 (byte c)) = byte b"
  "push_bit 6 ((push_bit 2 (byte b AND 15) OR drop_bit 6 (byte c)) AND 3) OR (byte c AND 63) = byte c"
  "push_bit 2 (drop_bit 2 (byte a)) OR drop_bit 4 (push_bit 4 (byte a AND 3)) = byte a"
  "push_bit 4 ((push_bit 4 (byte a AND 3) OR drop_bit 4 (byte b)) AND 15) OR
     drop_bit 2 (push_bit 2 (byte b AND 15)) = byte b"
  by (rule bit_eqI, simp only: sextet_bits, (auto simp: bit_byte_high not_le intro: bit_byte_nibble simp del: add_2_eq_Suc)[1])+

text \<open>One turn of the decoding loop on encoded sextets.\<close>

lemma unarmor_quad1:
  assumes "x < 64" "y < 64" "length out < cap"
  shows "unarmor_loop cap olen out ([encode_bits x, encode_bits y, CHR ''='', CHR ''=''] @ rest) =
    Inr (olen + 1, out @ [char_of (push_bit 2 x OR drop_bit 4 y)])"
  using assms by (simp add: decode_encode_bits set_str_val_def)

lemma unarmor_quad2:
  assumes "x < 64" "y < 64" "z < 64" "length out + 1 < cap"
  shows "unarmor_loop cap olen out ([encode_bits x, encode_bits y, encode_bits z, CHR ''=''] @ rest) =
    Inr (olen + 2, out @ [char_of (push_bit 2 x OR drop_bit 4 y), char_of (push_bit 4 (y AND 15) OR drop_bit 2 z)])"
  using assms by (simp add: decode_encode_bits set_str_val_def del: push_bit_and)

lemma unarmor_quad3:
  assumes "x < 64" "y < 64" "z < 64" "t < 64" "length out + 2 < cap"
  shows "unarmor_loop cap olen out ([encode_bits x, encode_bits y, encode_bits z, encode_bits t] @ rest) =
    unarmor_loop cap (olen + 3)
      (out @ [char_of (push_bit 2 x OR drop_bit 4 y), char_of (push_bit 4 (y AND 15) OR drop_bit 2 z),
              char_of (push_bit 6 (z AND 3) OR t)]) rest"
  using assms by (simp add: decode_encode_bits set_str_val_def del: push_bit_and)

lemma unarmor_quads:
  "length out < cap \<Longrightarrow> unarmor_loop cap olen out (quad1 (byte a) @ rest) = Inr (olen + 1, out @ [a])"
  "length out + 1 < cap \<Longrightarrow> unarmor_loop cap olen out (quad2 (byte a) (byte b) @ rest) = Inr (olen + 2, out @ [a, b])"
  "length out + 2 < cap \<Longrightarrow> unarmor_loop cap olen out (quad3 (byte a) (byte b) (byte c) @ rest) =
     unarmor_loop cap (olen + 3) (out @ [a, b, c]) rest"
  by (simp_all only: quad1_def quad2_def quad3_def unarmor_quad1 unarmor_quad2 unarmor_quad3
      sextets_less octets_of_sextets char_of_byte)

lemma unarmor_armored:
  assumes "length out + length src \<le> cap"
  shows "unarmor_loop cap olen out (armored w line src) = Inr (olen + length src, out @ src)"
  using assms
  by (induction w line src arbitrary: olen out rule: armored.induct) (simp_all add: unarmor_quads)

section \<open>Properties\<close>

text \<open>C24: base64 round trip.  Whatever the line width, if the encoder succeeds then the
  decoder, given a buffer of at least the original size, returns exactly the original
  bytes and their number.\<close>

theorem ceph_unarmor_armor:
  assumes "ceph_armor_line_break cap src line_width = Inr (olen, enc)"
    and "length src \<le> cap'"
  shows "ceph_unarmor cap' enc = Inr (length src, src)"
proof -
  from assms(1) have "enc = armored line_width 0 src"
    by (auto simp: ceph_armor_line_break_def armor_loop_eq split: if_splits)
  then show ?thesis
    using unarmor_armored [of "[]" src cap' 0 line_width 0] assms(2)
    by (simp add: ceph_unarmor_def)
qed

theorem ceph_unarmor_armor_witness:
  "ceph_armor_line_break 64 ''Man is'' 4 = Inr (10, ''TWFu'' @ LF # ''IGlz'' @ [LF]) \<and>
   ceph_unarmor 6 (''TWFu'' @ LF # ''IGlz'' @ [LF]) = Inr (6, ''Man is'')"
proof -
  have *: "ceph_armor_line_break 64 ''Man is'' 4 = Inr (10, ''TWFu'' @ LF # ''IGlz'' @ [LF])"
    by code_simp
  show ?thesis using * ceph_unarmor_armor [OF *, of 6] by simp
qed

text \<open>the encoder never writes past its buffer and reports exactly when it would.
  For a non-empty source it succeeds iff the buffer holds four characters for every three
  source bytes begun; it then returns that length, and otherwise \<^verbatim>\<open>-ERANGE\<close>.\<close>

lemma ceph_armor_length:
  "ceph_armor cap src =
     (if src = [] \<or> 4 * ((length src + 2) div 3) \<le> cap
      then Inr (4 * ((length src + 2) div 3), armored 0 0 src) else Inl (- ERANGE))"
  by (auto simp: ceph_armor_def ceph_armor_line_break_def armor_loop_eq length_armored_0)

end
