(* ===== verification/Escape.thy ===== *)
theory Escape
  imports Rgw_Prelude
begin

text \<open>
  Escaping of response text, \<^verbatim>\<open>src/common/escape.c\<close>: for each of XML and JSON a
  function that computes the size of the output buffer and one that fills it.  The buffer a
  filling function leaves behind is a list of characters that ends in its NUL terminator.
\<close>

section \<open>The code\<close>

definition xml_control :: "char \<Rightarrow> bool" where
  "xml_control c \<longleftrightarrow> (byte c < 0x20 \<and> byte c \<noteq> 0x09 \<and> byte c \<noteq> 0x0a) \<or> byte c = 0x7f"

fun escape_xml_attr_len :: "string \<Rightarrow> nat" where
  "escape_xml_attr_len [] = 1"
| "escape_xml_attr_len (c # b) =
     (if c = NUL then 1
      else (if c = CHR ''<'' then 4
            else if c = CHR ''&'' then 5
            else if c = CHR ''>'' then 4
            else if c = CHR 0x27 then 6
            else if c = DQUOTE then 6
            else if xml_control c then 6
            else 1) + escape_xml_attr_len b)"

fun escape_xml_attr :: "string \<Rightarrow> string" where
  "escape_xml_attr [] = [NUL]"
| "escape_xml_attr (c # b) =
     (if c = NUL then [NUL]
      else (if c = CHR ''<'' then ''&lt;''
            else if c = CHR ''&'' then ''&amp;''
            else if c = CHR ''>'' then ''&gt;''
            else if c = CHR 0x27 then ''&apos;''
            else if c = DQUOTE then ''&quot;''
            else if xml_control c then ''&#x'' @ hex2_lower (byte c) @ '';''
            else [c]) @ escape_xml_attr b)"

definition json_control :: "char \<Rightarrow> bool" where
  "json_control c \<longleftrightarrow> byte c < 0x20 \<or> byte c = 0x7f"

text \<open>The JSON functions are given the length of their source, so a NUL is an ordinary
  control character to them.\<close>

fun escape_json_attr_len :: "string \<Rightarrow> nat" where
  "escape_json_attr_len [] = 1"
| "escape_json_attr_len (c # b) =
     (if c = DQUOTE then 2
      else if c = BACKSLASH then 2
      else if c = CHR ''/'' then 2
      else if c = TAB then 2
      else if c = LF then 2
      else if json_control c then 6
      else 1) + escape_json_attr_len b"

fun escape_json_attr :: "string \<Rightarrow> string" where
  "escape_json_attr [] = [NUL]"
| "escape_json_attr (c # b) =
     (if c = DQUOTE then [BACKSLASH, DQUOTE]
      else if c = BACKSLASH then [BACKSLASH, BACKSLASH]
      else if c = CHR ''/'' then [BACKSLASH, CHR ''/'']
      else if c = TAB then [BACKSLASH, CHR ''t'']
      else if c = LF then [BACKSLASH, CHR ''n'']
      else if json_control c then BACKSLASH # ''u00'' @ hex2_lower (byte c)
      else [c]) @ escape_json_attr b"

section \<open>Reference decoders\<close>

text \<open>What a client reads back: the decoding that XML 1.0 and RFC 8259 prescribe for the
  escapes the encoders may emit.  Text after the NUL terminator is not looked at.\<close>

definition hex_pair :: "char \<Rightarrow> char \<Rightarrow> char option" where
  "hex_pair h l =
     (case (xdigit_val h, xdigit_val l) of
        (Some x, Some y) \<Rightarrow> Some (char_of (16 * x + y)) | _ \<Rightarrow> None)"

function xml_unescape :: "string \<Rightarrow> string option" where
  "xml_unescape [] = None"
| "xml_unescape (c # s) =
     (if c = NUL then Some []
      else if c \<in> {CHR ''<'', CHR ''>'', DQUOTE, CHR 0x27} then None
      else if c \<noteq> CHR ''&'' then map_option (Cons c) (xml_unescape s)
      else if starts_with s ''lt;'' then map_option (Cons (CHR ''<'')) (xml_unescape (drop 3 s))
      else if starts_with s ''amp;'' then map_option (Cons (CHR ''&'')) (xml_unescape (drop 4 s))
      else if starts_with s ''gt;'' then map_option (Cons (CHR ''>'')) (xml_unescape (drop 3 s))
      else if starts_with s ''apos;'' then map_option (Cons (CHR 0x27)) (xml_unescape (drop 5 s))
      else if starts_with s ''quot;'' then map_option (Cons DQUOTE) (xml_unescape (drop 5 s))
      else case s of
        CHR ''#'' # CHR ''x'' # h # l # CHR '';'' # rest \<Rightarrow>
          (case hex_pair h l of
             None \<Rightarrow> None | Some d \<Rightarrow> map_option (Cons d) (xml_unescape rest))
      | _ \<Rightarrow> None)"
  by pat_completeness auto
termination
  by (relation "measure length") auto

function json_unescape :: "string \<Rightarrow> string option" where
  "json_unescape [] = None"
| "json_unescape (c # s) =
     (if c = NUL then Some []
      else if byte c < 0x20 \<or> c = DQUOTE then None
      else if c \<noteq> BACKSLASH then map_option (Cons c) (json_unescape s)
      else case s of
        [] \<Rightarrow> None
      | e # s' \<Rightarrow>
          if e \<in> {DQUOTE, BACKSLASH, CHR ''/''} then map_option (Cons e) (json_unescape s')
          else if e = CHR ''t'' then map_option (Cons TAB) (json_unescape s')
          else if e = CHR ''n'' then map_option (Cons LF) (json_unescape s')
          else if e = CHR ''u'' then
            (case s' of
               CHR ''0'' # CHR ''0'' # h # l # rest \<Rightarrow>
                 (case hex_pair h l of
                    None \<Rightarrow> None | Some d \<Rightarrow> map_option (Cons d) (json_unescape rest))
             | _ \<Rightarrow> None)
          else None)"
  by pat_completeness auto
termination
  by (relation "measure length") auto

lemma hex_pair_hex2 [simp]: "hex_pair (hex_lower (byte c div 16)) (hex_lower (byte c mod 16)) = Some c"
  by (simp add: hex_pair_def)

lemma hex2_lower_eq: "hex2_lower (byte c) = [hex_lower (byte c div 16), hex_lower (byte c mod 16)]"
  by (simp add: hex2_lower_def)

lemma xml_unescape_escape: "xml_unescape (escape_xml_attr s) = Some (c_str s)"
  by (induction s rule: escape_xml_attr.induct)
    (auto simp: c_str_def starts_with_def hex2_lower_eq xml_control_def)

lemma json_unescape_escape: "json_unescape (escape_json_attr s) = Some s"
  by (induction s rule: escape_json_attr.induct)
    (auto simp: hex2_lower_eq json_control_def)

section \<open>Properties\<close>

text \<open>XML escaping.  The size computed in advance is exactly what is written, NUL
  included, so the buffer never overflows; and a conforming reader, which rejects any raw
  angle bracket or quote, gets the original C string back.\<close>

lemma escape_xml_attr_correct:
  "escape_xml_attr_len s = length (escape_xml_attr s) \<and>
   xml_unescape (escape_xml_attr s) = Some (c_str s)"
proof
  show "escape_xml_attr_len s = length (escape_xml_attr s)"
    by (induction s rule: escape_xml_attr.induct) (simp_all add: hex2_lower_def)
qed (rule xml_unescape_escape)

text \<open>JSON escaping.  The size computed in advance is exactly what is written, and a
  conforming reader, which rejects raw control characters and quotes, gets the original
  bytes back, embedded NULs included.\<close>

lemma escape_json_attr_correct:
  "escape_json_attr_len s = length (escape_json_attr s) \<and>
   json_unescape (escape_json_attr s) = Some s"
proof
  show "escape_json_attr_len s = length (escape_json_attr s)"
    by (induction s rule: escape_json_attr.induct) (simp_all add: hex2_lower_def)
qed (rule json_unescape_escape)

end
