(* ===== verification/Utf8.thy ===== *)
theory Utf8
  imports Rgw_Prelude
begin

text \<open>
  UTF-8, \<^verbatim>\<open>src/common/utf8.c\<close>: the check every object name passes before it is
  stored.  Buffers of \<^verbatim>\<open>unsigned char\<close> are lists of naturals below 256;
  \<open>None\<close> is the failure code of an encoder (\<^verbatim>\<open>-1\<close>) or decoder
  (\<^verbatim>\<open>INVALID_UTF8_CHAR\<close>).
\<close>

section \<open>The code\<close>

function high_bits_set :: "nat \<Rightarrow> nat" where
  "high_bits_set c = (if c AND 0x80 \<noteq> 0x80 then 0 else Suc (high_bits_set (push_bit 1 c)))"
  by pat_completeness auto

lemma and_0x80: "c AND 0x80 = 0x80 \<longleftrightarrow> bit c 7" for c :: nat
  using and_exp_eq [of c 7] by simp

lemma high_bits_set_decreases:
  assumes "c AND 0x80 = 0x80"
  shows "push_bit 1 c mod 256 < c mod (256::nat)"
proof -
  define q r where "q = c div 256" and "r = c mod 256"
  have c: "c = 256 * q + r" "r < 256" by (simp_all add: q_def r_def)
  from assms have "odd (c div 128)" by (simp only: and_0x80) (simp add: bit_iff_odd)
  moreover have "c div 128 = 2 * q + r div 128" using c(1) by simp
  ultimately have "128 \<le> r" by (cases "r < 128") simp_all
  moreover have "(2 * c) mod 256 = (2 * r) mod 256"
    unfolding r_def by (rule mod_mult_right_eq [symmetric])
  moreover have "(2 * r) mod 256 = 2 * r - 256"
    using \<open>128 \<le> r\<close> c(2) by (simp add: mod_if)
  ultimately show ?thesis using c(2) by (simp add: push_bit_eq_mult mult.commute flip: r_def)
qed

termination high_bits_set
  by (relation "measure (\<lambda>c. c mod 256)") (use high_bits_set_decreases in auto)

declare high_bits_set.simps [simp del]

definition max_val :: "nat list" where
  "max_val = [0x7f, 0x7ff, 0xffff, 0x1fffff, 0x3ffffff, 0x7fffffff]"

definition MAX_UTF8_SZ :: nat where
  "MAX_UTF8_SZ = 6"

text \<open>The index the first loop of \<^verbatim>\<open>encode_utf8\<close> stops at.\<close>

definition utf8_index :: "nat \<Rightarrow> nat" where
  "utf8_index u = length (takeWhile (\<lambda>m. \<not> u \<le> m) max_val)"

text \<open>Its second loop: \<open>j\<close> continuation bytes, filled from the back.\<close>

fun utf8_tail :: "nat \<Rightarrow> nat \<Rightarrow> nat list \<Rightarrow> nat \<times> nat list" where
  "utf8_tail 0 u acc = (u, acc)"
| "utf8_tail (Suc j) u acc = utf8_tail j (drop_bit 6 u) ((0x80 OR (u AND 0x3f)) # acc)"

text \<open>\<^verbatim>\<open>~(0xFF >> (i + 1))\<close> as an \<^verbatim>\<open>unsigned char\<close>.\<close>

definition utf8_mask :: "nat \<Rightarrow> nat" where
  "utf8_mask i = 0xff - drop_bit (i + 1) 0xff"

definition encode_utf8 :: "nat \<Rightarrow> nat list option" where
  "encode_utf8 u =
     (let i = utf8_index u in
      if i = length max_val then None
      else if i = 0 then Some [u]
      else let (u', buf) = utf8_tail i u [] in Some ((utf8_mask i OR u') # buf))"

fun decode_utf8_tail :: "nat \<Rightarrow> nat list \<Rightarrow> nat option" where
  "decode_utf8_tail code [] = Some code"
| "decode_utf8_tail code (b # bs) =
     (if b AND 0xc0 \<noteq> 0x80 then None
      else decode_utf8_tail (push_bit 6 code OR (b AND 0x3f)) bs)"

definition decode_utf8 :: "nat list \<Rightarrow> nat option" where
  "decode_utf8 buf =
     (case buf of
        [] \<Rightarrow> None
      | [b] \<Rightarrow> if b \<ge> 0x80 then None else Some b
      | b # bs \<Rightarrow>
          let i = high_bits_set b in
          if i \<noteq> length buf then None
          else case decode_utf8_tail (b AND drop_bit i 0xff) bs of
            None \<Rightarrow> None
          | Some code \<Rightarrow>
              if code = 0xFFFE then None
              else if code = 0xFFFF then None
              else if code \<ge> 0xD800 \<and> code \<le> 0xDFFF then None
              else Some code)"

text \<open>The start of a new character in \<^verbatim>\<open>check_utf8\<close>: what was collected in
  \<open>u\<close> must decode, and must be what its code point encodes to.\<close>

definition utf8_flush :: "nat list \<Rightarrow> bool" where
  "utf8_flush u \<longleftrightarrow>
     u = [] \<or>
     (case decode_utf8 u of
        None \<Rightarrow> False
      | Some code \<Rightarrow>
          (case encode_utf8 code of
             None \<Rightarrow> False
           | Some re_encoded \<Rightarrow> length u = length re_encoded \<and> u = re_encoded))"

fun check_utf8_loop :: "nat \<Rightarrow> nat list \<Rightarrow> string \<Rightarrow> nat" where
  "check_utf8_loop i u [] = (if \<not> utf8_flush u then i + 1 else 0)"
| "check_utf8_loop i u (b # buf) =
     (let c = byte b in
      if c < 0x80 \<or> c AND 0xC0 \<noteq> 0x80 then
        (if \<not> utf8_flush u then i + 1
         else check_utf8_loop (i + 1) (if c \<ge> 0x80 then [c] else []) buf)
      else if length u = MAX_UTF8_SZ then i + 1
      else check_utf8_loop (i + 1) (u @ [c]) buf)"

definition check_utf8 :: "string \<Rightarrow> nat" where
  "check_utf8 buf = check_utf8_loop 0 [] buf"

definition check_utf8_cstr :: "string \<Rightarrow> nat" where
  "check_utf8_cstr buf = check_utf8 (c_str buf)"

definition is_control_character :: "int \<Rightarrow> bool" where
  "is_control_character c \<longleftrightarrow> (c \<noteq> 0 \<and> c < 0x20) \<or> c = 0x7f"

fun control_loop :: "nat \<Rightarrow> string \<Rightarrow> nat" where
  "control_loop i [] = 0"
| "control_loop i (b # buf) =
     (if is_control_character (int (byte b)) then i + 1 else control_loop (i + 1) buf)"

definition check_for_control_characters :: "string \<Rightarrow> nat" where
  "check_for_control_characters buf = control_loop 0 buf"

definition check_for_control_characters_cstr :: "string \<Rightarrow> nat" where
  "check_for_control_characters_cstr buf = check_for_control_characters (c_str buf)"

section \<open>Encoded characters\<close>

text \<open>The code points the decoder accepts.\<close>

definition valid_code :: "nat \<Rightarrow> bool" where
  "valid_code u \<longleftrightarrow> u \<le> 0x7fffffff \<and> u \<noteq> 0xFFFE \<and> u \<noteq> 0xFFFF \<and> \<not> (0xD800 \<le> u \<and> u \<le> 0xDFFF)"

definition utf8_bytes :: "nat \<Rightarrow> nat list" where
  "utf8_bytes u = the (encode_utf8 u)"

lemma utf8_index_eq:
  "utf8_index u =
     (if u \<le> 0x7f then 0 else if u \<le> 0x7ff then 1 else if u \<le> 0xffff then 2
      else if u \<le> 0x1fffff then 3 else if u \<le> 0x3ffffff then 4
      else if u \<le> 0x7fffffff then 5 else 6)"
  by (simp add: utf8_index_def max_val_def)

lemma encode_utf8_None: "encode_utf8 u = None \<longleftrightarrow> 0x7fffffff < u"
  by (auto simp: encode_utf8_def utf8_index_eq max_val_def Let_def split: prod.splits if_splits)

lemma utf8_tail_eq:
  "utf8_tail j u acc =
     (drop_bit (6 * j) u, map (\<lambda>k. 0x80 OR (drop_bit (6 * k) u AND 0x3f)) (rev [0..<j]) @ acc)"
proof (induction j arbitrary: u acc)
  case (Suc j)
  have "map (\<lambda>k. 0x80 OR (drop_bit (6 * k) (drop_bit 6 u) AND 0x3f)) (rev [0..<j]) =
        map (\<lambda>k. 0x80 OR (drop_bit (6 * Suc k) u AND 0x3f)) (rev [0..<j])"
    by (simp add: ac_simps)
  also have "\<dots> = map (\<lambda>k. 0x80 OR (drop_bit (6 * k) u AND 0x3f)) (rev [1..<Suc j])"
    by (simp only: map_Suc_upt [of 0, symmetric] One_nat_def rev_map map_map o_def)
  finally show ?case
    by (simp add: Suc.IH ac_simps upt_conv_Cons [of 0 "Suc j"] del: upt_Suc)
qed simp

lemma and_0x3f: "x AND 0x3f = x mod 64" for x :: nat
  using take_bit_eq_mask [of 6 x] by (simp add: take_bit_eq_mod mask_eq_exp_minus_1)

lemma and_0xc0: "x AND 0xc0 = 0x80 \<longleftrightarrow> bit x 7 \<and> \<not> bit x 6" for x :: nat
proof -
  have "x AND 0xc0 = (x AND 2 ^ 7) OR (x AND 2 ^ 6)"
    using and_or_distrib_nat [of x "2 ^ 7" "2 ^ 6"] by simp
  then show ?thesis by (simp only: and_exp_eq) simp
qed

lemma continuation_byte:
  fixes x :: nat
  defines "b \<equiv> 0x80 OR (x AND 0x3f)"
  shows "b AND 0xc0 = 0x80" "b AND 0x3f = x mod 64" "b < 256" "0x80 \<le> b"
proof -
  have b: "b = 128 + x mod 64"
    using or_shift_add [of "x mod 64" 7 1] pos_mod_bound [of 64 "int x"] unfolding b_def and_0x3f
    by (simp add: less_trans [of _ 64])
  define r where "r = x mod 64"
  have r: "r < 64" "b = 128 + r" by (simp_all add: r_def b)
  then show "0x80 \<le> b" "b < 256" by simp_all
  have "b mod 64 = r" using r mod_mult_self1 [of r 2 64] by (simp add: add.commute)
  then show "b AND 0x3f = x mod 64" by (simp add: and_0x3f r_def)
  have "b div 128 = 1" "b div 64 = 2" using r by (auto intro!: div_nat_eqI)
  then show "b AND 0xc0 = 0x80" by (simp add: and_0xc0 bit_iff_odd)
qed

lemma high_bits_setI:
  assumes "\<And>j. j < k \<Longrightarrow> bit c (7 - j)" and "k \<le> 7" and "\<not> bit c (7 - k)"
  shows "high_bits_set c = k"
  using assms
proof (induction k arbitrary: c)
  case 0
  then show ?case by (subst high_bits_set.simps) (simp only: and_0x80 diff_zero simp_thms if_True)
next
  case (Suc k)
  have "high_bits_set (push_bit 1 c) = k"
  proof (rule Suc.IH)
    show "bit (push_bit 1 c) (7 - j)" if "j < k" for j
    proof -
      have "7 - j - 1 = 7 - Suc j" "1 \<le> 7 - j" using that Suc.prems(2) by simp_all
      then show ?thesis
        using Suc.prems(1) [of "Suc j"] that by (simp only: bit_push_bit_iff_nat) 
    qed
    have "7 - k - 1 = 7 - Suc k" by simp
    then show "\<not> bit (push_bit 1 c) (7 - k)"
      using Suc.prems(3) by (simp only: bit_push_bit_iff_nat not_False_eq_True simp_thms)
    show "k \<le> 7" using Suc.prems(2) by simp
  qed
  moreover have "bit c 7" using Suc.prems(1) [of 0] by simp
  ultimately show ?case by (subst high_bits_set.simps) (simp only: and_0x80 simp_thms if_False)
qed

lemma utf8_mask_eq: "i \<le> 6 \<Longrightarrow> utf8_mask i = push_bit (7 - i) (mask (i + 1))"
proof -
  assume "i \<le> 6"
  then have "i \<in> {0, 1, 2, 3, 4, 5, 6}" by auto
  then show ?thesis by (auto simp: utf8_mask_def mask_eq_exp_minus_1 push_bit_eq_mult drop_bit_eq_div)
qed

lemma lead_byte:
  assumes i: "1 \<le> i" "i \<le> 5" and p: "p < 2 ^ (6 - i)"
  defines "b \<equiv> utf8_mask i OR p"
  shows "high_bits_set b = i + 1" "b AND drop_bit (i + 1) 0xff = p" "b AND 0xc0 \<noteq> 0x80"
    "0x80 \<le> b" "b < 256"
proof -
  have p_bit: "n < 6 - i" if "bit p n" for n using bit_nat_less [OF p that] .
  have bit_b: "bit b n \<longleftrightarrow> 7 - i \<le> n \<and> n \<le> 7 \<or> bit p n" for n
    using i by (auto simp: b_def utf8_mask_eq bit_or_iff bit_push_bit_iff_nat bit_mask_iff)
  show "high_bits_set b = i + 1"
    using i p_bit [of "6 - i"] by (intro high_bits_setI) (auto simp: bit_b)
  have "drop_bit (i + 1) (0xff :: nat) = mask (7 - i)"
  proof -
    have "drop_bit (i + 1) (mask 8 :: nat) = mask (7 - i)" using i by (simp add: drop_bit_mask_eq)
    then show ?thesis by (simp add: mask_eq_exp_minus_1)
  qed
  then show "b AND drop_bit (i + 1) 0xff = p"
    by (intro bit_eqI) (simp only: bit_and_iff bit_mask_iff bit_b, auto dest: p_bit)
  have 7: "bit b 7" and "bit b 6" using i by (auto simp: bit_b)
  then show "b AND 0xc0 \<noteq> 0x80" by (simp add: and_0xc0)
  have "n < 8" if "bit b n" for n using that p_bit [of n] by (auto simp: bit_b)
  then have "b = take_bit 8 b" by (intro bit_eqI) (auto simp: bit_take_bit_iff)
  then show "b < 256" using take_bit_nat_less_exp [of 8 b] by simp
  show "0x80 \<le> b" using 7 bit_nat_less [of b 7 7] by (cases "b < 2 ^ 7") auto
qed

definition utf8_conts :: "nat \<Rightarrow> nat \<Rightarrow> nat list" where
  "utf8_conts j u = map (\<lambda>k. 0x80 OR (drop_bit (6 * k) u AND 0x3f)) (rev [0..<j])"

lemma utf8_conts_Suc:
  "utf8_conts (Suc j) u = (0x80 OR (drop_bit (6 * j) u AND 0x3f)) # utf8_conts j u"
  by (simp add: utf8_conts_def)

lemma length_utf8_conts [simp]: "length (utf8_conts j u) = j"
  by (simp add: utf8_conts_def)

lemma decode_utf8_conts: "decode_utf8_tail (drop_bit (6 * j) u) (utf8_conts j u) = Some u"
proof (induction j)
  case (Suc j)
  let ?x = "drop_bit (6 * j) u"
  have "drop_bit (6 * Suc j) u = drop_bit 6 ?x" by simp
  moreover have "push_bit 6 (drop_bit 6 ?x) OR (?x mod 64) = ?x"
    using or_shift_add [of "?x mod 64" 6 "drop_bit 6 ?x"] div_mult_mod_eq [of ?x 64]
    by (simp add: drop_bit_eq_div)
  ultimately show ?case
    using Suc.IH by (simp add: utf8_conts_Suc continuation_byte del: mult_Suc_right)
qed (simp add: utf8_conts_def)

lemma utf8_bytes_cases:
  assumes "u \<le> 0x7fffffff"
  obtains (ascii) "u < 0x80" "encode_utf8 u = Some [u]" "utf8_bytes u = [u]"
  | (multi) i where "0x80 \<le> u" "1 \<le> i" "i \<le> 5" "drop_bit (6 * i) u < 2 ^ (6 - i)"
      "encode_utf8 u = Some ((utf8_mask i OR drop_bit (6 * i) u) # utf8_conts i u)"
proof (cases "u < 0x80")
  case True
  then show thesis by (intro ascii) (simp_all add: utf8_bytes_def encode_utf8_def utf8_index_eq max_val_def)
next
  case False
  define i where "i = utf8_index u"
  have i: "1 \<le> i" "i \<le> 5" "u < 2 ^ (5 * i + 6)"
    using False assms by (auto simp: i_def utf8_index_eq)
  then have "u < 2 ^ (6 - i) * 2 ^ (6 * i)" by (simp flip: power_add)
  then have "drop_bit (6 * i) u < 2 ^ (6 - i)" by (simp add: drop_bit_eq_div less_mult_imp_div_less)
  moreover have "encode_utf8 u = Some ((utf8_mask i OR drop_bit (6 * i) u) # utf8_conts i u)"
    using i by (simp add: encode_utf8_def i_def [symmetric] max_val_def utf8_tail_eq utf8_conts_def)
  ultimately show thesis using multi [of i] i False by simp
qed

lemma decode_encode_utf8:
  assumes "valid_code u" and "encode_utf8 u = Some bs"
  shows "decode_utf8 bs = Some u"
proof -
  have "u \<le> 0x7fffffff" using assms(1) by (simp add: valid_code_def)
  then show ?thesis
  proof (cases u rule: utf8_bytes_cases)
    case ascii
    then show ?thesis using assms(2) by (simp add: decode_utf8_def)
  next
    case (multi i)
    note lead = lead_byte [OF multi(2,3,4)]
    obtain j where "i = Suc j" using multi(2) by (cases i) auto
    then obtain c cs where cs: "utf8_conts i u = c # cs" by (simp add: utf8_conts_Suc)
    have "length (c # cs) = i" using length_utf8_conts [of i u] cs by simp
    moreover have "decode_utf8_tail (drop_bit (6 * i) u) (c # cs) = Some u"
      using decode_utf8_conts [of i u] cs by simp
    moreover have "bs = (utf8_mask i OR drop_bit (6 * i) u) # c # cs"
      using assms(2) multi(5) cs by simp
    ultimately show ?thesis
      using assms(1) lead(1,2)
      by (simp only: decode_utf8_def valid_code_def Let_def list.case option.case list.size) simp
  qed
qed

text \<open>A code point that is legal in UTF-8 (at most 31 bits, no surrogate, not FFFE or FFFF)
  is encoded into at most six bytes, and decoding these bytes gives it back.\<close>

lemma decode_utf8_encode_utf8:
  assumes "valid_code u"
  shows "\<exists>bs. encode_utf8 u = Some bs \<and> bs \<noteq> [] \<and> length bs \<le> MAX_UTF8_SZ \<and>
    (\<forall>b \<in> set bs. b < 256) \<and> decode_utf8 bs = Some u"
proof -
  have "u \<le> 0x7fffffff" using assms by (simp add: valid_code_def)
  then obtain bs where bs: "encode_utf8 u = Some bs" "bs \<noteq> []" "length bs \<le> 6" "\<forall>b \<in> set bs. b < 256"
  proof (cases u rule: utf8_bytes_cases)
    case ascii
    then show thesis by (intro that) auto
  next
    case (multi i)
    then show thesis
      by (intro that [OF multi(5)])
        (auto simp: utf8_conts_def continuation_byte lead_byte(5))
  qed
  then show ?thesis using decode_encode_utf8 [OF assms] by (auto simp: MAX_UTF8_SZ_def)
qed

section \<open>The check accepts exactly the sequences of encoded characters\<close>

definition utf8_encoded :: "nat list \<Rightarrow> string" where
  "utf8_encoded us = map char_of (concat (map utf8_bytes us))"

lemma utf8_encoded_simps [simp]:
  "utf8_encoded [] = []"
  "utf8_encoded (u # us) = map char_of (utf8_bytes u) @ utf8_encoded us"
  "utf8_encoded (us @ vs) = utf8_encoded us @ utf8_encoded vs"
  by (simp_all add: utf8_encoded_def)

lemma utf8_flush_bytes: "valid_code u \<Longrightarrow> utf8_flush (utf8_bytes u)"
proof -
  assume u: "valid_code u"
  then obtain bs where "encode_utf8 u = Some bs" using encode_utf8_None [of u] by (auto simp: valid_code_def)
  then show ?thesis using decode_encode_utf8 [OF u] by (simp add: utf8_flush_def utf8_bytes_def)
qed

lemma check_conts:
  assumes "\<forall>b \<in> set bs. b < 256 \<and> 0x80 \<le> b \<and> b AND 0xc0 = 0x80" and "length u + length bs \<le> MAX_UTF8_SZ"
  shows "check_utf8_loop i u (map char_of bs @ s) = check_utf8_loop (i + length bs) (u @ bs) s"
  using assms by (induction bs arbitrary: i u) (simp_all add: byte_char_of)

lemma check_utf8_accepts:
  assumes "list_all valid_code us" and "utf8_flush u"
  shows "check_utf8_loop i u (utf8_encoded us) = 0"
  using assms
proof (induction us arbitrary: i u)
  case (Cons v us)
  then have "v \<le> 0x7fffffff" by (simp add: valid_code_def)
  then show ?case
  proof (cases v rule: utf8_bytes_cases)
    case ascii
    then show ?thesis using Cons by (simp add: byte_char_of utf8_flush_def [of "[]"])
  next
    case (multi j)
    let ?b = "utf8_mask j OR drop_bit (6 * j) v"
    note lead = lead_byte [OF multi(2,3,4)]
    have bytes: "utf8_bytes v = ?b # utf8_conts j v" using multi(5) by (simp add: utf8_bytes_def)
    have "check_utf8_loop (i + 1) [?b] (map char_of (utf8_conts j v) @ utf8_encoded us) =
          check_utf8_loop (i + 1 + length (utf8_conts j v)) ([?b] @ utf8_conts j v) (utf8_encoded us)"
      using multi(3) by (intro check_conts) (auto simp: utf8_conts_def continuation_byte MAX_UTF8_SZ_def)
    also have "\<dots> = 0"
      using Cons.prems utf8_flush_bytes [of v] bytes by (intro Cons.IH) simp_all
    finally show ?thesis
      using Cons.prems lead by (simp add: bytes byte_char_of)
  qed
qed simp

lemma decode_utf8_valid: "decode_utf8 u = Some c \<Longrightarrow> encode_utf8 c \<noteq> None \<Longrightarrow> valid_code c"
  by (auto simp: decode_utf8_def valid_code_def encode_utf8_None Let_def
      split: list.splits if_splits option.splits)

lemma utf8_flushD:
  assumes "utf8_flush u"
  obtains us where "list_all valid_code us" and "u = concat (map utf8_bytes us)"
proof (cases "u = []")
  case True
  then show thesis by (intro that [of "[]"]) simp_all
next
  case False
  then obtain c where "decode_utf8 u = Some c" "encode_utf8 c = Some u"
    using assms by (auto simp: utf8_flush_def split: option.splits)
  then show thesis
    using decode_utf8_valid [of u c] by (intro that [of "[c]"]) (simp_all add: utf8_bytes_def)
qed

lemma check_utf8_sound:
  assumes "check_utf8_loop i u s = 0"
  shows "\<exists>us. list_all valid_code us \<and> u @ map byte s = concat (map utf8_bytes us)"
  using assms
proof (induction s arbitrary: i u)
  case Nil
  then have "utf8_flush u" by (simp split: if_splits)
  then obtain us where "list_all valid_code us" "u = concat (map utf8_bytes us)" by (rule utf8_flushD)
  then show ?case by auto
next
  case (Cons b s)
  show ?case
  proof (cases "byte b < 0x80 \<or> byte b AND 0xC0 \<noteq> 0x80")
    case True
    then have flush: "utf8_flush u"
      and rest: "check_utf8_loop (i + 1) (if byte b \<ge> 0x80 then [byte b] else []) s = 0"
      using Cons.prems by (auto simp: Let_def split: if_splits)
    from flush obtain us where us: "list_all valid_code us" "u = concat (map utf8_bytes us)" by (rule utf8_flushD)
    from Cons.IH [OF rest] obtain vs where vs: "list_all valid_code vs"
      "(if byte b \<ge> 0x80 then [byte b] else []) @ map byte s = concat (map utf8_bytes vs)" by blast
    show ?thesis
    proof (cases "byte b < 0x80")
      case ascii: True
      then have "utf8_bytes (byte b) = [byte b]" "valid_code (byte b)"
        by (simp_all add: utf8_bytes_def encode_utf8_def utf8_index_eq max_val_def valid_code_def)
      then show ?thesis using us vs ascii by (intro exI [of _ "us @ byte b # vs"]) simp
    next
      case False
      then show ?thesis using us vs by (intro exI [of _ "us @ vs"]) simp
    qed
  next
    case False
    then have "check_utf8_loop (i + 1) (u @ [byte b]) s = 0"
      using Cons.prems by (auto simp: Let_def split: if_splits)
    from Cons.IH [OF this] show ?thesis by simp
  qed
qed

text \<open>C25: A buffer passes the UTF-8 check exactly when it is the concatenation of the encodings of
  legal code points; so overlong forms, stray continuation bytes, truncated characters, surrogates
  and FFFE/FFFF are all rejected, at any position.\<close>

theorem check_utf8_iff:
  "check_utf8 s = 0 \<longleftrightarrow> (\<exists>us. list_all valid_code us \<and> s = utf8_encoded us)"
proof
  assume "check_utf8 s = 0"
  then obtain us where us: "list_all valid_code us" "map byte s = concat (map utf8_bytes us)"
    using check_utf8_sound [of 0 "[]" s] by (auto simp: check_utf8_def)
  from us(2) have "map char_of (map byte s) = utf8_encoded us" by (simp add: utf8_encoded_def)
  then show "\<exists>us. list_all valid_code us \<and> s = utf8_encoded us" using us(1) by (auto simp: o_def)
next
  assume "\<exists>us. list_all valid_code us \<and> s = utf8_encoded us"
  then show "check_utf8 s = 0"
    using check_utf8_accepts [of _ "[]" 0] by (auto simp: check_utf8_def utf8_flush_def)
qed

text \<open>The control-character check returns 0 exactly on buffers without control characters,
  and otherwise the position, counted from one, of the first one.\<close>

lemma check_for_control_characters_first:
  "check_for_control_characters s =
     (let k = length (takeWhile (\<lambda>c. \<not> is_control_character (int (byte c))) s)
      in if k = length s then 0 else k + 1)"
proof -
  have "control_loop i s =
     (let k = length (takeWhile (\<lambda>c. \<not> is_control_character (int (byte c))) s)
      in if k = length s then 0 else i + k + 1)" for i
    by (induction s arbitrary: i) (simp_all add: Let_def)
  from this [of 0] show ?thesis by (simp add: check_for_control_characters_def Let_def)
qed

end
