(* ===== verification/Mime.thy ===== *)
theory Mime
  imports Utf8
begin

text \<open>
  Quoted-printable text, \<^verbatim>\<open>src/common/mime.c\<close>.  The caller's buffer is a list of
  characters whose length is the \<^verbatim>\<open>outlen\<close> of the call; writing goes through
  \<^verbatim>\<open>snprintf\<close>, which truncates to the room that is left and always ends what it writes
  with a NUL.  The input is a C string: the loops stop at its first NUL.  The state of a loop is
  its \<^verbatim>\<open>ret\<close>, the write position, the room left and the buffer.
\<close>

section \<open>The code\<close>

record qp_state =
  ret :: nat
  pos :: nat
  outlen :: nat
  outbuf :: string

definition snprintf_at :: "nat \<Rightarrow> nat \<Rightarrow> string \<Rightarrow> string \<Rightarrow> string" where
  "snprintf_at p n s buf =
     (if n = 0 then buf
      else let w = take (n - 1) s @ [NUL] in take p buf @ w @ drop (p + length w) buf)"

definition qp_put :: "string \<Rightarrow> qp_state \<Rightarrow> qp_state" where
  "qp_put s st =
     (if outlen st \<ge> length s
      then \<lparr>ret = ret st + length s, pos = pos st + length s, outlen = outlen st - length s,
            outbuf = snprintf_at (pos st) (outlen st) s (outbuf st)\<rparr>
      else st\<lparr>ret := ret st + length s\<rparr>)"

definition qp_quoted :: "char \<Rightarrow> bool" where
  "qp_quoted i \<longleftrightarrow> byte i AND 0x80 \<noteq> 0 \<or> i = CHR ''='' \<or> is_control_character (int (byte i))"

fun mime_encode_loop :: "string \<Rightarrow> qp_state \<Rightarrow> qp_state" where
  "mime_encode_loop [] st = st"
| "mime_encode_loop (i # is) st =
     (if qp_quoted i then
        (if outlen st \<ge> 3 then mime_encode_loop is (qp_put (CHR ''='' # hex2_upper (byte i)) st)
         else mime_encode_loop is (st\<lparr>outlen := 0, ret := ret st + 3\<rparr>))
      else mime_encode_loop is (qp_put [i] st))"

definition mime_encode_as_qp :: "string \<Rightarrow> string \<Rightarrow> nat \<times> string" where
  "mime_encode_as_qp input buf =
     (let st = mime_encode_loop (c_str input) \<lparr>ret = 1, pos = 0, outlen = length buf, outbuf = buf\<rparr>
      in (ret st, outbuf st))"

definition hexchar_to_int :: "char \<Rightarrow> int" where
  "hexchar_to_int c = (case xdigit_val c of Some n \<Rightarrow> int n | None \<Rightarrow> - EDOM)"

fun mime_decode_loop :: "string \<Rightarrow> qp_state \<Rightarrow> qp_state result" where
  "mime_decode_loop [] st = Inr st"
| "mime_decode_loop (i # is) st =
     (if byte i AND 0x80 \<noteq> 0 then Inl (- EDOM)
      else if i = CHR ''='' then
        (case is of
           h # l # is' \<Rightarrow>
             if hexchar_to_int h < 0 then Inl (- EINVAL)
             else if hexchar_to_int l < 0 then Inl (- EINVAL)
             else mime_decode_loop is' (qp_put [char_of (nat (hexchar_to_int h * 16 + hexchar_to_int l))] st)
         | _ \<Rightarrow> Inl (- EINVAL))
      else mime_decode_loop is (qp_put [i] st))"

definition mime_decode_from_qp :: "string \<Rightarrow> string \<Rightarrow> (nat \<times> string) result" where
  "mime_decode_from_qp input buf =
     bind_res (mime_decode_loop (c_str input) \<lparr>ret = 1, pos = 0, outlen = length buf, outbuf = buf\<rparr>)
       (\<lambda>st. Inr (ret st, outbuf st))"

section \<open>What is written\<close>

definition qp_char :: "char \<Rightarrow> string" where
  "qp_char i = (if qp_quoted i then CHR ''='' # hex2_upper (byte i) else [i])"

definition qp :: "string \<Rightarrow> string" where
  "qp s = concat (map qp_char s)"

lemma qp_simps [simp]: "qp [] = []" "qp (c # s) = qp_char c @ qp s"
  by (simp_all add: qp_def)

lemma qp_char_not_Nil [simp]: "qp_char c \<noteq> []"
  by (simp add: qp_char_def)

text \<open>The buffer holds \<open>w\<close> up to the write position, closed by a NUL once something was written.\<close>

definition qp_inv :: "nat \<Rightarrow> string \<Rightarrow> qp_state \<Rightarrow> bool" where
  "qp_inv n w st \<longleftrightarrow> pos st = length w \<and> pos st + outlen st = n \<and> length (outbuf st) = n \<and>
     ret st = length w + 1 \<and> take (length w) (outbuf st) = w \<and>
     (w \<noteq> [] \<longrightarrow> length w < n \<longrightarrow> outbuf st ! length w = NUL)"

lemma qp_put_inv:
  assumes "qp_inv n w st" and "length w + length s < n"
  shows "qp_inv n (w @ s) (qp_put s st)"
proof -
  have "outlen st > length s" using assms by (auto simp: qp_inv_def)
  then have "outbuf (qp_put s st) = w @ s @ [NUL] @ drop (length w + length s + 1) (outbuf st)"
    using assms by (auto simp: qp_put_def snprintf_at_def qp_inv_def Let_def)
  then show ?thesis
    using assms \<open>outlen st > length s\<close> by (auto simp: qp_inv_def qp_put_def nth_append)
qed

lemma encode_loop_inv:
  assumes "qp_inv n w st" and "length w + length (qp s) < n"
  shows "qp_inv n (w @ qp s) (mime_encode_loop s st)"
  using assms
proof (induction s arbitrary: w st)
  case (Cons c s)
  have "qp_inv n (w @ qp_char c) (qp_put (qp_char c) st)"
    using Cons.prems by (intro qp_put_inv) simp_all
  from Cons.IH [OF this] have "qp_inv n (w @ qp (c # s)) (mime_encode_loop s (qp_put (qp_char c) st))"
    using Cons.prems(2) by simp
  moreover have "outlen st \<ge> 3" if "qp_quoted c"
    using that Cons.prems by (auto simp: qp_inv_def qp_char_def hex2_upper_def)
  ultimately show ?case by (auto simp: qp_char_def)
qed simp

lemma encode_loop_ret: "ret (mime_encode_loop s st) = ret st + length (qp s)"
  by (induction s arbitrary: st) (simp_all add: qp_put_def qp_char_def hex2_upper_def)

lemma qp_char_head: "\<not> qp_quoted c \<Longrightarrow> byte c AND 0x80 = 0 \<and> c \<noteq> CHR ''=''"
  by (auto simp: qp_quoted_def)

lemma equals_low: "byte (CHR ''='') AND 0x80 = 0"
  by simp

lemma hexchar_to_int_hex: "n < 16 \<Longrightarrow> hexchar_to_int (hex_upper n) = int n"
  by (simp add: hexchar_to_int_def)

lemma decode_loop_inv:
  assumes "qp_inv n w st" and "length w + length s < n"
  shows "\<exists>st'. mime_decode_loop (qp s) st = Inr st' \<and> qp_inv n (w @ s) st'"
  using assms
proof (induction s arbitrary: w st)
  case (Cons c s)
  have put: "qp_inv n (w @ [c]) (qp_put [c] st)" using Cons.prems by (intro qp_put_inv) simp_all
  have "int (byte c div 16) * 16 + int (byte c mod 16) = int (byte c)"
    by (simp only: zdiv_int zmod_int of_nat_numeral div_mult_mod_eq)
  then have "mime_decode_loop (qp (c # s)) st = mime_decode_loop (qp s) (qp_put [c] st)"
    using byte_div_16_less [of c] mod_less_divisor [of 16 "byte c"]
    by (cases "qp_quoted c")
      (simp_all add: qp_char_def hex2_upper_def hexchar_to_int_hex qp_char_head equals_low
        del: byte_div_16_less mod_less_divisor of_nat_mod of_nat_div)
  then show ?case using Cons.IH [OF put] Cons.prems(2) by simp
qed simp

lemma qp_inv_c_str: "qp_inv n w st \<Longrightarrow> w \<noteq> [] \<Longrightarrow> length w < n \<Longrightarrow> no_nul w \<Longrightarrow> c_str (outbuf st) = w"
proof -
  assume *: "qp_inv n w st" "w \<noteq> []" "length w < n" "no_nul w"
  then have "outbuf st = w @ NUL # drop (Suc (length w)) (outbuf st)"
    using id_take_nth_drop [of "length w" "outbuf st"] by (simp add: qp_inv_def)
  then have "c_str (outbuf st) = c_str (w @ NUL # drop (Suc (length w)) (outbuf st))" by simp
  also have "\<dots> = w" using *(4) by (auto simp: c_str_def no_nul_def takeWhile_append)
  finally show ?thesis .
qed

lemma no_nul_qp: "no_nul s \<Longrightarrow> no_nul (qp s)"
proof (induction s)
  case (Cons c s)
  have "no_nul (qp_char c)" using Cons.prems hex_upper_low(2) [of "byte c div 16"] hex_upper_low(2) [of "byte c mod 16"]
    by (auto simp: qp_char_def hex2_upper_def no_nul_def)
  then show ?case using Cons by (simp add: no_nul_def)
qed simp



end
