(* ===== verification/Std_Map.thy ===== *)
theory Std_Map
  imports Rgw_Prelude
begin

text \<open>
  \<^verbatim>\<open>std::map\<close> and \<^verbatim>\<open>std::multimap\<close> as the program uses them: an
  association list in the order of the keys.  The comparator is given by a normal form \<open>f\<close> of the
  keys (the identity for the default comparator, lower-casing for \<^verbatim>\<open>ltstr_nocase\<close> of
  \<^verbatim>\<open>src/rgw/rgw_string.h\<close>): two keys are equivalent when their normal forms are equal.
  The locale \<open>dict\<close> is what the clients rely on.
\<close>

section \<open>The interface\<close>

locale dict =
  fixes ok :: "'m \<Rightarrow> bool"
    and empty :: 'm
    and upd :: "'k \<Rightarrow> 'v \<Rightarrow> 'm \<Rightarrow> 'm"
    and get :: "'m \<Rightarrow> 'k \<Rightarrow> 'v option"
    and del :: "'k \<Rightarrow> 'm \<Rightarrow> 'm"
    and same :: "'k \<Rightarrow> 'k \<Rightarrow> bool"
  assumes ok_empty: "ok empty"
    and ok_upd: "ok m \<Longrightarrow> ok (upd k v m)"
    and ok_del: "ok m \<Longrightarrow> ok (del k m)"
    and get_empty: "get empty j = None"
    and get_upd: "ok m \<Longrightarrow> get (upd k v m) j = (if same j k then Some v else get m j)"
    and get_del: "ok m \<Longrightarrow> get (del k m) j = (if same j k then None else get m j)"
    and same_refl: "same k k"
begin

lemma ok_fold_upd: "ok m \<Longrightarrow> ok (fold (\<lambda>(k, v). upd k v) kvs m)"
  by (induction kvs arbitrary: m) (auto intro: ok_upd)

text \<open>After a series of assignments a key has the value of the last one to an equivalent key.\<close>

lemma get_fold_upd:
  "ok m \<Longrightarrow> get (fold (\<lambda>(k, v). upd k v) kvs m) j =
     (case filter (\<lambda>(k, v). same j k) kvs of [] \<Rightarrow> get m j | ms \<Rightarrow> Some (snd (last ms)))"
  by (induction kvs arbitrary: m) (auto simp: get_upd ok_upd split: list.splits)

lemma get_upd_same: "ok m \<Longrightarrow> get (upd k v m) k = Some v"
  by (simp add: get_upd same_refl)

end

section \<open>std::map\<close>

fun map_set :: "('k \<Rightarrow> 'n :: linorder) \<Rightarrow> 'k \<Rightarrow> 'v \<Rightarrow> ('k \<times> 'v) list \<Rightarrow> ('k \<times> 'v) list" where
  "map_set f k v [] = [(k, v)]"
| "map_set f k v ((k', v') # m) =
     (if f k = f k' then (k', v) # m
      else if f k < f k' then (k, v) # (k', v') # m
      else (k', v') # map_set f k v m)"

definition map_get :: "('k \<Rightarrow> 'n) \<Rightarrow> ('k \<times> 'v) list \<Rightarrow> 'k \<Rightarrow> 'v option" where
  "map_get f m k = map_option snd (find (\<lambda>p. f (fst p) = f k) m)"

definition map_del :: "('k \<Rightarrow> 'n) \<Rightarrow> 'k \<Rightarrow> ('k \<times> 'v) list \<Rightarrow> ('k \<times> 'v) list" where
  "map_del f k m = filter (\<lambda>p. f (fst p) \<noteq> f k) m"

definition ordered_map :: "('k \<Rightarrow> 'n :: linorder) \<Rightarrow> ('k \<times> 'v) list \<Rightarrow> bool" where
  "ordered_map f m \<longleftrightarrow> sorted_wrt (<) (map (f \<circ> fst) m)"

lemma ordered_map_simps [simp]:
  "ordered_map f []"
  "ordered_map f ((k, v) # m) \<longleftrightarrow> (\<forall>p \<in> set m. f k < f (fst p)) \<and> ordered_map f m"
  by (simp_all add: ordered_map_def)

lemma map_get_simps [simp]:
  "map_get f [] j = None"
  "map_get f ((k, v) # m) j = (if f k = f j then Some v else map_get f m j)"
  by (simp_all add: map_get_def)

lemma map_get_None: "map_get f m j = None \<longleftrightarrow> (\<forall>p \<in> set m. f (fst p) \<noteq> f j)"
  by (auto simp: map_get_def find_None_iff)

lemma set_map_set: "p \<in> set (map_set f k v m) \<Longrightarrow> f (fst p) = f k \<or> p \<in> set m"
  by (induction m) (auto split: if_splits)

lemma ordered_map_set: "ordered_map f m \<Longrightarrow> ordered_map f (map_set f k v m)"
proof (induction m)
  case (Cons p m)
  then show ?case by (cases p) (force dest: set_map_set)
qed simp

lemma map_get_map_set:
  "ordered_map f m \<Longrightarrow> map_get f (map_set f k v m) j = (if f j = f k then Some v else map_get f m j)"
proof (induction m)
  case (Cons p m)
  then show ?case by (cases p) auto
qed auto

lemma ordered_map_del: "ordered_map f m \<Longrightarrow> ordered_map f (map_del f k m)"
  by (induction m) (auto simp: map_del_def)

lemma map_get_map_del: "map_get f (map_del f k m) j = (if f j = f k then None else map_get f m j)"
  by (induction m) (auto simp: map_del_def)

interpretation std_map: dict "ordered_map f" "[]" "map_set f" "map_get f" "map_del f" "\<lambda>j k. f j = f k"
  for f :: "'k \<Rightarrow> 'n :: linorder"
  by unfold_locales
    (auto simp: ordered_map_set ordered_map_del map_get_map_set map_get_map_del)

lemma map_set_greatest: "\<forall>p \<in> set m. f (fst p) < f k \<Longrightarrow> map_set f k v m = m @ [(k, v)]"
  by (induction m) (auto simp: less_le not_less_iff_gr_or_eq)

text \<open>Inserting the entries of an ordered map one by one rebuilds it: what a decoder does.\<close>

lemma fold_map_set_ordered:
  "ordered_map f (m @ kvs) \<Longrightarrow> fold (\<lambda>(k, v). map_set f k v) kvs m = m @ kvs"
proof (induction kvs arbitrary: m)
  case (Cons p kvs)
  obtain k v where p: "p = (k, v)" by force
  have "\<forall>q \<in> set m. f (fst q) < f k"
    using Cons.prems p by (auto simp: ordered_map_def sorted_wrt_append)
  then show ?case using Cons p by (simp add: map_set_greatest)
qed simp

section \<open>std::multimap\<close>

text \<open>A new entry goes behind the entries with an equivalent key.\<close>

fun multimap_insert :: "('k \<Rightarrow> 'n :: linorder) \<Rightarrow> 'k \<Rightarrow> 'v \<Rightarrow> ('k \<times> 'v) list \<Rightarrow> ('k \<times> 'v) list" where
  "multimap_insert f k v [] = [(k, v)]"
| "multimap_insert f k v ((k', v') # m) =
     (if f k < f k' then (k, v) # (k', v') # m else (k', v') # multimap_insert f k v m)"

definition ordered_multimap :: "('k \<Rightarrow> 'n :: linorder) \<Rightarrow> ('k \<times> 'v) list \<Rightarrow> bool" where
  "ordered_multimap f m \<longleftrightarrow> sorted (map (f \<circ> fst) m)"

lemma set_multimap_insert [simp]: "set (multimap_insert f k v m) = insert (k, v) (set m)"
  by (induction m) (auto split: if_splits)

lemma ordered_multimap_insert: "ordered_multimap f m \<Longrightarrow> ordered_multimap f (multimap_insert f k v m)"
proof (induction m)
  case (Cons p m)
  then show ?case by (cases p) (auto simp: ordered_multimap_def)
qed (simp add: ordered_multimap_def)

lemma multimap_insert_greatest: "\<forall>p \<in> set m. f (fst p) \<le> f k \<Longrightarrow> multimap_insert f k v m = m @ [(k, v)]"
  by (induction m) auto

lemma fold_multimap_insert_ordered:
  "ordered_multimap f (m @ kvs) \<Longrightarrow> fold (\<lambda>(k, v). multimap_insert f k v) kvs m = m @ kvs"
proof (induction kvs arbitrary: m)
  case (Cons p kvs)
  obtain k v where p: "p = (k, v)" by force
  have "\<forall>q \<in> set m. f (fst q) \<le> f k"
    using Cons.prems p by (auto simp: ordered_multimap_def sorted_append)
  then show ?case using Cons p by (simp add: multimap_insert_greatest)
qed simp

section \<open>The two comparators of the program\<close>

definition plain :: "'k \<Rightarrow> 'k" where
  "plain k = k"

lemma plain_simps [simp]:
  "plain j = plain k \<longleftrightarrow> j = k" "plain x < plain y \<longleftrightarrow> x < y" "plain x \<le> plain y \<longleftrightarrow> x \<le> y"
  for x y :: "'a :: linorder"
  by (simp_all add: plain_def)

definition nocase :: "string \<Rightarrow> string" where
  "nocase s = map tolower (c_str s)"

type_synonym 'v string_map = "(string \<times> 'v) list"

abbreviation smap_set :: "string \<Rightarrow> 'v \<Rightarrow> 'v string_map \<Rightarrow> 'v string_map" where
  "smap_set \<equiv> map_set plain"

abbreviation smap_get :: "'v string_map \<Rightarrow> string \<Rightarrow> 'v option" where
  "smap_get \<equiv> map_get plain"

abbreviation smap_del :: "string \<Rightarrow> 'v string_map \<Rightarrow> 'v string_map" where
  "smap_del \<equiv> map_del plain"

end
