(* ===== verification/Str_List.thy ===== *)
theory Str_List
  imports Rgw_Prelude
begin

text \<open>
  Splitting of option values and header lists, \<^verbatim>\<open>src/common/str_list.cc\<close>.  The three
  collectors share one loop and differ in the container they push the tokens to, which is the
  parameter \<open>push\<close> here.
\<close>

section \<open>The code\<close>

definition get_next_token :: "string \<Rightarrow> nat \<Rightarrow> string \<Rightarrow> string option \<times> nat" where
  "get_next_token s pos delims =
     (case find_from (\<lambda>c. c \<notin> set delims) s pos of
        None \<Rightarrow> (None, length s)
      | Some start \<Rightarrow>
          (case find_from (\<lambda>c. c \<in> set delims) s start of
             Some fin \<Rightarrow> (Some (substr s start (fin - start)), fin + 1)
           | None \<Rightarrow> (Some (substr s start (length s - start)), length s)))"

function get_str_loop :: "('acc \<Rightarrow> string \<Rightarrow> 'acc) \<Rightarrow> string \<Rightarrow> string \<Rightarrow> nat \<Rightarrow> 'acc \<Rightarrow> 'acc" where
  "get_str_loop push str delims pos acc =
     (if pos < length str then
        (case get_next_token str pos delims of
           (None, pos') \<Rightarrow> get_str_loop push str delims pos' acc
         | (Some token, pos') \<Rightarrow>
             get_str_loop push str delims pos' (if length token > 0 then push acc token else acc))
      else acc)"
  by pat_completeness auto

lemma get_next_token_progress:
  assumes "get_next_token s pos delims = (t, pos')" and "pos < length s"
  shows "pos < pos'" "pos' \<le> length s"
proof -
  have "pos < pos' \<and> pos' \<le> length s"
  proof (cases "find_from (\<lambda>c. c \<notin> set delims) s pos")
    case (Some i)
    then show ?thesis
      using assms find_from_Some(1,2) [OF Some]
      by (auto simp: get_next_token_def split: option.splits dest: find_from_Some(1,2) intro: le_less_trans)
  qed (use assms in \<open>auto simp: get_next_token_def\<close>)
  then show "pos < pos'" "pos' \<le> length s" by simp_all
qed

termination get_str_loop
proof (relation "measure (\<lambda>(push, str, delims, pos, acc). length str - pos)")
qed (auto intro!: diff_less_mono2 dest!: get_next_token_progress(1) [OF sym])

declare get_str_loop.simps [simp del]

definition default_delims :: string where
  "default_delims = '';,= '' @ [TAB]"

definition get_str_list :: "string \<Rightarrow> string \<Rightarrow> string list" where
  "get_str_list str delims = get_str_loop (\<lambda>l t. l @ [t]) str delims 0 []"

definition get_str_vec :: "string \<Rightarrow> string \<Rightarrow> string list" where
  "get_str_vec str delims = get_str_loop (\<lambda>l t. l @ [t]) str delims 0 []"

definition get_str_set :: "string \<Rightarrow> string \<Rightarrow> string set" where
  "get_str_set str delims = get_str_loop (\<lambda>S t. insert t S) str delims 0 {}"

section \<open>The tokens are the non-empty fields between delimiters\<close>

fun split_by :: "(char \<Rightarrow> bool) \<Rightarrow> string \<Rightarrow> string list" where
  "split_by P [] = [[]]"
| "split_by P (c # s) =
     (if P c then [] # split_by P s else (c # hd (split_by P s)) # tl (split_by P s))"

definition fields :: "string \<Rightarrow> string \<Rightarrow> string list" where
  "fields delims s = filter (\<lambda>t. t \<noteq> []) (split_by (\<lambda>c. c \<in> set delims) s)"

lemma split_by_not_Nil [simp]: "split_by P s \<noteq> []"
  by (cases s) simp_all

lemma split_by_word: "\<forall>c \<in> set t. \<not> P c \<Longrightarrow> split_by P t = [t]"
  by (induction t) simp_all

lemma split_by_append: "\<forall>c \<in> set t. \<not> P c \<Longrightarrow> P d \<Longrightarrow> split_by P (t @ d # s) = t # split_by P s"
  by (induction t) simp_all

lemma fields_delims: "set ds \<subseteq> set delims \<Longrightarrow> fields delims (ds @ s) = fields delims s"
  by (induction ds) (simp_all add: fields_def)

lemma fields_word: "t \<noteq> [] \<Longrightarrow> set t \<inter> set delims = {} \<Longrightarrow> fields delims t = [t]"
  by (subst fields_def, subst split_by_word) auto

lemma fields_append:
  "t \<noteq> [] \<Longrightarrow> set t \<inter> set delims = {} \<Longrightarrow> d \<in> set delims \<Longrightarrow> fields delims (t @ d # s) = t # fields delims s"
  by (subst fields_def, subst split_by_append) (auto simp: fields_def)

lemma get_next_token_fields:
  assumes "get_next_token s pos delims = (t, pos')" and "pos < length s"
  shows "fields delims (drop pos s) = (case t of None \<Rightarrow> [] | Some w \<Rightarrow> [w]) @ fields delims (drop pos' s)"
    and "t \<noteq> Some []"
proof -
  have "fields delims (drop pos s) = (case t of None \<Rightarrow> [] | Some w \<Rightarrow> [w]) @ fields delims (drop pos' s) \<and>
    t \<noteq> Some []"
  proof (cases "find_from (\<lambda>c. c \<notin> set delims) s pos")
    case None
    then have "set (drop pos s) \<subseteq> set delims" using assms(2) by (auto simp: find_from_None)
    then show ?thesis
      using fields_delims [of "drop pos s" delims "[]"] None assms(1) by (auto simp: get_next_token_def)
  next
    case (Some i)
    then obtain ds where ds: "drop pos s = ds @ drop i s" "set ds \<subseteq> set delims" "i < length s" "s ! i \<notin> set delims"
      by (rule find_from_split) auto
    then have head: "fields delims (drop pos s) = fields delims (drop i s)" by (simp add: fields_delims)
    show ?thesis
    proof (cases "find_from (\<lambda>c. c \<in> set delims) s i")
      case None
      then have "set (drop i s) \<inter> set delims = {}" using ds(3) by (auto simp: find_from_None)
      then show ?thesis
        using fields_word [of "drop i s" delims] None \<open>find_from _ s pos = Some i\<close> assms(1) ds(3) head
        by (auto simp: get_next_token_def substr_def fields_def)
    next
      case (Some j)
      then obtain w where w: "drop i s = w @ drop j s" "drop j s = s ! j # drop (Suc j) s" "\<forall>c \<in> set w. c \<notin> set delims"
        "s ! j \<in> set delims" "j = i + length w" "substr s i (j - i) = w" by (rule find_from_split)
      then have "w \<noteq> []" "set w \<inter> set delims = {}" using ds(4) by auto
      then show ?thesis
        using fields_append [of w delims "s ! j" "drop (Suc j) s"] w head
          Some \<open>find_from _ s pos = Some i\<close> assms(1)
        by (auto simp: get_next_token_def)
    qed
  qed
  then show "fields delims (drop pos s) = (case t of None \<Rightarrow> [] | Some w \<Rightarrow> [w]) @ fields delims (drop pos' s)"
    and "t \<noteq> Some []" by simp_all
qed

lemma get_str_loop_fields: "get_str_loop push s delims pos acc = foldl push acc (fields delims (drop pos s))"
proof (induction push s delims pos acc rule: get_str_loop.induct)
  case (1 push s delims pos acc)
  show ?case
  proof (cases "pos < length s")
    case True
    obtain t pos' where tok: "get_next_token s pos delims = (t, pos')" by force
    note f = get_next_token_fields [OF tok True]
    show ?thesis
      using 1 True tok f by (subst get_str_loop.simps) (cases t, auto)
  next
    case False
    then show ?thesis by (subst get_str_loop.simps) (simp add: fields_def)
  qed
qed

text \<open>The list and the vector collector return exactly the non-empty fields between
  delimiters, in their order; the set collector returns the set of them.\<close>

lemma get_str_list_fields:
  "get_str_list s delims = fields delims s \<and> get_str_vec s delims = fields delims s \<and>
   get_str_set s delims = set (fields delims s)"
proof -
  have "foldl (\<lambda>l t. l @ [t]) acc ts = acc @ ts" for acc ts :: "string list"
    by (induction ts arbitrary: acc) simp_all
  moreover have "foldl (\<lambda>S t. insert t S) acc ts = acc \<union> set ts" for acc and ts :: "string list"
    by (induction ts arbitrary: acc) auto
  ultimately show ?thesis
    by (simp add: get_str_list_def get_str_vec_def get_str_set_def get_str_loop_fields)
qed

end
