(* ===== verification/Http_Args.thy ===== *)
theory Http_Args
  imports Std_Map Str_List
begin

text \<open>
  Query strings, \<^verbatim>\<open>src/rgw/porting_common.cc\<close> and \<^verbatim>\<open>porting_common.h\<close>:
  percent encoding and decoding, \<^verbatim>\<open>NameVal\<close> and \<^verbatim>\<open>RGWHTTPArgs\<close>, and the
  string helpers next to them.

  \<^verbatim>\<open>HexTable::to_num\<close> indexes its table with a signed \<^verbatim>\<open>char\<close>: for a byte
  above 127 it reads memory in front of the table.  What is found there is the parameter \<open>oob\<close>.
\<close>

section \<open>Percent encoding\<close>

definition hex_to_num :: "(char \<Rightarrow> int) \<Rightarrow> char \<Rightarrow> int" where
  "hex_to_num oob c =
     (if schar c < 0 then oob c
      else case xdigit_val c of Some n \<Rightarrow> int n | None \<Rightarrow> - 1)"

fun url_decode_loop :: "(char \<Rightarrow> int) \<Rightarrow> bool \<Rightarrow> string \<Rightarrow> string option" where
  "url_decode_loop oob in_query [] = Some []"
| "url_decode_loop oob in_query (c # src) =
     (if c \<noteq> CHR ''%'' then
        (if \<not> in_query \<or> c \<noteq> CHR ''+''
         then map_option ((#) c) (url_decode_loop oob (in_query \<or> c = CHR ''?'') src)
         else map_option ((#) (CHR '' '')) (url_decode_loop oob in_query src))
      else
        (case src of
           h # l # src' \<Rightarrow>
             let c1 = hex_to_num oob h; c2 = hex_to_num oob l in
             if c1 < 0 then None
             else if c2 < 0 then None
             else map_option ((#) (char_of (nat ((push_bit 4 c1 OR c2) mod 256))))
                    (url_decode_loop oob in_query src')
         | _ \<Rightarrow> Some []))"

definition url_decode :: "(char \<Rightarrow> int) \<Rightarrow> string \<Rightarrow> string \<Rightarrow> bool \<Rightarrow> bool \<times> string" where
  "url_decode oob src_str dest_str in_query =
     (case url_decode_loop oob in_query (c_str src_str) of
        None \<Rightarrow> (False, dest_str)
      | Some dest \<Rightarrow> (True, c_str dest))"

definition char_needs_url_encoding :: "char \<Rightarrow> bool" where
  "char_needs_url_encoding c \<longleftrightarrow>
     schar c \<le> 0x20 \<or> schar c \<ge> 0x7f \<or>
     byte c \<in> set [0x22, 0x23, 0x25, 0x26, 0x2B, 0x2C, 0x2F, 0x3A, 0x3B, 0x3C, 0x3E, 0x3D, 0x3F, 0x40,
                   0x5B, 0x5D, 0x5C, 0x5E, 0x60, 0x7B, 0x7D]"

definition escape_char :: "char \<Rightarrow> string \<Rightarrow> string" where
  "escape_char c dst = dst @ CHR ''%'' # hex2_upper (byte c)"

fun url_encode :: "string \<Rightarrow> string \<Rightarrow> string" where
  "url_encode [] dst = dst"
| "url_encode (c # src) dst =
     url_encode src (if char_needs_url_encoding c then escape_char c dst else dst @ [c])"

section \<open>Names and values\<close>

definition spacestr :: string where
  "spacestr = [CHR '' '', TAB, LF, CR, CHR 0x0C, CHR 0x0B]"

text \<open>\<open>dst\<close> is the old content of the destination: it stays when there is nothing but space.\<close>

definition trim_whitespace :: "string \<Rightarrow> string \<Rightarrow> string" where
  "trim_whitespace src dst =
     (case find_from (\<lambda>c. c \<notin> set spacestr) src 0 of
        None \<Rightarrow> dst
      | Some start \<Rightarrow>
          (case find_last (\<lambda>c. c \<notin> set spacestr) src of
             None \<Rightarrow> dst
           | Some fin \<Rightarrow> substr src start (fin - start + 1)))"

definition parse_key_value :: "string \<Rightarrow> char \<Rightarrow> string \<Rightarrow> string \<Rightarrow> (string \<times> string) result" where
  "parse_key_value in_str delim key val =
     (case find_from (\<lambda>c. c = delim) in_str 0 of
        None \<Rightarrow> Inl (- EINVAL)
      | Some pos \<Rightarrow>
          Inr (trim_whitespace (take pos in_str) key, trim_whitespace (drop (pos + 1) in_str) val))"

text \<open>\<^verbatim>\<open>NameVal::parse\<close>: name, value and the return code.\<close>

definition NameVal_parse :: "string \<Rightarrow> string \<times> string \<times> int" where
  "NameVal_parse str =
     (case find_from (\<lambda>c. c = CHR ''='') str 0 of
        None \<Rightarrow> (str, '''', 1)
      | Some delim_pos \<Rightarrow> (take delim_pos str, drop (delim_pos + 1) str, 0))"

section \<open>RGWHTTPArgs\<close>

record http_args =
  str :: string
  val_map :: "string string_map"
  sys_val_map :: "string string_map"
  sub_resources :: "string string_map"
  has_resp_modifier :: bool

definition RGW_SYS_PARAM_PREFIX :: string where
  "RGW_SYS_PARAM_PREFIX = ''rgwx-''"

definition new_args :: http_args where
  "new_args = \<lparr>str = [], val_map = [], sys_val_map = [], sub_resources = [], has_resp_modifier = False\<rparr>"

definition args_set :: "string \<Rightarrow> http_args \<Rightarrow> http_args" where
  "args_set s a = a\<lparr>has_resp_modifier := False, val_map := [], sub_resources := [], str := s\<rparr>"

definition s3_sub_resources :: "string list" where
  "s3_sub_resources =
     [''acl'', ''cors'', ''location'', ''logging'', ''delete'', ''uploads'', ''partNumber'', ''uploadId'',
      ''versionId'', ''versions'', ''versioning'', ''requestPayment'', ''torrent'']"

definition resp_modifiers :: "string list" where
  "resp_modifiers =
     [''response-content-type'', ''response-content-language'', ''response-expires'',
      ''response-cache-control'', ''response-content-disposition'', ''response-content-encoding'']"

definition admin_sub_resources :: "string list" where
  "admin_sub_resources = [''subuser'', ''key'', ''caps'', ''index'', ''policy'', ''quota'', ''object'']"

definition head_is :: "char \<Rightarrow> string \<Rightarrow> bool" where
  "head_is c s = (case s of [] \<Rightarrow> c = NUL | d # _ \<Rightarrow> d = c)"

text \<open>What one parameter does to the arguments; the flag is \<^verbatim>\<open>admin_subresource_added\<close>.\<close>

definition args_add :: "string \<Rightarrow> string \<Rightarrow> bool \<times> http_args \<Rightarrow> bool \<times> http_args" where
  "args_add name val = (\<lambda>(added, a).
     let a1 = (if starts_with name RGW_SYS_PARAM_PREFIX
               then a\<lparr>sys_val_map := smap_set name val (sys_val_map a)\<rparr>
               else a\<lparr>val_map := smap_set name val (val_map a)\<rparr>)
     in if name \<in> set s3_sub_resources then (added, a1\<lparr>sub_resources := smap_set name val (sub_resources a1)\<rparr>)
        else if head_is CHR ''r'' name then
          (if name \<in> set resp_modifiers
           then (added, a1\<lparr>sub_resources := smap_set name val (sub_resources a1), has_resp_modifier := True\<rparr>)
           else (added, a1))
        else if name \<in> set admin_sub_resources then
          (if \<not> added then (True, a1\<lparr>sub_resources := smap_set name '''' (sub_resources a1)\<rparr>) else (added, a1))
        else (added, a1))"

text \<open>The parameters of the rest of the query string, one per \<^verbatim>\<open>&\<close>-separated field; a field that
  does not decode counts as an empty one.\<close>

definition decode_field :: "(char \<Rightarrow> int) \<Rightarrow> string \<Rightarrow> string" where
  "decode_field oob field = snd (url_decode oob field '''' True)"

function args_parse_loop :: "(char \<Rightarrow> int) \<Rightarrow> string \<Rightarrow> bool \<times> http_args \<Rightarrow> bool \<times> http_args" where
  "args_parse_loop oob rest st =
     (let field = takeWhile (\<lambda>c. c \<noteq> CHR ''&'') rest;
          (name, val, ret) = NameVal_parse (decode_field oob field);
          st' = (if ret \<ge> 0 then args_add name val st else st)
      in if length field < length rest then args_parse_loop oob (drop (length field + 1) rest) st' else st')"
  by pat_completeness auto

termination args_parse_loop
  by (relation "measure (\<lambda>(oob, rest, st). length rest)") auto

declare args_parse_loop.simps [simp del]

definition args_parse :: "(char \<Rightarrow> int) \<Rightarrow> http_args \<Rightarrow> http_args" where
  "args_parse oob a =
     snd (args_parse_loop oob (if head_is CHR ''?'' (str a) then drop 1 (str a) else str a) (False, a))"

definition args_get :: "http_args \<Rightarrow> string \<Rightarrow> string \<times> bool" where
  "args_get a name = (case smap_get (val_map a) name of Some v \<Rightarrow> (v, True) | None \<Rightarrow> ('''', False))"

definition args_exists :: "http_args \<Rightarrow> string \<Rightarrow> bool" where
  "args_exists a name \<longleftrightarrow> smap_get (val_map a) name \<noteq> None"

definition sub_resource_exists :: "http_args \<Rightarrow> string \<Rightarrow> bool" where
  "sub_resource_exists a name \<longleftrightarrow> smap_get (sub_resources a) name \<noteq> None"

text \<open>\<^verbatim>\<open>get_bool\<close>: the return code with the value, which is left alone when the parameter is
  missing, and whether it exists.\<close>

definition args_get_bool :: "http_args \<Rightarrow> string \<Rightarrow> bool \<Rightarrow> int \<times> bool \<times> bool" where
  "args_get_bool a name val =
     (case smap_get (val_map a) name of
        None \<Rightarrow> (0, val, False)
      | Some s \<Rightarrow>
          if strcaseeq s ''false'' then (0, False, True)
          else if strcaseeq s ''true'' then (0, True, True)
          else (- EINVAL, val, True))"

definition args_get_bool_or :: "http_args \<Rightarrow> string \<Rightarrow> bool \<Rightarrow> bool" where
  "args_get_bool_or a name def_val =
     (let (r, val, exists) = args_get_bool a name def_val
      in if r < 0 \<or> \<not> exists then def_val else val)"

definition set_system :: "http_args \<Rightarrow> http_args" where
  "set_system a = a\<lparr>val_map := fold (\<lambda>(k, v). smap_set k v) (sys_val_map a) (val_map a)\<rparr>"

section \<open>Percent encoding round trip\<close>

definition url_encoded :: "char \<Rightarrow> string" where
  "url_encoded c = (if char_needs_url_encoding c then CHR ''%'' # hex2_upper (byte c) else [c])"

lemma url_encode_eq: "url_encode src dst = dst @ concat (map url_encoded src)"
  by (induction src arbitrary: dst) (simp_all add: url_encoded_def escape_char_def)

lemma schar_nonneg: "schar c \<ge> 0 \<longleftrightarrow> byte c < 128"
  by (simp add: schar_def not_le)

lemma hex_to_num_hex: "n < 16 \<Longrightarrow> hex_to_num oob (hex_upper n) = int n"
  using hex_upper_low [of n] schar_nonneg [of "hex_upper n"] by (simp add: hex_to_num_def)

lemma nibbles:
  assumes "n < 256"
  shows "(push_bit 4 (int (n div 16)) OR int (n mod 16)) mod 256 = int n"
proof -
  have "push_bit 4 (n div 16) OR n mod 16 = n"
    using or_shift_add [of "n mod 16" 4 "n div 16"] by simp
  then have "push_bit 4 (int (n div 16)) OR int (n mod 16) = int n"
    by (simp only: flip: of_nat_push_bit of_nat_or_eq)
  then show ?thesis using assms by simp
qed

lemma no_encoding_needed:
  "\<not> char_needs_url_encoding c \<Longrightarrow> c \<noteq> CHR ''%'' \<and> c \<noteq> CHR ''+'' \<and> c \<noteq> CHR ''?''"
  by (auto simp: char_needs_url_encoding_def)

lemma url_decode_loop_encoded:
  "url_decode_loop oob q (url_encoded c @ s) = map_option ((#) c) (url_decode_loop oob q s)"
proof (cases "char_needs_url_encoding c")
  case True
  have "nat ((push_bit 4 (int (byte c div 16)) OR int (byte c mod 16)) mod 256) = byte c"
    by (subst nibbles) (simp_all del: of_char_mod_256)
  then show ?thesis
    using True hex_to_num_hex [of "byte c div 16" oob] hex_to_num_hex [of "byte c mod 16" oob]
    by (simp add: url_encoded_def hex2_upper_def Let_def del: of_nat_div of_nat_mod)
next
  case False
  then show ?thesis using no_encoding_needed [OF False] by (simp add: url_encoded_def)
qed

lemma no_nul_url_encoded: "c \<noteq> NUL \<Longrightarrow> no_nul (url_encoded c)"
  using hex_upper_low [of "byte c div 16"] hex_upper_low [of "byte c mod 16"]
  by (auto simp: url_encoded_def hex2_upper_def no_nul_def)

lemma no_nul_url_encode:
  assumes "no_nul s"
  shows "no_nul (url_encode s [])"
proof -
  have "\<forall>c \<in> set s. no_nul (url_encoded c)"
    using assms by (intro ballI no_nul_url_encoded) (auto simp: no_nul_def)
  then show ?thesis by (simp add: no_nul_def url_encode_eq)
qed

lemma url_decode_loop_url_encoded:
  "url_decode_loop oob q (concat (map url_encoded s) @ t) = map_option ((@) s) (url_decode_loop oob q t)"
  by (induction s) (cases "url_decode_loop oob q t"; simp add: url_decode_loop_encoded)+

lemma url_decode_loop_encode: "url_decode_loop oob q (url_encode s [] @ t) = map_option ((@) s) (url_decode_loop oob q t)"
  by (simp add: url_encode_eq url_decode_loop_url_encoded)

text \<open>Decoding what the percent encoder produced gives back the string, inside and outside of a
  query, whatever memory lies in front of the hexadecimal table.\<close>

lemma url_decode_url_encode:
  assumes "no_nul s"
  shows "url_decode oob (url_encode s []) dst in_query = (True, s)"
proof -
  have "url_decode_loop oob in_query (url_encode s []) = Some s"
    using url_decode_loop_encode [of oob in_query s "[]"] by simp
  then show ?thesis using assms no_nul_url_encode [OF assms] by (simp add: url_decode_def)
qed

text \<open>The result of decoding a percent sign followed by a byte above 127 is whatever the memory in
  front of the hexadecimal table makes of it: one content makes the string malformed and another
  one makes it decode.\<close>

lemma url_decode_reads_out_of_bounds:
  "url_decode (\<lambda>c. - 1) [CHR ''%'', CHR 0xE9, CHR ''0''] '''' True = (False, '''') \<and>
   url_decode (\<lambda>c. 4) [CHR ''%'', CHR 0xE9, CHR ''0''] '''' True = (True, ''@'')"
  by code_simp

section \<open>What parsing a query string gives\<close>

definition query_params :: "(char \<Rightarrow> int) \<Rightarrow> string \<Rightarrow> (string \<times> string) list" where
  "query_params oob q =
     map (\<lambda>field. case NameVal_parse (decode_field oob field) of (n, v, _) \<Rightarrow> (n, v))
       (split_by (\<lambda>c. c = CHR ''&'') (if head_is CHR ''?'' q then drop 1 q else q))"

abbreviation add_all :: "(string \<times> string) list \<Rightarrow> bool \<times> http_args \<Rightarrow> bool \<times> http_args" where
  "add_all ps \<equiv> fold (\<lambda>(n, v). args_add n v) ps"

lemma split_by_unfold:
  "split_by P s =
     takeWhile (\<lambda>c. \<not> P c) s #
     (let n = length (takeWhile (\<lambda>c. \<not> P c) s) in if n < length s then split_by P (drop (n + 1) s) else [])"
  by (induction s) (auto simp: Let_def)

lemma NameVal_ret: "NameVal_parse s = (n, v, r) \<Longrightarrow> r \<ge> 0"
  by (auto simp: NameVal_parse_def split: option.splits)

lemma args_parse_loop_eq:
  "args_parse_loop oob rest st =
     add_all (map (\<lambda>field. case NameVal_parse (decode_field oob field) of (n, v, _) \<Rightarrow> (n, v))
       (split_by (\<lambda>c. c = CHR ''&'') rest)) st"
proof (induction oob rest st rule: args_parse_loop.induct)
  case (1 oob rest st)
  let ?field = "takeWhile (\<lambda>c. c \<noteq> CHR ''&'') rest"
  obtain n v r where nv: "NameVal_parse (decode_field oob ?field) = (n, v, r)" by (cases "NameVal_parse (decode_field oob ?field)")
  have r: "r \<ge> 0" using NameVal_ret [OF nv] .
  show ?case
    using 1 [OF refl nv [symmetric] refl refl] nv r
    by (subst args_parse_loop.simps, subst split_by_unfold) (simp add: Let_def)
qed

lemma args_parse_eq: "args_parse oob a = snd (add_all (query_params oob (str a)) (False, a))"
  by (simp add: args_parse_def args_parse_loop_eq query_params_def)

text \<open>The three maps see the parameters independently of each other.\<close>

abbreviation is_sys :: "string \<Rightarrow> bool" where
  "is_sys n \<equiv> starts_with n RGW_SYS_PARAM_PREFIX"

lemma args_add_maps:
  "val_map (snd (args_add n v st)) = (if is_sys n then val_map (snd st) else smap_set n v (val_map (snd st)))"
  "sys_val_map (snd (args_add n v st)) = (if is_sys n then smap_set n v (sys_val_map (snd st)) else sys_val_map (snd st))"
  by (cases st; simp add: args_add_def Let_def)+

lemma val_map_add_all:
  "val_map (snd (add_all ps st)) = fold (\<lambda>(n, v). smap_set n v) (filter (\<lambda>(n, v). \<not> is_sys n) ps) (val_map (snd st))"
  by (induction ps arbitrary: st) (auto simp: args_add_maps)

lemma sys_val_map_add_all:
  "sys_val_map (snd (add_all ps st)) = fold (\<lambda>(n, v). smap_set n v) (filter (\<lambda>(n, v). is_sys n) ps) (sys_val_map (snd st))"
  by (induction ps arbitrary: st) (auto simp: args_add_maps)

lemma smap_get_fold:
  assumes "ordered_map plain m"
  shows "smap_get (fold (\<lambda>(n, v). smap_set n v) ps m) k =
    (case map_of (rev ps) k of None \<Rightarrow> smap_get m k | Some v \<Rightarrow> Some v)"
  using assms
proof (induction ps arbitrary: m)
  case (Cons p ps)
  obtain n v where p: "p = (n, v)" by force
  show ?case
    using Cons.IH [OF std_map.ok_upd [OF Cons.prems, of n v]] Cons.prems p
    by (auto simp: map_get_map_set map_add_def split: option.splits)
qed simp

lemma map_of_rev_filter:
  "map_of (rev (filter (\<lambda>(n, v). P n) ps)) k = (if P k then map_of (rev ps) k else None)"
  by (induction ps) (auto simp: map_add_def split: option.splits)

text \<open>C27: After parsing a query string, a parameter has the value of its last occurrence; the system
  parameters (prefix \<^verbatim>\<open>rgwx-\<close>) are hidden, whatever the query string says.\<close>

theorem args_parse_get:
  "smap_get (val_map (args_parse oob (args_set q a))) k =
     (if is_sys k then None else map_of (rev (query_params oob q)) k)"
  by (simp add: args_parse_eq val_map_add_all smap_get_fold args_set_def
      map_of_rev_filter [of "\<lambda>n. \<not> is_sys n"] split: option.splits)

lemma ordered_fold: "ordered_map plain m \<Longrightarrow> ordered_map plain (fold (\<lambda>(n, v). smap_set n v) ps m)"
  by (rule std_map.ok_fold_upd)

lemma smap_get_set_system:
  assumes "ordered_map plain (val_map a)" and "ordered_map plain (sys_val_map a)"
  shows "smap_get (val_map (set_system a)) k =
    (case smap_get (sys_val_map a) k of None \<Rightarrow> smap_get (val_map a) k | Some v \<Rightarrow> Some v)"
proof -
  have "map_of (rev m) k = smap_get m k" if "ordered_map plain m" for m :: "string string_map"
    using that
  proof (induction m)
    case (Cons p m)
    have "smap_get m (fst p) = None" using Cons.prems by (cases p) (auto simp: map_get_None)
    then show ?case using Cons by (cases p) (auto simp: map_add_def split: option.splits)
  qed simp
  then show ?thesis using assms by (simp add: set_system_def smap_get_fold)
qed

text \<open>Once the request is known to be a system request the system parameters become visible too,
  and every parameter of the query string has the value of its last occurrence.\<close>

lemma set_system_get:
  "smap_get (val_map (set_system (args_parse oob (args_set q new_args)))) k =
     map_of (rev (query_params oob q)) k"
proof -
  let ?a = "args_parse oob (args_set q new_args)"
  have "ordered_map plain (val_map ?a)" "ordered_map plain (sys_val_map ?a)"
    by (simp_all add: args_parse_eq val_map_add_all sys_val_map_add_all args_set_def new_args_def ordered_fold)
  then show ?thesis
    by (simp add: smap_get_set_system args_parse_eq val_map_add_all sys_val_map_add_all smap_get_fold
        args_set_def new_args_def map_of_rev_filter [of "\<lambda>n. \<not> is_sys n"] map_of_rev_filter [of is_sys]
        split: option.splits)
qed

text \<open>A second \<^verbatim>\<open>set\<close> does not forget the system parameters of the first query string:
  they are visible again after \<^verbatim>\<open>set_system\<close>, although the second string has none.\<close>

lemma set_keeps_system_params:
  "args_get (set_system (args_parse oob (args_set ''b=1'' (args_parse oob (args_set ''rgwx-uid=root'' new_args)))))
     ''rgwx-uid'' = (''root'', True)"
proof -
  let ?a = "args_parse oob (args_set ''rgwx-uid=root'' new_args)"
  have q: "query_params oob ''rgwx-uid=root'' = [(''rgwx-uid'', ''root'')]" "query_params oob ''b=1'' = [(''b'', ''1'')]"
    by (simp_all add: query_params_def head_is_def decode_field_def url_decode_def c_str_def NameVal_parse_def
        find_from_def)
  have sys: "is_sys ''rgwx-uid''" "\<not> is_sys ''b''" by (simp_all add: starts_with_def RGW_SYS_PARAM_PREFIX_def)
  let ?b = "args_parse oob (args_set ''b=1'' ?a)"
  have "sys_val_map ?b = [(''rgwx-uid'', ''root'')]" "val_map ?b = [(''b'', ''1'')]"
    by (simp_all add: args_parse_eq args_add_maps args_set_def q sys new_args_def)
  then show ?thesis by (simp add: args_get_def smap_get_set_system)
qed

section \<open>Sub-resources\<close>

definition plain_sub_resource :: "string \<Rightarrow> bool" where
  "plain_sub_resource n \<longleftrightarrow> n \<in> set s3_sub_resources \<or> n \<in> set resp_modifiers"

definition admin_sub_resource :: "string \<Rightarrow> bool" where
  "admin_sub_resource n \<longleftrightarrow> n \<in> set admin_sub_resources"

lemma sub_resource_kinds:
  "n \<in> set resp_modifiers \<Longrightarrow> head_is CHR ''r'' n" "n \<in> set admin_sub_resources \<Longrightarrow> \<not> head_is CHR ''r'' n"
  "n \<in> set admin_sub_resources \<Longrightarrow> \<not> plain_sub_resource n"
  by (auto simp: resp_modifiers_def admin_sub_resources_def head_is_def plain_sub_resource_def s3_sub_resources_def)

lemma args_add_sub:
  "fst (args_add n v st) = (fst st \<or> admin_sub_resource n)"
  "sub_resources (snd (args_add n v st)) =
     (if plain_sub_resource n then smap_set n v (sub_resources (snd st))
      else if admin_sub_resource n \<and> \<not> fst st then smap_set n '''' (sub_resources (snd st))
      else sub_resources (snd st))"
  using sub_resource_kinds [of n]
  by (cases st; auto simp: args_add_def Let_def plain_sub_resource_def admin_sub_resource_def)+

definition first_admin :: "(string \<times> string) list \<Rightarrow> string \<Rightarrow> bool" where
  "first_admin ps k \<longleftrightarrow> (case find (\<lambda>(n, v). admin_sub_resource n) ps of Some (n, v) \<Rightarrow> n = k | None \<Rightarrow> False)"

lemma sub_resources_add_all:
  assumes "ordered_map plain (sub_resources (snd st))"
  shows "smap_get (sub_resources (snd (add_all ps st))) k =
    (case if plain_sub_resource k then map_of (rev ps) k
          else if first_admin ps k \<and> \<not> fst st then Some '''' else None
     of None \<Rightarrow> smap_get (sub_resources (snd st)) k | Some v \<Rightarrow> Some v)"
  using assms
proof (induction ps arbitrary: st)
  case (Cons p ps)
  obtain n v where p: "p = (n, v)" by force
  have "ordered_map plain (sub_resources (snd (args_add n v st)))"
    using Cons.prems by (simp add: args_add_sub ordered_map_set)
  note IH = Cons.IH [OF this]
  have kinds: "admin_sub_resource n \<Longrightarrow> \<not> plain_sub_resource n"
    using sub_resource_kinds(3) by (simp add: admin_sub_resource_def)
  show ?case
    using IH Cons.prems p kinds
    by (auto simp: args_add_sub map_get_map_set first_admin_def map_add_def split: option.splits)
qed (simp add: first_admin_def)

text \<open>The sub-resources of a request, which go into the signed string, are exactly: the S3
  sub-resources and response overrides of the query string, each with its last value, and the first
  administrative one, with an empty value.\<close>

lemma args_parse_sub_resources:
  "smap_get (sub_resources (args_parse oob (args_set q a))) k =
     (if plain_sub_resource k then map_of (rev (query_params oob q)) k
      else if first_admin (query_params oob q) k then Some '''' else None)"
  by (simp add: args_parse_eq sub_resources_add_all args_set_def split: option.splits)

end
