(* ===== verification/Strtol.thy ===== *)
theory Strtol
  imports Rgw_Prelude
begin

text \<open>
  Strict number parsing, \<^verbatim>\<open>src/common/strtol.cc\<close>, at base 10, the base every caller
  passes.  \<open>strtoll10\<close> is the C library's \<^verbatim>\<open>strtoll\<close>: it returns the value, the text
  at \<^verbatim>\<open>endptr\<close> and whether \<^verbatim>\<open>errno\<close> became \<^verbatim>\<open>ERANGE\<close>.  The strict
  functions return the value and the text stored through \<^verbatim>\<open>err\<close>.
\<close>

section \<open>The code\<close>

abbreviation (input) LLONG_MAX :: int where "LLONG_MAX \<equiv> 9223372036854775807"
abbreviation (input) LLONG_MIN :: int where "LLONG_MIN \<equiv> - 9223372036854775808"
abbreviation (input) INT_MAX :: int where "INT_MAX \<equiv> 2147483647"
abbreviation (input) INT_MIN :: int where "INT_MIN \<equiv> - 2147483648"

definition strtoll_sign :: "string \<Rightarrow> bool \<times> string" where
  "strtoll_sign s =
     (case s of
        c # t \<Rightarrow> if c = CHR ''-'' then (True, t) else if c = CHR ''+'' then (False, t) else (False, s)
      | [] \<Rightarrow> (False, s))"

definition strtoll10 :: "string \<Rightarrow> int \<times> string \<times> bool" where
  "strtoll10 s =
     (let (neg, t) = strtoll_sign (dropWhile isspace s);
          ds = takeWhile isdigit t;
          v = (if neg then - int (dec_val ds) else int (dec_val ds))
      in if ds = [] then (0, s, False)
         else if v > LLONG_MAX then (LLONG_MAX, drop (length ds) t, True)
         else if v < LLONG_MIN then (LLONG_MIN, drop (length ds) t, True)
         else (v, drop (length ds) t, False))"

definition invalid_msg :: "string \<Rightarrow> string" where
  "invalid_msg str = ''The option value '' @ [CHR 0x27] @ str @ [CHR 0x27] @ '' seems to be invalid''"

definition not_integer_msg :: "string \<Rightarrow> string" where
  "not_integer_msg str = ''Expected option value to be integer, got '' @ [CHR 0x27] @ str @ [CHR 0x27]"

definition strict_strtoll :: "string \<Rightarrow> int \<times> string" where
  "strict_strtoll str =
     (let (ret, endptr, erange) = strtoll10 str in
      if (erange \<and> (ret = LLONG_MAX \<or> ret = LLONG_MIN)) \<or> (erange \<and> ret = 0) then (0, invalid_msg str)
      else if length endptr = length str then (0, not_integer_msg str)
      else if endptr \<noteq> [] then (0, invalid_msg str)
      else (ret, []))"

definition strict_strtol :: "string \<Rightarrow> int \<times> string" where
  "strict_strtol str =
     (let (ret, err) = strict_strtoll str in
      if err \<noteq> [] then (0, err)
      else if ret \<le> INT_MIN \<or> ret \<ge> INT_MAX then (0, invalid_msg str)
      else (ret, err))"

definition si_shift :: "char \<Rightarrow> int" where
  "si_shift u =
     (if u = CHR ''B'' then 0 else if u = CHR ''K'' then 10 else if u = CHR ''M'' then 20
      else if u = CHR ''G'' then 30 else if u = CHR ''T'' then 40 else if u = CHR ''P'' then 50
      else if u = CHR ''E'' then 60 else - 1)"

definition strict_sistrtoll :: "string \<Rightarrow> uint64 \<times> string" where
  "strict_sistrtoll str =
     (if str = [] then (0, ''strict_sistrtoll: value not specified'')
      else
        let m = si_shift (last str);
            s = (if m \<ge> 0 then butlast str else str);
            (r_ll, err) = strict_strtoll s
        in if r_ll < 0 then (0, ''strict_sistrtoll: value should not be negative'')
           else
             let r = word_of_int r_ll in
             if err = [] \<and> m > 0 then
               (if r > drop_bit (nat m) (-1) then (0, ''strict_sistrtoll: value seems to be too large'')
                else (push_bit (nat m) r, err))
             else (r, err))"

section \<open>Parsing of printed numbers\<close>

lemma digit_not_sign: "isdigit c \<Longrightarrow> c \<noteq> CHR ''-'' \<and> c \<noteq> CHR ''+'' \<and> \<not> isspace c"
  by (auto simp: isdigit_def isspace_def)

lemma dec_head: "dropWhile isspace (dec n @ s) = dec n @ s" "strtoll_sign (dec n @ s) = (False, dec n @ s)"
proof -
  obtain c t where ct: "dec n = c # t" by (cases "dec n") simp_all
  then have "isdigit c" using dec_digits [of n] by auto
  with digit_not_sign [OF this] ct
  show "dropWhile isspace (dec n @ s) = dec n @ s" "strtoll_sign (dec n @ s) = (False, dec n @ s)"
    by (simp_all add: strtoll_sign_def)
qed

lemma takeWhile_dec: "(\<And>c t. s = c # t \<Longrightarrow> \<not> isdigit c) \<Longrightarrow> takeWhile isdigit (dec n @ s) = dec n"
  using dec_digits [of n] by (cases s) (auto simp: takeWhile_append)

lemma strtoll10_dec:
  assumes "\<And>c t. s = c # t \<Longrightarrow> \<not> isdigit c"
  shows "strtoll10 (dec n @ s) =
    (if int n > LLONG_MAX then (LLONG_MAX, s, True) else (int n, s, False))"
  by (simp add: strtoll10_def dec_head takeWhile_dec [OF assms])

lemma strict_strtoll_dec:
  "strict_strtoll (dec n) = (if int n > LLONG_MAX then (0, invalid_msg (dec n)) else (int n, []))"
  using strtoll10_dec [of "[]" n] by (simp add: strict_strtoll_def)

text \<open>The strict integer parser accepts a printed natural number exactly when it is below
  \<^verbatim>\<open>INT_MAX\<close>, and returns that number; every other one is reported as invalid.  The
  representable value \<^verbatim>\<open>INT_MAX\<close> itself is rejected.\<close>

lemma strict_strtol_dec:
  "strict_strtol (dec n) = (if int n < INT_MAX then (int n, []) else (0, invalid_msg (dec n)))"
  by (simp add: strict_strtol_def strict_strtoll_dec invalid_msg_def)

lemma unat_drop_bit_minus_1: "unat (drop_bit m (-1 :: uint64)) = (2 ^ 64 - 1) div 2 ^ m"
  unfolding unat_drop_bit_eq unat_minus_one64 by (rule drop_bit_eq_div)

lemma push_bit_no_wrap:
  assumes "n * 2 ^ m < 2 ^ 64"
  shows "unat (push_bit m (word_of_nat n :: uint64)) = n * 2 ^ m"
proof -
  have "push_bit m (word_of_nat n :: uint64) = word_of_nat (n * 2 ^ m)"
    by (simp add: push_bit_eq_mult)
  then show ?thesis using assms by (simp only: unat_word_of_nat64)
qed

lemma shift_guard:
  assumes "n < 2 ^ 64"
  shows "(word_of_nat n :: uint64) > drop_bit m (-1) \<longleftrightarrow> \<not> n * 2 ^ m < 2 ^ 64"
proof -
  have "(word_of_nat n :: uint64) > drop_bit m (-1) \<longleftrightarrow> (2 ^ 64 - 1) div 2 ^ m < n"
    using assms
    by (simp only: word_less_nat_alt unat_drop_bit_minus_1 unat_word_of_nat64)
  also have "\<dots> \<longleftrightarrow> 2 ^ 64 - 1 < n * 2 ^ m"
    by (simp add: div_less_iff_less_mult del: power_numeral)
  finally show ?thesis by auto
qed

text \<open>A number with a size suffix is accepted exactly when it fits in a signed 64-bit integer and
  the scaled value fits in an unsigned one; the result is then the exact product, so the shift never
  wraps around.  Otherwise the value is 0 and an error text is stored.\<close>

lemma strict_sistrtoll_no_wrap:
  assumes "u \<in> set ''BKMGTPE''"
  shows "if int n \<le> LLONG_MAX \<and> n * 2 ^ nat (si_shift u) < 2 ^ 64
    then unat (fst (strict_sistrtoll (dec n @ [u]))) = n * 2 ^ nat (si_shift u) \<and>
         snd (strict_sistrtoll (dec n @ [u])) = []
    else fst (strict_sistrtoll (dec n @ [u])) = 0 \<and> snd (strict_sistrtoll (dec n @ [u])) \<noteq> []"
proof (cases "int n \<le> LLONG_MAX")
  case True
  define m where "m = nat (si_shift u)"
  have m: "si_shift u \<ge> 0" "si_shift u = int m"
    using assms by (auto simp: si_shift_def m_def)
  have n: "n < 2 ^ 64" "word_of_int (int n) = (word_of_nat n :: uint64)" using True by simp_all
  have "strict_sistrtoll (dec n @ [u]) =
    (if m > 0 then if \<not> n * 2 ^ m < 2 ^ 64 then (0, ''strict_sistrtoll: value seems to be too large'')
       else (push_bit m (word_of_nat n), []) else (word_of_nat n, []))"
    using True m
    by (simp add: strict_sistrtoll_def strict_strtoll_dec shift_guard [OF n(1)] Let_def del: drop_bit_of_minus_1_eq)
  then show ?thesis
    using True n(1) push_bit_no_wrap [of n m] by (simp add: m_def [symmetric] unat_word_of_nat64)
next
  case False
  then show ?thesis
    using assms by (auto simp: strict_sistrtoll_def strict_strtoll_dec si_shift_def invalid_msg_def)
qed

end
