(* ===== verification/Req_Info.thy ===== *)
theory Req_Info
  imports Http_Args Strtol
begin

text \<open>
  The request's environment and what is computed from it: \<^verbatim>\<open>RGWEnv\<close> and
  \<^verbatim>\<open>RGWConf\<close> (\<^verbatim>\<open>src/rgw/porting_env.cc\<close>), \<^verbatim>\<open>req_info\<close>, the
  amz metadata headers, \<^verbatim>\<open>rgw_err\<close> and the string helpers of
  \<^verbatim>\<open>src/rgw/porting_common.cc\<close> and \<^verbatim>\<open>porting_common.h\<close>.
\<close>

section \<open>RGWConf and RGWEnv\<close>

record rgw_conf =
  enable_ops_log :: bool
  enable_usage_log :: bool
  defer_to_bucket_acls :: nat

definition RGW_DEFER_TO_BUCKET_ACLS_RECURSE :: nat where
  "RGW_DEFER_TO_BUCKET_ACLS_RECURSE = 1"

definition RGW_DEFER_TO_BUCKET_ACLS_FULL_CONTROL :: nat where
  "RGW_DEFER_TO_BUCKET_ACLS_FULL_CONTROL = 2"

definition new_conf :: rgw_conf where
  "new_conf = \<lparr>enable_ops_log = True, enable_usage_log = True, defer_to_bucket_acls = 0\<rparr>"

text \<open>\<^verbatim>\<open>RGWConf::init\<close>; the tests of the configuration between the two assignments are
  commented out.\<close>

definition conf_init :: "rgw_conf \<Rightarrow> rgw_conf" where
  "conf_init c =
     (let c0 = c\<lparr>defer_to_bucket_acls := 0\<rparr>
      in c0\<lparr>defer_to_bucket_acls := RGW_DEFER_TO_BUCKET_ACLS_FULL_CONTROL\<rparr>)"

record rgw_env =
  env_map :: "string string_map"
  conf :: rgw_conf

definition new_env :: rgw_env where
  "new_env = \<lparr>env_map = [], conf = new_conf\<rparr>"

definition env_set :: "string \<Rightarrow> string option \<Rightarrow> rgw_env \<Rightarrow> rgw_env" where
  "env_set name val e =
     e\<lparr>env_map := map_set nocase name (case val of None \<Rightarrow> '''' | Some v \<Rightarrow> v) (env_map e)\<rparr>"

definition env_add :: "string \<Rightarrow> string string_map \<Rightarrow> string string_map" where
  "env_add p m =
     (case find_from (\<lambda>c. c = CHR ''='') p 0 of
        None \<Rightarrow> m
      | Some pos \<Rightarrow> if pos = 0 then m else map_set nocase (take pos p) (drop (pos + 1) p) m)"

definition env_init :: "string list \<Rightarrow> rgw_env \<Rightarrow> rgw_env" where
  "env_init envp e =
     (let e1 = e\<lparr>env_map := fold env_add envp []\<rparr> in e1\<lparr>conf := conf_init (conf e1)\<rparr>)"

definition env_get :: "rgw_env \<Rightarrow> string \<Rightarrow> string option \<Rightarrow> string option" where
  "env_get e name def_val =
     (case map_get nocase (env_map e) name of None \<Rightarrow> def_val | Some v \<Rightarrow> Some (c_str v))"

text \<open>\<^verbatim>\<open>atoi\<close>: the C library converts as \<^verbatim>\<open>strtol\<close> and narrows to 32 bits.\<close>

definition atoi :: "string \<Rightarrow> int" where
  "atoi s = signed_take_bit 31 (fst (strtoll10 s))"

definition atoll :: "string \<Rightarrow> int" where
  "atoll s = fst (strtoll10 s)"

definition env_get_int :: "rgw_env \<Rightarrow> string \<Rightarrow> int \<Rightarrow> int" where
  "env_get_int e name def_val =
     (case map_get nocase (env_map e) name of None \<Rightarrow> def_val | Some v \<Rightarrow> atoi (c_str v))"

definition rgw_str_to_bool :: "string option \<Rightarrow> bool \<Rightarrow> bool" where
  "rgw_str_to_bool s def_val =
     (case s of None \<Rightarrow> def_val
      | Some s \<Rightarrow> strcaseeq s ''on'' \<or> strcaseeq s ''yes'' \<or> strcaseeq s ''1'')"

definition env_get_bool :: "rgw_env \<Rightarrow> string \<Rightarrow> bool \<Rightarrow> bool" where
  "env_get_bool e name def_val =
     (case map_get nocase (env_map e) name of None \<Rightarrow> def_val | Some v \<Rightarrow> rgw_str_to_bool (Some v) def_val)"

definition env_get_size :: "rgw_env \<Rightarrow> string \<Rightarrow> uint64 \<Rightarrow> uint64" where
  "env_get_size e name def_val =
     (case map_get nocase (env_map e) name of None \<Rightarrow> def_val | Some v \<Rightarrow> word_of_int (atoll (c_str v)))"

definition env_exists :: "rgw_env \<Rightarrow> string \<Rightarrow> bool" where
  "env_exists e name \<longleftrightarrow> map_get nocase (env_map e) name \<noteq> None"

text \<open>\<^verbatim>\<open>lower_bound\<close> is case-insensitive, the comparison of the prefix is not.\<close>

definition env_exists_prefix :: "rgw_env \<Rightarrow> string \<Rightarrow> bool" where
  "env_exists_prefix e prefix \<longleftrightarrow>
     (case dropWhile (\<lambda>(k, v). nocase k < nocase prefix) (env_map e) of
        [] \<Rightarrow> False
      | (k, v) # _ \<Rightarrow> starts_with (c_str k) (c_str prefix))"

definition env_remove :: "string \<Rightarrow> rgw_env \<Rightarrow> rgw_env" where
  "env_remove name e = e\<lparr>env_map := map_del nocase name (env_map e)\<rparr>"

section \<open>req_info\<close>

record req_info =
  args :: http_args
  x_meta_map :: "string string_map"
  host :: string
  req_method :: string
  script_uri :: string
  request_uri :: string
  effective_uri :: string
  request_params :: string
  domain :: string

definition strip_port :: "string \<Rightarrow> string" where
  "strip_port h =
     (case find_last (\<lambda>c. c = CHR '':'') h of
        None \<Rightarrow> h
      | Some colon_offset \<Rightarrow>
          if list_all isdigit (drop (colon_offset + 1) h) then take colon_offset h else h)"

definition req_info_init :: "rgw_env \<Rightarrow> req_info" where
  "req_info_init env =
     (let uri = the (env_get env ''REQUEST_URI'' (Some ''test REQUEST_URI''));
          (path, params) =
            (case find_from (\<lambda>c. c = CHR ''?'') uri 0 of
               Some pos \<Rightarrow> (take pos uri, drop (pos + 1) uri)
             | None \<Rightarrow> (uri, the (env_get env ''QUERY_STRING'' (Some ''''))))
      in \<lparr>args = new_args, x_meta_map = [],
          host = strip_port (the (env_get env ''HTTP_HOST'' (Some ''''))),
          req_method = the (env_get env ''REQUEST_METHOD'' (Some '''')),
          script_uri = the (env_get env ''SCRIPT_URI'' (Some ''testSCRIPT_URI'')),
          request_uri = path, effective_uri = '''', request_params = params, domain = ''''\<rparr>)"

definition rebuild_from :: "req_info \<Rightarrow> req_info \<Rightarrow> req_info" where
  "rebuild_from src i =
     i\<lparr>req_method := req_method src, script_uri := script_uri src,
       request_uri := (if effective_uri src = [] then request_uri src else effective_uri src),
       effective_uri := [], host := host src,
       x_meta_map := smap_del ''x-amz-date'' (x_meta_map src)\<rparr>"

section \<open>Metadata headers\<close>

definition meta_prefixes :: "string list" where
  "meta_prefixes =
     [''HTTP_X_AMZ'', ''HTTP_X_GOOG'', ''HTTP_X_DHO'', ''HTTP_X_RGW'', ''HTTP_X_OBJECT'',
      ''HTTP_X_CONTAINER'', ''HTTP_X_ACCOUNT'']"

definition name_low :: "string \<Rightarrow> string" where
  "name_low name = map (\<lambda>c. if c \<noteq> CHR ''_'' then tolower c else CHR ''-'') (''X_AMZ'' @ name)"

definition meta_append :: "string \<Rightarrow> string \<Rightarrow> string" where
  "meta_append old val =
     (case find_last (\<lambda>c. c \<noteq> CHR '' '' \<and> c \<noteq> TAB) old of
        None \<Rightarrow> []
      | Some pos \<Rightarrow> take (pos + 1) old) @ '','' @ val"

text \<open>The inner loop: one header against one prefix; the flag is \<^verbatim>\<open>*found_bad_meta\<close>.\<close>

definition meta_step :: "string \<Rightarrow> string \<Rightarrow> string \<Rightarrow> bool \<times> string string_map \<Rightarrow> bool \<times> string string_map" where
  "meta_step header_name val prefix = (\<lambda>(bad, m).
     let p = c_str header_name in
     if starts_with p prefix then
       let name = drop (length prefix) p;
           low = name_low name
       in (bad \<or> starts_with ''_META_'' name,
           case smap_get m low of
             Some old \<Rightarrow> smap_set low (meta_append old val) m
           | None \<Rightarrow> smap_set low val m)
     else (bad, m))"

definition init_meta_info :: "rgw_env \<Rightarrow> bool \<Rightarrow> req_info \<Rightarrow> bool \<times> req_info" where
  "init_meta_info env found_bad_meta i =
     (let (bad, m) =
        fold (\<lambda>(header_name, val). fold (meta_step header_name val) meta_prefixes) (env_map env) (found_bad_meta, [])
      in (bad, i\<lparr>x_meta_map := m\<rparr>))"

section \<open>The environment is a case-insensitive dictionary\<close>

lemma nocase_eq_iff: "nocase s = nocase t \<longleftrightarrow> strcaseeq s t"
  by (simp add: nocase_def strcaseeq_def)

definition env_binding :: "string \<Rightarrow> (string \<times> string) list" where
  "env_binding p =
     (case find_from (\<lambda>c. c = CHR ''='') p 0 of
        None \<Rightarrow> []
      | Some pos \<Rightarrow> if pos = 0 then [] else [(take pos p, drop (pos + 1) p)])"

lemma fold_env_add:
  "fold env_add envp m = fold (\<lambda>(k, v). map_set nocase k v) (concat (map env_binding envp)) m"
  by (induction envp arbitrary: m) (auto simp: env_add_def env_binding_def split: option.splits)

text \<open>C28: A lookup in the environment built from a list of \<^verbatim>\<open>NAME=value\<close> strings gives the value
  of the last one whose name equals the key up to case; a string without a name is ignored.\<close>

theorem env_get_env_init:
  "env_get (env_init envp e) name def_val =
     (case filter (\<lambda>(k, v). strcaseeq name k) (concat (map env_binding envp)) of
        [] \<Rightarrow> def_val
      | bs \<Rightarrow> Some (c_str (snd (last bs))))"
proof -
  have "map_get nocase (env_map (env_init envp e)) name =
    (case filter (\<lambda>(k, v). nocase name = nocase k) (concat (map env_binding envp)) of
       [] \<Rightarrow> map_get nocase [] name | bs \<Rightarrow> Some (snd (last bs)))"
    by (simp add: env_init_def fold_env_add std_map.get_fold_upd Let_def del: map_get_simps)
  then show ?thesis by (simp add: env_get_def nocase_eq_iff split: list.splits)
qed

lemma env_exists_remove:
  "env_exists (env_remove n e) n' \<longleftrightarrow> env_exists e n' \<and> \<not> strcaseeq n' n"
  by (simp add: env_exists_def env_remove_def map_get_map_del nocase_eq_iff)

section \<open>The metadata headers\<close>

definition meta_pairs :: "string string_map \<Rightarrow> (string \<times> string) list" where
  "meta_pairs m =
     concat (map (\<lambda>(h, v). map (\<lambda>p. (name_low (drop (length p) (c_str h)), v)) (filter (starts_with (c_str h)) meta_prefixes)) m)"

fun meta_join :: "string list \<Rightarrow> string option" where
  "meta_join [] = None"
| "meta_join (v # vs) = Some (foldl meta_append v vs)"

definition meta_put :: "string \<times> string \<Rightarrow> string string_map \<Rightarrow> string string_map" where
  "meta_put p m =
     (case smap_get m (fst p) of
        Some old \<Rightarrow> smap_set (fst p) (meta_append old (snd p)) m
      | None \<Rightarrow> smap_set (fst p) (snd p) m)"

lemma meta_step_snd:
  "snd (fold (meta_step h v) ps st) =
     fold meta_put (map (\<lambda>p. (name_low (drop (length p) (c_str h)), v)) (filter (starts_with (c_str h)) ps)) (snd st)"
  by (induction ps arbitrary: st)
    (auto simp: meta_step_def meta_put_def Let_def split: option.splits)

lemma init_meta_snd:
  "snd (fold (\<lambda>(h, v). fold (meta_step h v) meta_prefixes) m st) = fold meta_put (meta_pairs m) (snd st)"
  by (induction m arbitrary: st) (auto simp: meta_pairs_def meta_step_snd)

lemma ordered_meta_put: "ordered_map plain m \<Longrightarrow> ordered_map plain (meta_put p m)"
  by (simp add: meta_put_def ordered_map_set split: option.splits)

lemma smap_get_fold_meta_put:
  assumes "ordered_map plain m"
  shows "smap_get (fold meta_put ps m) k =
    (let vs = map snd (filter (\<lambda>p. fst p = k) ps) in
     case smap_get m k of None \<Rightarrow> meta_join vs | Some old \<Rightarrow> Some (foldl meta_append old vs))"
  using assms
proof (induction ps arbitrary: m)
  case (Cons p ps)
  show ?case
    using Cons.IH [OF ordered_meta_put [OF Cons.prems]] Cons.prems
    by (auto simp: meta_put_def map_get_map_set Let_def split: option.splits)
qed (simp split: option.splits)

lemma x_meta_map_init:
  "smap_get (x_meta_map (snd (init_meta_info env bad i))) k =
     meta_join (map snd (filter (\<lambda>p. fst p = k) (meta_pairs (env_map env))))"
proof -
  have "x_meta_map (snd (init_meta_info env bad i)) = fold meta_put (meta_pairs (env_map env)) []"
    using init_meta_snd [of "env_map env" "(bad, [])"]
    by (auto simp: init_meta_info_def split: prod.splits)
  then show ?thesis by (simp add: smap_get_fold_meta_put Let_def)
qed


lemma tolower_not_upper: "\<not> isupper (tolower c)"
proof -
  have "byte (char_of (byte c + 32)) = byte c + 32" if "isupper c"
    using that by (intro byte_char_of) (simp add: isupper_def)
  then show ?thesis by (auto simp: tolower_def isupper_def)
qed

lemma name_low_canonical:
  "starts_with (name_low name) ''x-amz''" "c \<in> set (name_low name) \<Longrightarrow> \<not> isupper c \<and> c \<noteq> CHR ''_''"
proof -
  have "map (\<lambda>c. if c \<noteq> CHR ''_'' then tolower c else CHR ''-'') ''X_AMZ'' = ''x-amz''" by code_simp
  then show "starts_with (name_low name) ''x-amz''"
    by (simp add: name_low_def starts_with_def)
  have "tolower d \<noteq> CHR ''_''" if "d \<noteq> CHR ''_''" for d
  proof
    assume t: "tolower d = CHR ''_''"
    then have "isupper d" using that by (auto simp: tolower_def split: if_splits)
    then have "byte (tolower d) = byte d + 32" "97 \<le> byte d + 32"
      by (auto simp: tolower_def isupper_def byte_char_of)
    then show False using t by simp
  qed
  moreover have "\<not> isupper (CHR ''-'')" by (simp add: isupper_def)
  ultimately show "\<not> isupper c \<and> c \<noteq> CHR ''_''" if "c \<in> set (name_low name)"
    using that tolower_not_upper by (auto simp: name_low_def split: if_splits)
qed

text \<open>Every name in the metadata map is canonical: it begins with \<^verbatim>\<open>x-amz\<close> and has neither
  upper-case letters nor underscores, whichever of the accepted prefixes the header had.\<close>

lemma init_meta_info_canonical:
  assumes "smap_get (x_meta_map (snd (init_meta_info env bad i))) k = Some v"
  shows "starts_with k ''x-amz'' \<and> (\<forall>c \<in> set k. \<not> isupper c \<and> c \<noteq> CHR ''_'')"
proof -
  have "filter (\<lambda>p. fst p = k) (meta_pairs (env_map env)) \<noteq> []"
    using assms by (auto simp: x_meta_map_init)
  then obtain name where "k = name_low name"
    by (auto simp: filter_empty_conv meta_pairs_def)
  then show ?thesis using name_low_canonical by blast
qed

end
