(* ===== verification/Encoding.thy ===== *)
theory Encoding
  imports Std_Map
begin

text \<open>
  The wire format, \<^verbatim>\<open>src/include/encoding.h\<close>.  An encoder is a function to bytes; encoding to
  a bufferlist appends them.  A decoder takes the bytes from the iterator on and returns the value with
  the bytes left, or \<open>None\<close> when the code throws \<^verbatim>\<open>buffer::error\<close>.  Decoders of
  structs overwrite an existing object, which is their argument.  The locale \<open>codec\<close> is the
  round-trip contract; its lemmas lift it to the containers.
\<close>

type_synonym 'a decoder = "string \<Rightarrow> ('a \<times> string) option"

definition ret_dec :: "'a \<Rightarrow> 'a decoder" where
  "ret_dec x bl = Some (x, bl)"

definition bind_dec :: "'a decoder \<Rightarrow> ('a \<Rightarrow> 'b decoder) \<Rightarrow> 'b decoder" where
  "bind_dec d f bl = (case d bl of None \<Rightarrow> None | Some (x, bl') \<Rightarrow> f x bl')"

definition when_dec :: "bool \<Rightarrow> 'a decoder \<Rightarrow> 'a \<Rightarrow> 'a decoder" where
  "when_dec b d old = (if b then d else ret_dec old)"

lemma bind_dec_Some [simp, codec_simps]: "d bl = Some (x, bl') \<Longrightarrow> bind_dec d f bl = f x bl'"
  by (simp add: bind_dec_def)

lemma ret_dec_eq [simp, codec_simps]: "ret_dec x bl = Some (x, bl)"
  by (simp add: ret_dec_def)

lemma when_dec_simps [simp, codec_simps]: "when_dec True d old = d" "when_dec False d old = ret_dec old"
  by (simp_all add: when_dec_def)

section \<open>Integers and strings\<close>

text \<open>Little-endian integers of \<open>k\<close> bytes (\<^verbatim>\<open>encode_raw\<close> of the \<^verbatim>\<open>ceph_le\<close> types).\<close>

fun enc_le :: "nat \<Rightarrow> nat \<Rightarrow> string" where
  "enc_le 0 n = []"
| "enc_le (Suc k) n = char_of (n mod 256) # enc_le k (n div 256)"

fun dec_le :: "nat \<Rightarrow> nat decoder" where
  "dec_le 0 bl = Some (0, bl)"
| "dec_le (Suc k) [] = None"
| "dec_le (Suc k) (c # bl) = (case dec_le k bl of None \<Rightarrow> None | Some (n, bl') \<Rightarrow> Some (byte c + 256 * n, bl'))"

definition enc_u8 :: "nat \<Rightarrow> string" where
  "enc_u8 n = enc_le 1 n"

definition dec_u8 :: "nat decoder" where
  "dec_u8 = dec_le 1"

definition enc_bool :: "bool \<Rightarrow> string" where
  "enc_bool v = enc_u8 (of_bool v)"

definition dec_bool :: "bool decoder" where
  "dec_bool = bind_dec dec_u8 (\<lambda>vv. ret_dec (vv \<noteq> 0))"

definition enc_u32 :: "32 word \<Rightarrow> string" where
  "enc_u32 v = enc_le 4 (unat v)"

definition dec_u32 :: "32 word decoder" where
  "dec_u32 = bind_dec (dec_le 4) (\<lambda>n. ret_dec (word_of_nat n))"

definition enc_u64 :: "uint64 \<Rightarrow> string" where
  "enc_u64 v = enc_le 8 (unat v)"

definition dec_u64 :: "uint64 decoder" where
  "dec_u64 = bind_dec (dec_le 8) (\<lambda>n. ret_dec (word_of_nat n))"

text \<open>\<^verbatim>\<open>bufferlist::iterator::copy\<close>: it throws at the end of the buffer.\<close>

definition copy_bytes :: "nat \<Rightarrow> string decoder" where
  "copy_bytes n bl = (if n \<le> length bl then Some (take n bl, drop n bl) else None)"

definition enc_string :: "string \<Rightarrow> string" where
  "enc_string s = (let len = (word_of_nat (length s) :: 32 word) in enc_u32 len @ take (unat len) s)"

definition dec_string :: "string decoder" where
  "dec_string = bind_dec dec_u32 (\<lambda>len. copy_bytes (unat len))"

section \<open>Containers\<close>

definition enc_count :: "'a list \<Rightarrow> string" where
  "enc_count xs = enc_u32 (word_of_nat (length xs))"

definition enc_list :: "('a \<Rightarrow> string) \<Rightarrow> 'a list \<Rightarrow> string" where
  "enc_list enc xs = enc_count xs @ concat (map enc xs)"

fun dec_items :: "'a decoder \<Rightarrow> nat \<Rightarrow> 'a list decoder" where
  "dec_items d 0 = ret_dec []"
| "dec_items d (Suc n) = bind_dec d (\<lambda>v. bind_dec (dec_items d n) (\<lambda>vs. ret_dec (v # vs)))"

definition dec_list :: "'a decoder \<Rightarrow> 'a list decoder" where
  "dec_list d = bind_dec dec_u32 (\<lambda>n. dec_items d (unat n))"

definition enc_pair :: "('a \<Rightarrow> string) \<Rightarrow> ('b \<Rightarrow> string) \<Rightarrow> 'a \<times> 'b \<Rightarrow> string" where
  "enc_pair ea eb p = ea (fst p) @ eb (snd p)"

definition enc_map :: "('k \<Rightarrow> string) \<Rightarrow> ('v \<Rightarrow> string) \<Rightarrow> ('k \<times> 'v) list \<Rightarrow> string" where
  "enc_map ek ev m = enc_count m @ concat (map (enc_pair ek ev) m)"

text \<open>\<^verbatim>\<open>decode(m[k], p)\<close> decodes onto the value under the key, a new one when there is none.\<close>

fun dec_map_items :: "'k decoder \<Rightarrow> ('v \<Rightarrow> 'v decoder) \<Rightarrow> 'v \<Rightarrow> nat \<Rightarrow> ('k :: linorder \<times> 'v) list \<Rightarrow> ('k \<times> 'v) list decoder" where
  "dec_map_items dk dv new 0 m = ret_dec m"
| "dec_map_items dk dv new (Suc n) m =
     bind_dec dk (\<lambda>k.
       bind_dec (dv (case map_get plain m k of Some v \<Rightarrow> v | None \<Rightarrow> new)) (\<lambda>v.
         dec_map_items dk dv new n (map_set plain k v m)))"

definition dec_map :: "'k decoder \<Rightarrow> ('v \<Rightarrow> 'v decoder) \<Rightarrow> 'v \<Rightarrow> ('k :: linorder \<times> 'v) list decoder" where
  "dec_map dk dv new = bind_dec dec_u32 (\<lambda>n. dec_map_items dk dv new (unat n) [])"

fun dec_multimap_items :: "'k decoder \<Rightarrow> ('v \<Rightarrow> 'v decoder) \<Rightarrow> 'v \<Rightarrow> nat \<Rightarrow> ('k :: linorder \<times> 'v) list \<Rightarrow> ('k \<times> 'v) list decoder" where
  "dec_multimap_items dk dv new 0 m = ret_dec m"
| "dec_multimap_items dk dv new (Suc n) m =
     bind_dec dk (\<lambda>k. bind_dec (dv new) (\<lambda>v. dec_multimap_items dk dv new n (multimap_insert plain k v m)))"

definition dec_multimap :: "'k decoder \<Rightarrow> ('v \<Rightarrow> 'v decoder) \<Rightarrow> 'v \<Rightarrow> ('k :: linorder \<times> 'v) list decoder" where
  "dec_multimap dk dv new = bind_dec dec_u32 (\<lambda>n. dec_multimap_items dk dv new (unat n) [])"

section \<open>Versioned structs\<close>

definition encode_struct :: "nat \<Rightarrow> nat \<Rightarrow> string \<Rightarrow> string" where
  "encode_struct v cv payload =
     enc_u8 v @ enc_u8 cv @ enc_u32 (word_of_nat (length payload)) @ payload"

text \<open>\<^verbatim>\<open>DECODE_FINISH\<close>: \<open>left\<close> bytes must remain after the struct; a body that read further
  throws, one that stopped early skips the rest.\<close>

definition decode_finish :: "nat \<Rightarrow> 'a decoder \<Rightarrow> 'a decoder" where
  "decode_finish left body bl =
     (case body bl of
        None \<Rightarrow> None
      | Some (x, bl') \<Rightarrow> if length bl' < left then None else Some (x, drop (length bl' - left) bl'))"

definition decode_len :: "'a decoder \<Rightarrow> 'a decoder" where
  "decode_len body =
     bind_dec dec_u32 (\<lambda>struct_len bl.
       if unat struct_len > length bl then None else decode_finish (length bl - unat struct_len) body bl)"

definition decode_struct :: "nat \<Rightarrow> (nat \<Rightarrow> 'a decoder) \<Rightarrow> 'a decoder" where
  "decode_struct v body =
     bind_dec dec_u8 (\<lambda>struct_v.
       bind_dec dec_u8 (\<lambda>struct_compat bl.
         if v < struct_compat then None else decode_len (body struct_v) bl))"

definition decode_struct_legacy :: "nat \<Rightarrow> nat \<Rightarrow> nat \<Rightarrow> nat \<Rightarrow> (nat \<Rightarrow> 'a decoder) \<Rightarrow> 'a decoder" where
  "decode_struct_legacy v compatv lenv skip_v body =
     bind_dec dec_u8 (\<lambda>struct_v.
       bind_dec
         (if struct_v \<ge> compatv then
            bind_dec dec_u8 (\<lambda>struct_compat bl. if v < struct_compat then None else Some ((), bl))
          else (\<lambda>bl. if length bl < skip_v then None else Some ((), drop skip_v bl)))
         (\<lambda>_. if struct_v \<ge> lenv then decode_len (body struct_v) else body struct_v))"

section \<open>The round-trip contract\<close>

abbreviation (input) size_limit :: nat where
  "size_limit \<equiv> 2 ^ 32"

locale codec =
  fixes enc :: "'a \<Rightarrow> string"
    and dcd :: "'a decoder"
    and ok :: "'a \<Rightarrow> bool"
  assumes roundtrip: "ok x \<Longrightarrow> length (enc x) < size_limit \<Longrightarrow> dcd (enc x @ bl) = Some (x, bl)"
    and not_empty: "enc x \<noteq> []"
begin

text \<open>Encodings can be told apart in a stream.\<close>

lemma unique:
  assumes "ok x" "length (enc x) < size_limit" "ok y" "length (enc y) < size_limit"
    and "enc x @ bl = enc y @ bl'"
  shows "x = y" "bl = bl'"
proof -
  have "Some (x, bl) = Some (y, bl')"
    using roundtrip [OF assms(1,2), of bl] roundtrip [OF assms(3,4), of bl'] unfolding assms(5) by (rule trans [OF sym])
  then show "x = y" "bl = bl'" by simp_all
qed

lemma items_roundtrip:
  assumes "\<forall>x \<in> set xs. ok x" and "length (concat (map enc xs)) < size_limit"
  shows "dec_items dcd (length xs) (concat (map enc xs) @ bl) = Some (xs, bl)"
  using assms
proof (induction xs)
  case (Cons x xs)
  then show ?case using roundtrip [of x "concat (map enc xs) @ bl"] by simp
qed simp

lemma length_items: "length xs \<le> length (concat (map enc xs))"
proof (induction xs)
  case (Cons x xs)
  have "0 < length (enc x)" using not_empty [of x] by (rule length_greater_0_conv [THEN iffD2])
  then have "Suc (length xs) \<le> length (enc x) + length (concat (map enc xs))" using Cons by linarith
  then show ?case by simp
qed simp

end

lemma dec_le_enc_le: "n < 256 ^ k \<Longrightarrow> dec_le k (enc_le k n @ bl) = Some (n, bl)"
proof (induction k arbitrary: n)
  case (Suc k)
  from Suc.prems have "n < 256 ^ k * 256" by (simp only: power_Suc mult.commute)
  then have "n div 256 < 256 ^ k" by (rule less_mult_imp_div_less)
  moreover have "byte (char_of (n mod 256)) = n mod 256" by (rule byte_char_of) simp
  moreover have "n mod 256 + 256 * (n div 256) = n" by (rule mod_mult_div_eq)
  ultimately show ?case
    using Suc.IH [of "n div 256"] by (simp only: enc_le.simps dec_le.simps append_Cons option.case prod.case)
qed simp

lemma length_enc_le [simp]: "length (enc_le k n) = k"
  by (induction k arbitrary: n) simp_all

lemma enc_ints_length [simp]:
  "length (enc_u8 n) = 1" "length (enc_bool b) = 1" "length (enc_u32 w) = 4" "length (enc_u64 v) = 8"
  "length (enc_count xs) = 4"
  by (simp_all add: enc_u8_def enc_bool_def enc_u32_def enc_u64_def enc_count_def)

lemma dec_u8_enc [simp, codec_simps]: "n < 256 \<Longrightarrow> dec_u8 (enc_u8 n @ bl) = Some (n, bl)"
  using dec_le_enc_le [of n 1 bl] by (simp only: dec_u8_def enc_u8_def power_one_right)

lemma dec_bool_enc [simp, codec_simps]: "dec_bool (enc_bool b @ bl) = Some (b, bl)"
  by (simp add: dec_bool_def enc_bool_def)

lemma dec_u32_enc [simp, codec_simps]: "dec_u32 (enc_u32 w @ bl) = Some (w, bl)"
proof -
  have "unat w < 256 ^ 4" using unsigned_less [of w] by simp
  from dec_le_enc_le [OF this] show ?thesis by (simp add: dec_u32_def enc_u32_def)
qed

lemma dec_u64_enc [simp, codec_simps]: "dec_u64 (enc_u64 w @ bl) = Some (w, bl)"
proof -
  have "unat w < 256 ^ 8" using unsigned_less [of w] by simp
  from dec_le_enc_le [OF this] show ?thesis by (simp add: dec_u64_def enc_u64_def)
qed

lemma unat_word_of_nat32: "n < 2 ^ 32 \<Longrightarrow> unat (word_of_nat n :: 32 word) = n"
  by (simp add: unat_of_nat)

lemma dec_string_enc [simp, codec_simps]:
  "length s < size_limit \<Longrightarrow> dec_string (enc_string s @ bl) = Some (s, bl)"
  by (simp add: dec_string_def enc_string_def copy_bytes_def Let_def unat_of_nat)

lemma length_enc_string: "length s < size_limit \<Longrightarrow> length (enc_string s) = 4 + length s"
  by (simp add: enc_string_def Let_def unat_of_nat)

lemma enc_ints_not_Nil [simp]:
  "enc_u8 n \<noteq> []" "enc_bool b \<noteq> []" "enc_u32 w \<noteq> []" "enc_u64 v \<noteq> []" "enc_count xs \<noteq> []"
  by (simp_all flip: length_greater_0_conv)

lemma enc_not_Nil [simp]:
  "enc_string s \<noteq> []" "enc_list e xs \<noteq> []" "enc_map ek ev m \<noteq> []" "encode_struct sv cv p \<noteq> []"
  by (simp_all add: enc_string_def enc_list_def enc_map_def encode_struct_def Let_def)

interpretation u8: codec enc_u8 dec_u8 "\<lambda>n. n < 256"
  by unfold_locales simp_all

interpretation bool: codec enc_bool dec_bool "\<lambda>_. True"
  by unfold_locales simp_all

interpretation u32: codec enc_u32 dec_u32 "\<lambda>_. True"
  by unfold_locales simp_all

interpretation u64: codec enc_u64 dec_u64 "\<lambda>_. True"
  by unfold_locales simp_all

definition short :: "string \<Rightarrow> bool" where
  "short s \<longleftrightarrow> length s < size_limit"

lemma dec_string_short [simp, codec_simps]: "short s \<Longrightarrow> dec_string (enc_string s @ bl) = Some (s, bl)"
  by (simp add: short_def)

interpretation str: codec enc_string dec_string short
  by unfold_locales simp_all

section \<open>Containers and structs keep the contract\<close>

context codec
begin

lemma list_roundtrip:
  assumes "\<forall>x \<in> set xs. ok x" and "length (enc_list enc xs) < size_limit"
  shows "dec_list dcd (enc_list enc xs @ bl) = Some (xs, bl)"
proof -
  have small: "length (concat (map enc xs)) < size_limit" using assms(2) by (simp add: enc_list_def)
  then have "unat (word_of_nat (length xs) :: 32 word) = length xs"
    using length_items [of xs] by (intro unat_word_of_nat32) linarith
  then show ?thesis
    using items_roundtrip [OF assms(1) small] by (simp add: dec_list_def enc_list_def enc_count_def)
qed

lemma list_codec: "codec (enc_list enc) (dec_list dcd) (\<lambda>xs. \<forall>x \<in> set xs. ok x)"
  by unfold_locales (simp_all add: list_roundtrip)

end

lemma length_concat_pairs: "(\<And>k. ek k \<noteq> []) \<Longrightarrow> length m \<le> length (concat (map (enc_pair ek ev) m))"
proof (induction m)
  case (Cons p m)
  have "0 < length (ek (fst p))" using Cons.prems [of "fst p"] by (rule length_greater_0_conv [THEN iffD2])
  then have "Suc (length m) \<le> length (enc_pair ek ev p) + length (concat (map (enc_pair ek ev) m))"
    using Cons.IH [OF Cons.prems] unfolding enc_pair_def [of ek ev p] length_append by linarith
  then show ?case by simp
qed simp

definition entries_ok :: "('k \<Rightarrow> bool) \<Rightarrow> ('v \<Rightarrow> bool) \<Rightarrow> ('k \<times> 'v) list \<Rightarrow> bool" where
  "entries_ok kok vok m \<longleftrightarrow> (\<forall>p \<in> set m. kok (fst p) \<and> vok (snd p))"

text \<open>A map is decoded by inserting into the empty map; the round trip needs the keys in order, which
  every \<^verbatim>\<open>std::map\<close> has.\<close>

locale map_codec = key: codec ek dk kok
  for ek :: "'k :: linorder \<Rightarrow> string" and dk kok +
  fixes ev :: "'v \<Rightarrow> string" and dv :: "'v \<Rightarrow> 'v decoder" and vok :: "'v \<Rightarrow> bool"
  assumes value_codec: "codec ev (dv old) vok"
begin

lemma pair_roundtrip:
  assumes "kok k" "vok v" "length (enc_pair ek ev (k, v)) < size_limit"
  shows "bind_dec dk (\<lambda>k. bind_dec (dv (old k)) (f k)) (enc_pair ek ev (k, v) @ bl) = f k v bl"
  using assms key.roundtrip [of k "ev v @ bl"] codec.roundtrip [OF value_codec, of v "old k" bl]
  by (simp add: enc_pair_def)

lemma map_items_roundtrip:
  assumes "entries_ok kok vok kvs" and "length (concat (map (enc_pair ek ev) kvs)) < size_limit"
  shows "dec_map_items dk dv new (length kvs) m (concat (map (enc_pair ek ev) kvs) @ bl) =
    Some (fold (\<lambda>(k, v). map_set plain k v) kvs m, bl)"
  using assms
proof (induction kvs arbitrary: m)
  case (Cons p kvs)
  obtain k v where p: "p = (k, v)" by force
  have "kok k" "vok v" "length (enc_pair ek ev (k, v)) < size_limit"
    using Cons.prems p by (auto simp: entries_ok_def)
  note step = pair_roundtrip [OF this, where bl = "concat (map (enc_pair ek ev) kvs) @ bl"]
  show ?case using Cons p by (simp add: step entries_ok_def)
qed simp

lemma multimap_items_roundtrip:
  assumes "entries_ok kok vok kvs" and "length (concat (map (enc_pair ek ev) kvs)) < size_limit"
  shows "dec_multimap_items dk dv new (length kvs) m (concat (map (enc_pair ek ev) kvs) @ bl) =
    Some (fold (\<lambda>(k, v). multimap_insert plain k v) kvs m, bl)"
  using assms
proof (induction kvs arbitrary: m)
  case (Cons p kvs)
  obtain k v where p: "p = (k, v)" by force
  have "kok k" "vok v" "length (enc_pair ek ev (k, v)) < size_limit"
    using Cons.prems p by (auto simp: entries_ok_def)
  note step = pair_roundtrip [OF this, where bl = "concat (map (enc_pair ek ev) kvs) @ bl" and old = "\<lambda>_. new"]
  show ?case using Cons p by (simp add: step entries_ok_def)
qed simp

lemma count_roundtrip:
  assumes "length (enc_map ek ev m) < size_limit"
  shows "unat (word_of_nat (length m) :: 32 word) = length m"
  using assms length_concat_pairs [of ek m ev] key.not_empty
  by (intro unat_word_of_nat32) (simp add: enc_map_def)

lemma map_codec: "codec (enc_map ek ev) (dec_map dk dv new) (\<lambda>m. ordered_map plain m \<and> entries_ok kok vok m)"
  by unfold_locales
    (simp_all add: dec_map_def enc_map_def [of ek ev] enc_count_def map_items_roundtrip fold_map_set_ordered
      count_roundtrip [unfolded enc_map_def])

lemma multimap_codec:
  "codec (enc_map ek ev) (dec_multimap dk dv new) (\<lambda>m. ordered_multimap plain m \<and> entries_ok kok vok m)"
  by unfold_locales
    (simp_all add: dec_multimap_def enc_map_def [of ek ev] enc_count_def multimap_items_roundtrip
      fold_multimap_insert_ordered count_roundtrip [unfolded enc_map_def])

end

text \<open>A struct is decoded when its body reads a prefix of the payload; whatever a newer encoder added
  behind it (\<open>extra\<close>) is skipped.\<close>

lemma decode_len_payload:
  assumes "body (p @ extra @ bl) = Some (x, extra @ bl)" and "length (p @ extra) < size_limit"
  shows "decode_len body (enc_u32 (word_of_nat (length (p @ extra))) @ p @ extra @ bl) = Some (x, bl)"
  using assms unat_word_of_nat32 [OF assms(2)]
  by (simp add: decode_len_def decode_finish_def del: of_nat_add)

lemma decode_struct_extra:
  assumes "body v (p @ extra @ bl) = Some (x, extra @ bl)" and "length (p @ extra) < size_limit"
    and "v < 256" "cv < 256" "cv \<le> v'"
  shows "decode_struct v' body (encode_struct v cv (p @ extra) @ bl) = Some (x, bl)"
  using assms(3-) decode_len_payload [where body = "body v", OF assms(1,2)] by (simp add: decode_struct_def encode_struct_def)

lemma decode_struct_legacy_extra:
  assumes "body v (p @ extra @ bl) = Some (x, extra @ bl)" and "length (p @ extra) < size_limit"
    and "v < 256" "cv < 256" "cv \<le> v'" "compatv \<le> v" "lenv \<le> v"
  shows "decode_struct_legacy v' compatv lenv skip body (encode_struct v cv (p @ extra) @ bl) = Some (x, bl)"
  using assms(3-) decode_len_payload [where body = "body v", OF assms(1,2)]
  by (simp add: decode_struct_legacy_def encode_struct_def bind_dec_def)

lemma decode_struct_ok:
  assumes "body v (p @ bl) = Some (x, bl)" and "length p < size_limit" and "v < 256" "cv < 256" "cv \<le> v'"
  shows "decode_struct v' body (encode_struct v cv p @ bl) = Some (x, bl)"
  using decode_struct_extra [of body v p "[]"] assms by simp

lemma decode_struct_legacy_ok:
  assumes "body v (p @ bl) = Some (x, bl)" and "length p < size_limit"
    and "v < 256" "cv < 256" "cv \<le> v'" "compatv \<le> v" "lenv \<le> v"
  shows "decode_struct_legacy v' compatv lenv skip body (encode_struct v cv p @ bl) = Some (x, bl)"
  using decode_struct_legacy_extra [of body v p "[]"] assms by simp

lemma length_encode_struct [codec_simps]: "length (encode_struct v cv p) = 6 + length p"
  by (simp add: encode_struct_def)

lemma encode_struct_payload: "length (encode_struct v cv p) < size_limit \<Longrightarrow> length p < size_limit"
  by (simp add: encode_struct_def)

text \<open>A reader refuses an encoding that says it needs a newer one.\<close>

lemma decode_struct_too_new:
  assumes "v' < cv" "cv < 256" "v < 256"
  shows "decode_struct v' body (encode_struct v cv p @ bl) = None"
  using assms by (simp add: decode_struct_def encode_struct_def)

end
