(* ===== verification/Rgw_Types.thy ===== *)
theory Rgw_Types
  imports Encoding
begin

text \<open>
  The persistent data types of \<^verbatim>\<open>src/rgw/porting_common.h\<close> and \<^verbatim>\<open>porting_quota.h\<close>
  with their versioned encodings.  A decoder takes the object it overwrites; members that only exist in
  memory (\<^verbatim>\<open>rgw_bucket::oid\<close>, the version trackers of \<^verbatim>\<open>RGWBucketInfo\<close>) are left out.
  A \<^verbatim>\<open>time_t\<close> is a 64-bit word.
\<close>

section \<open>rgw_obj_key and rgw_bucket\<close>

record rgw_obj_key =
  okey_name :: string
  okey_instance :: string

definition enc_rgw_obj_key :: "rgw_obj_key \<Rightarrow> string" where
  "enc_rgw_obj_key k = encode_struct 1 1 (enc_string (okey_name k) @ enc_string (okey_instance k))"

definition dec_rgw_obj_key :: "rgw_obj_key \<Rightarrow> rgw_obj_key decoder" where
  "dec_rgw_obj_key k0 =
     decode_struct 1 (\<lambda>struct_v.
       bind_dec dec_string (\<lambda>name. bind_dec dec_string (\<lambda>inst.
         ret_dec (k0\<lparr>okey_name := name, okey_instance := inst\<rparr>))))"

text \<open>\<^verbatim>\<open>operator<\<close>: by name, then by instance.\<close>

definition rgw_obj_key_less :: "rgw_obj_key \<Rightarrow> rgw_obj_key \<Rightarrow> bool" where
  "rgw_obj_key_less k l \<longleftrightarrow>
     (if okey_name k = okey_name l then okey_instance k < okey_instance l else okey_name k < okey_name l)"

record rgw_bucket =
  bkt_name :: string
  bkt_data_pool :: string
  bkt_data_extra_pool :: string
  bkt_index_pool :: string
  bkt_marker :: string
  bkt_bucket_id :: string

definition new_bucket :: rgw_bucket where
  "new_bucket = \<lparr>bkt_name = [], bkt_data_pool = [], bkt_data_extra_pool = [], bkt_index_pool = [],
     bkt_marker = [], bkt_bucket_id = []\<rparr>"

definition enc_rgw_bucket :: "rgw_bucket \<Rightarrow> string" where
  "enc_rgw_bucket b =
     encode_struct 7 3
       (enc_string (bkt_name b) @ enc_string (bkt_data_pool b) @ enc_string (bkt_marker b) @
        enc_string (bkt_bucket_id b) @ enc_string (bkt_index_pool b) @ enc_string (bkt_data_extra_pool b))"

text \<open>Versions 2 and 3 had a numeric bucket id, printed here into a buffer of 16 characters.\<close>

definition dec_bucket_id :: "nat \<Rightarrow> string decoder" where
  "dec_bucket_id struct_v =
     (if struct_v \<le> 3 then bind_dec dec_u64 (\<lambda>i. ret_dec (take 15 (dec (unat i)))) else dec_string)"

definition dec_rgw_bucket :: "rgw_bucket \<Rightarrow> rgw_bucket decoder" where
  "dec_rgw_bucket b0 =
     decode_struct_legacy 7 3 3 0 (\<lambda>struct_v.
       bind_dec dec_string (\<lambda>name.
       bind_dec dec_string (\<lambda>data_pool.
       bind_dec (when_dec (struct_v \<ge> 2) dec_string (bkt_marker b0)) (\<lambda>marker.
       bind_dec (when_dec (struct_v \<ge> 2) (dec_bucket_id struct_v) (bkt_bucket_id b0)) (\<lambda>bucket_id.
       bind_dec (when_dec (struct_v \<ge> 5) dec_string data_pool) (\<lambda>index_pool.
       bind_dec (when_dec (struct_v \<ge> 7) dec_string (bkt_data_extra_pool b0)) (\<lambda>extra.
         ret_dec \<lparr>bkt_name = name, bkt_data_pool = data_pool, bkt_data_extra_pool = extra,
           bkt_index_pool = index_pool, bkt_marker = marker, bkt_bucket_id = bucket_id\<rparr>)))))))"

definition get_data_extra_pool :: "rgw_bucket \<Rightarrow> string" where
  "get_data_extra_pool b = (if bkt_data_extra_pool b = [] then bkt_data_pool b else bkt_data_extra_pool b)"

definition bucket_ok :: "rgw_bucket \<Rightarrow> bool" where
  "bucket_ok b \<longleftrightarrow> short (bkt_name b) \<and> short (bkt_data_pool b) \<and> short (bkt_data_extra_pool b) \<and>
     short (bkt_index_pool b) \<and> short (bkt_marker b) \<and> short (bkt_bucket_id b)"

definition obj_key_ok :: "rgw_obj_key \<Rightarrow> bool" where
  "obj_key_ok k \<longleftrightarrow> short (okey_name k) \<and> short (okey_instance k)"

lemma dec_rgw_obj_key_enc:
  "obj_key_ok k \<Longrightarrow> length (enc_rgw_obj_key k) < size_limit \<Longrightarrow>
     dec_rgw_obj_key k0 (enc_rgw_obj_key k @ bl) = Some (k, bl)"
  unfolding dec_rgw_obj_key_def enc_rgw_obj_key_def
  by (drule encode_struct_payload, rule decode_struct_ok) (simp_all add: obj_key_ok_def)

interpretation obj_key: codec enc_rgw_obj_key "dec_rgw_obj_key k0" obj_key_ok for k0
  by (rule codec.intro) (erule (1) dec_rgw_obj_key_enc, simp add: enc_rgw_obj_key_def)

lemma dec_rgw_bucket_enc [codec_simps]:
  "bucket_ok b \<Longrightarrow> length (enc_rgw_bucket b) < size_limit \<Longrightarrow>
     dec_rgw_bucket b0 (enc_rgw_bucket b @ bl) = Some (b, bl)"
  unfolding dec_rgw_bucket_def enc_rgw_bucket_def
  by (drule encode_struct_payload, rule decode_struct_legacy_ok)
    (simp_all add: bucket_ok_def dec_bucket_id_def)

interpretation bkt: codec enc_rgw_bucket "dec_rgw_bucket b0" bucket_ok for b0
  by (rule codec.intro) (erule (1) dec_rgw_bucket_enc, simp add: enc_rgw_bucket_def)

section \<open>Users\<close>

record access_key =
  ak_id :: string
  ak_key :: string
  ak_subuser :: string

definition new_access_key :: access_key where
  "new_access_key = \<lparr>ak_id = [], ak_key = [], ak_subuser = []\<rparr>"

definition enc_access_key :: "access_key \<Rightarrow> string" where
  "enc_access_key k = encode_struct 2 2 (enc_string (ak_id k) @ enc_string (ak_key k) @ enc_string (ak_subuser k))"

definition dec_access_key :: "access_key \<Rightarrow> access_key decoder" where
  "dec_access_key k0 =
     decode_struct_legacy 2 2 2 3 (\<lambda>struct_v.
       bind_dec dec_string (\<lambda>i. bind_dec dec_string (\<lambda>k. bind_dec dec_string (\<lambda>su.
         ret_dec \<lparr>ak_id = i, ak_key = k, ak_subuser = su\<rparr>))))"

definition access_key_ok :: "access_key \<Rightarrow> bool" where
  "access_key_ok k \<longleftrightarrow> short (ak_id k) \<and> short (ak_key k) \<and> short (ak_subuser k)"

record rgw_subuser =
  su_name :: string
  su_perm_mask :: "32 word"

definition new_subuser :: rgw_subuser where
  "new_subuser = \<lparr>su_name = [], su_perm_mask = 0\<rparr>"

definition enc_subuser :: "rgw_subuser \<Rightarrow> string" where
  "enc_subuser u = encode_struct 2 2 (enc_string (su_name u) @ enc_u32 (su_perm_mask u))"

definition dec_subuser :: "rgw_subuser \<Rightarrow> rgw_subuser decoder" where
  "dec_subuser u0 =
     decode_struct_legacy 2 2 2 3 (\<lambda>struct_v.
       bind_dec dec_string (\<lambda>n. bind_dec dec_u32 (\<lambda>m. ret_dec \<lparr>su_name = n, su_perm_mask = m\<rparr>)))"

definition subuser_ok :: "rgw_subuser \<Rightarrow> bool" where
  "subuser_ok u \<longleftrightarrow> short (su_name u)"

type_synonym user_caps = "(string \<times> 32 word) list"

definition enc_user_caps :: "user_caps \<Rightarrow> string" where
  "enc_user_caps c = encode_struct 1 1 (enc_map enc_string enc_u32 c)"

definition dec_user_caps :: "user_caps \<Rightarrow> user_caps decoder" where
  "dec_user_caps c0 = decode_struct 1 (\<lambda>struct_v. dec_map dec_string (\<lambda>_. dec_u32) 0)"

record quota_info =
  max_size_kb :: uint64
  max_objects :: uint64
  quota_enabled :: bool
  max_size_soft_threshold :: uint64
  max_objs_soft_threshold :: uint64

definition new_quota :: quota_info where
  "new_quota = \<lparr>max_size_kb = -1, max_objects = -1, quota_enabled = False,
     max_size_soft_threshold = -1, max_objs_soft_threshold = -1\<rparr>"

definition enc_quota_info :: "quota_info \<Rightarrow> string" where
  "enc_quota_info q = encode_struct 1 1 (enc_u64 (max_size_kb q) @ enc_u64 (max_objects q) @ enc_bool (quota_enabled q))"

text \<open>The soft thresholds are not encoded: decoding leaves them as they were.\<close>

definition dec_quota_info :: "quota_info \<Rightarrow> quota_info decoder" where
  "dec_quota_info q0 =
     decode_struct 1 (\<lambda>struct_v.
       bind_dec dec_u64 (\<lambda>s. bind_dec dec_u64 (\<lambda>n. bind_dec dec_bool (\<lambda>e.
         ret_dec (q0\<lparr>max_size_kb := s, max_objects := n, quota_enabled := e\<rparr>)))))"

definition enc_int :: "int \<Rightarrow> string" where
  "enc_int i = enc_u32 (word_of_int i)"

definition dec_int :: "int decoder" where
  "dec_int = bind_dec dec_u32 (\<lambda>w. ret_dec (sint w))"

definition int_ok :: "int \<Rightarrow> bool" where
  "int_ok i \<longleftrightarrow> - (2 ^ 31) \<le> i \<and> i < 2 ^ 31"

lemma dec_access_key_enc:
  "access_key_ok k \<Longrightarrow> length (enc_access_key k) < size_limit \<Longrightarrow>
     dec_access_key k0 (enc_access_key k @ bl) = Some (k, bl)"
  unfolding dec_access_key_def enc_access_key_def
  by (drule encode_struct_payload, rule decode_struct_legacy_ok) (simp_all add: access_key_ok_def)

lemma dec_subuser_enc:
  "subuser_ok u \<Longrightarrow> length (enc_subuser u) < size_limit \<Longrightarrow> dec_subuser u0 (enc_subuser u @ bl) = Some (u, bl)"
  unfolding dec_subuser_def enc_subuser_def
  by (drule encode_struct_payload, rule decode_struct_legacy_ok) (simp_all add: subuser_ok_def)

lemma dec_quota_info_enc [simp, codec_simps]:
  "dec_quota_info q0 (enc_quota_info q @ bl) =
     Some (q\<lparr>max_size_soft_threshold := max_size_soft_threshold q0,
             max_objs_soft_threshold := max_objs_soft_threshold q0\<rparr>, bl)"
  unfolding dec_quota_info_def enc_quota_info_def
  by (rule decode_struct_ok) simp_all

lemma dec_int_enc: "int_ok i \<Longrightarrow> dec_int (enc_int i @ bl) = Some (i, bl)"
  by (simp add: dec_int_def enc_int_def int_ok_def signed_of_int signed_take_bit_int_eq_self)

interpretation ak: codec enc_access_key "dec_access_key k0" access_key_ok for k0
  by (rule codec.intro) (erule (1) dec_access_key_enc, simp add: enc_access_key_def)

interpretation su: codec enc_subuser "dec_subuser u0" subuser_ok for u0
  by (rule codec.intro) (erule (1) dec_subuser_enc, simp add: enc_subuser_def)

interpretation sint32: codec enc_int dec_int int_ok
  by (rule codec.intro) (erule dec_int_enc, simp add: enc_int_def)

interpretation caps_map: map_codec enc_string dec_string short enc_u32 "\<lambda>_. dec_u32" "\<lambda>_. True"
  by unfold_locales

interpretation key_map: map_codec enc_string dec_string short enc_access_key dec_access_key access_key_ok
  by unfold_locales

interpretation subuser_map: map_codec enc_string dec_string short enc_subuser dec_subuser subuser_ok
  by unfold_locales

interpretation url_key_map: map_codec enc_int dec_int int_ok enc_string "\<lambda>_. dec_string" short
  by unfold_locales

definition caps_ok :: "user_caps \<Rightarrow> bool" where
  "caps_ok c \<longleftrightarrow> ordered_map plain c \<and> entries_ok short (\<lambda>_. True) c"

lemma dec_user_caps_enc:
  "caps_ok c \<Longrightarrow> length (enc_user_caps c) < size_limit \<Longrightarrow> dec_user_caps c0 (enc_user_caps c @ bl) = Some (c, bl)"
  unfolding dec_user_caps_def enc_user_caps_def
  by (drule encode_struct_payload, rule decode_struct_ok)
    (simp_all add: caps_ok_def codec.roundtrip [OF caps_map.map_codec])

record user_info =
  auid :: uint64
  user_id :: string
  display_name :: string
  user_email :: string
  access_keys :: "(string \<times> access_key) list"
  swift_keys :: "(string \<times> access_key) list"
  subusers :: "(string \<times> rgw_subuser) list"
  suspended :: nat
  max_buckets :: "32 word"
  op_mask :: "32 word"
  caps :: user_caps
  system_user :: nat
  default_placement :: string
  placement_tags :: "string list"
  bucket_quota :: quota_info
  temp_url_keys :: "(int \<times> string) list"
  user_quota :: quota_info

definition CEPH_AUTH_UID_DEFAULT :: uint64 where
  "CEPH_AUTH_UID_DEFAULT = -1"

definition RGW_DEFAULT_MAX_BUCKETS :: "32 word" where
  "RGW_DEFAULT_MAX_BUCKETS = 1000"

definition RGW_OP_TYPE_ALL :: "32 word" where
  "RGW_OP_TYPE_ALL = 7"

definition new_user :: user_info where
  "new_user = \<lparr>auid = 0, user_id = [], display_name = [], user_email = [], access_keys = [], swift_keys = [],
     subusers = [], suspended = 0, max_buckets = RGW_DEFAULT_MAX_BUCKETS, op_mask = RGW_OP_TYPE_ALL, caps = [],
     system_user = 0, default_placement = [], placement_tags = [], bucket_quota = new_quota,
     temp_url_keys = [], user_quota = new_quota\<rparr>"

definition user_clear :: "user_info \<Rightarrow> user_info" where
  "user_clear u = u\<lparr>user_id := [], display_name := [], user_email := [], auid := CEPH_AUTH_UID_DEFAULT,
     access_keys := [], suspended := 0\<rparr>"

text \<open>The first key of a map goes into the encoding once more, for old readers.\<close>

definition first_key :: "(string \<times> access_key) list \<Rightarrow> string \<times> string" where
  "first_key m = (case m of [] \<Rightarrow> ('''', '''') | (_, k) # _ \<Rightarrow> (ak_id k, ak_key k))"

definition enc_user_info :: "user_info \<Rightarrow> string" where
  "enc_user_info u =
     encode_struct 16 9
       (enc_u64 (auid u) @
        enc_string (fst (first_key (access_keys u))) @ enc_string (snd (first_key (access_keys u))) @
        enc_string (display_name u) @ enc_string (user_email u) @
        enc_string (fst (first_key (swift_keys u))) @ enc_string (snd (first_key (swift_keys u))) @
        enc_string (user_id u) @
        enc_map enc_string enc_access_key (access_keys u) @
        enc_map enc_string enc_subuser (subusers u) @
        enc_u8 (suspended u) @
        enc_map enc_string enc_access_key (swift_keys u) @
        enc_u32 (max_buckets u) @ enc_user_caps (caps u) @ enc_u32 (op_mask u) @ enc_u8 (system_user u) @
        enc_string (default_placement u) @ enc_list enc_string (placement_tags u) @
        enc_quota_info (bucket_quota u) @ enc_map enc_int enc_string (temp_url_keys u) @
        enc_quota_info (user_quota u))"

definition dec_user_info :: "user_info \<Rightarrow> user_info decoder" where
  "dec_user_info u0 =
     decode_struct_legacy 16 9 9 3 (\<lambda>struct_v.
       bind_dec (when_dec (struct_v \<ge> 2) dec_u64 CEPH_AUTH_UID_DEFAULT) (\<lambda>au.
       bind_dec dec_string (\<lambda>access_key.
       bind_dec dec_string (\<lambda>secret_key.
       bind_dec dec_string (\<lambda>dname.
       bind_dec dec_string (\<lambda>email.
       bind_dec (when_dec (struct_v \<ge> 3) dec_string '''') (\<lambda>swift_name.
       bind_dec (when_dec (struct_v \<ge> 4) dec_string '''') (\<lambda>swift_key.
       bind_dec (when_dec (struct_v \<ge> 5) dec_string access_key) (\<lambda>uid.
       bind_dec (when_dec (struct_v \<ge> 6) (dec_map dec_string dec_access_key new_access_key)
           (if struct_v < 6
            then map_set plain access_key \<lparr>ak_id = access_key, ak_key = secret_key, ak_subuser = []\<rparr> (access_keys u0)
            else access_keys u0)) (\<lambda>aks.
       bind_dec (when_dec (struct_v \<ge> 6) (dec_map dec_string dec_subuser new_subuser) (subusers u0)) (\<lambda>sus.
       bind_dec (when_dec (struct_v \<ge> 7) dec_u8 0) (\<lambda>susp.
       bind_dec (when_dec (struct_v \<ge> 8) (dec_map dec_string dec_access_key new_access_key) (swift_keys u0)) (\<lambda>sks.
       bind_dec (when_dec (struct_v \<ge> 10) dec_u32 RGW_DEFAULT_MAX_BUCKETS) (\<lambda>mb.
       bind_dec (when_dec (struct_v \<ge> 11) (dec_user_caps (caps u0)) (caps u0)) (\<lambda>cs.
       bind_dec (when_dec (struct_v \<ge> 12) dec_u32 RGW_OP_TYPE_ALL) (\<lambda>om.
       bind_dec (when_dec (struct_v \<ge> 13) dec_u8 0) (\<lambda>sys.
       bind_dec (when_dec (struct_v \<ge> 13) dec_string (default_placement u0)) (\<lambda>dp.
       bind_dec (when_dec (struct_v \<ge> 13) (dec_list dec_string) (placement_tags u0)) (\<lambda>tags.
       bind_dec (when_dec (struct_v \<ge> 14) (dec_quota_info (bucket_quota u0)) (bucket_quota u0)) (\<lambda>bq.
       bind_dec (when_dec (struct_v \<ge> 15) (dec_map dec_int (\<lambda>_. dec_string) '''') (temp_url_keys u0)) (\<lambda>tuk.
       bind_dec (when_dec (struct_v \<ge> 16) (dec_quota_info (user_quota u0)) (user_quota u0)) (\<lambda>uq.
         ret_dec \<lparr>auid = au, user_id = uid, display_name = dname, user_email = email, access_keys = aks,
           swift_keys = sks, subusers = sus, suspended = susp, max_buckets = mb, op_mask = om, caps = cs,
           system_user = sys, default_placement = dp, placement_tags = tags, bucket_quota = bq,
           temp_url_keys = tuk, user_quota = uq\<rparr>))))))))))))))))))))))"

definition key_map_ok :: "(string \<times> access_key) list \<Rightarrow> bool" where
  "key_map_ok m \<longleftrightarrow> ordered_map plain m \<and> entries_ok short access_key_ok m"

definition user_ok :: "user_info \<Rightarrow> bool" where
  "user_ok u \<longleftrightarrow> short (user_id u) \<and> short (display_name u) \<and> short (user_email u) \<and>
     key_map_ok (access_keys u) \<and> key_map_ok (swift_keys u) \<and>
     ordered_map plain (subusers u) \<and> entries_ok short subuser_ok (subusers u) \<and>
     suspended u < 256 \<and> caps_ok (caps u) \<and> system_user u < 256 \<and> short (default_placement u) \<and>
     list_all short (placement_tags u) \<and>
     ordered_map plain (temp_url_keys u) \<and> entries_ok int_ok short (temp_url_keys u)"

text \<open>The in-memory thresholds of a quota come from the object that is overwritten.\<close>

definition keep_soft :: "quota_info \<Rightarrow> quota_info \<Rightarrow> quota_info" where
  "keep_soft q0 q = q\<lparr>max_size_soft_threshold := max_size_soft_threshold q0,
     max_objs_soft_threshold := max_objs_soft_threshold q0\<rparr>"

lemma short_first_key: "key_map_ok m \<Longrightarrow> short (fst (first_key m)) \<and> short (snd (first_key m))"
  by (cases m) (auto simp: first_key_def key_map_ok_def entries_ok_def access_key_ok_def short_def)

lemma dec_user_info_encoded:
  assumes "user_ok u" and "length (enc_user_info u) < size_limit"
  shows "dec_user_info u0 (enc_user_info u @ bl) =
    Some (u\<lparr>bucket_quota := keep_soft (bucket_quota u0) (bucket_quota u),
            user_quota := keep_soft (user_quota u0) (user_quota u)\<rparr>, bl)"
proof -
  note size = assms(2) [unfolded enc_user_info_def, THEN encode_struct_payload]
  have keys: "short (fst (first_key (access_keys u)))" "short (snd (first_key (access_keys u)))"
    "short (fst (first_key (swift_keys u)))" "short (snd (first_key (swift_keys u)))"
    using assms(1) short_first_key by (simp_all add: user_ok_def)
  show ?thesis
    unfolding dec_user_info_def enc_user_info_def
  proof (rule decode_struct_legacy_ok [OF _ size])
  qed (use assms(1) keys size in \<open>simp_all add: user_ok_def key_map_ok_def keep_soft_def dec_user_caps_enc
      codec.roundtrip [OF key_map.map_codec] codec.roundtrip [OF subuser_map.map_codec]
      codec.roundtrip [OF url_key_map.map_codec] codec.roundtrip [OF str.list_codec] list_all_iff\<close>)
qed

text \<open>C30: A user record that was stored is read back unchanged, over any old object; only the two soft
  thresholds of each quota, which are not stored, are those of the old object.\<close>

theorem dec_user_info_enc:
  assumes "user_ok u" and "length (enc_user_info u) < size_limit"
  shows "dec_user_info u0 (enc_user_info u @ bl) =
    Some (u\<lparr>bucket_quota := keep_soft (bucket_quota u0) (bucket_quota u),
            user_quota := keep_soft (user_quota u0) (user_quota u)\<rparr>, bl)"
  using assms by (rule dec_user_info_encoded)

theorem dec_user_info_enc_witness:
  "dec_user_info new_user (enc_user_info (new_user\<lparr>user_id := ''joe''\<rparr>) @ ''xyz'') =
     Some (new_user\<lparr>user_id := ''joe''\<rparr>, ''xyz'')"
proof -
  have "user_ok (new_user\<lparr>user_id := ''joe''\<rparr>)"
    by (simp add: user_ok_def new_user_def short_def key_map_ok_def entries_ok_def caps_ok_def)
  moreover have "length (enc_user_info (new_user\<lparr>user_id := ''joe''\<rparr>)) < size_limit"
    by (simp add: enc_user_info_def new_user_def length_encode_struct enc_string_def enc_map_def enc_list_def
        first_key_def enc_user_caps_def enc_quota_info_def)
  ultimately show ?thesis
    by (subst dec_user_info_enc) (simp_all add: keep_soft_def new_user_def)
qed

section \<open>Buckets\<close>

record bucket_ent =
  ent_bucket :: rgw_bucket
  ent_size :: uint64
  ent_size_rounded :: uint64
  ent_creation_time :: uint64
  ent_count :: uint64

definition enc_bucket_ent :: "bucket_ent \<Rightarrow> string" where
  "enc_bucket_ent e =
     encode_struct 5 5
       (enc_string '''' @ enc_u64 (ent_size e) @ enc_u32 (ucast (ent_creation_time e)) @ enc_u64 (ent_count e) @
        enc_rgw_bucket (ent_bucket e) @ enc_u64 (ent_size_rounded e))"

definition dec_bucket_ent :: "bucket_ent \<Rightarrow> bucket_ent decoder" where
  "dec_bucket_ent e0 =
     decode_struct_legacy 5 5 5 0 (\<lambda>struct_v.
       bind_dec dec_string (\<lambda>empty_str.
       bind_dec dec_u64 (\<lambda>s.
       bind_dec dec_u32 (\<lambda>mt.
       bind_dec (when_dec (struct_v \<ge> 2) dec_u64 (ent_count e0)) (\<lambda>count.
       bind_dec (when_dec (struct_v \<ge> 3) (dec_rgw_bucket (ent_bucket e0)) (ent_bucket e0)) (\<lambda>b.
       bind_dec (when_dec (struct_v \<ge> 4) dec_u64 s) (\<lambda>sr.
         ret_dec \<lparr>ent_bucket = b, ent_size = s, ent_size_rounded = sr, ent_creation_time = ucast mt, ent_count = count\<rparr>)))))))"

record bucket_info =
  bi_bucket :: rgw_bucket
  bi_owner :: string
  bi_flags :: "32 word"
  bi_region :: string
  bi_creation_time :: uint64
  bi_placement_rule :: string
  bi_has_instance_obj :: bool
  bi_quota :: quota_info
  bi_num_shards :: "32 word"
  bi_shard_hash_type :: nat
  bi_requester_pays :: bool

definition new_bucket_info :: bucket_info where
  "new_bucket_info = \<lparr>bi_bucket = new_bucket, bi_owner = [], bi_flags = 0, bi_region = [], bi_creation_time = 0,
     bi_placement_rule = [], bi_has_instance_obj = False, bi_quota = new_quota, bi_num_shards = 0,
     bi_shard_hash_type = 0, bi_requester_pays = False\<rparr>"

definition enc_bucket_info :: "bucket_info \<Rightarrow> string" where
  "enc_bucket_info i =
     encode_struct 12 4
       (enc_rgw_bucket (bi_bucket i) @ enc_string (bi_owner i) @ enc_u32 (bi_flags i) @ enc_string (bi_region i) @
        enc_u64 (bi_creation_time i) @ enc_string (bi_placement_rule i) @ enc_bool (bi_has_instance_obj i) @
        enc_quota_info (bi_quota i) @ enc_u32 (bi_num_shards i) @ enc_u8 (bi_shard_hash_type i) @
        enc_bool (bi_requester_pays i))"

definition dec_bucket_info :: "bucket_info \<Rightarrow> bucket_info decoder" where
  "dec_bucket_info i0 =
     decode_struct_legacy 9 4 4 3 (\<lambda>struct_v.
       bind_dec (dec_rgw_bucket (bi_bucket i0)) (\<lambda>b.
       bind_dec (when_dec (struct_v \<ge> 2) dec_string (bi_owner i0)) (\<lambda>owner.
       bind_dec (when_dec (struct_v \<ge> 3) dec_u32 (bi_flags i0)) (\<lambda>flags.
       bind_dec (when_dec (struct_v \<ge> 5) dec_string (bi_region i0)) (\<lambda>region.
       bind_dec (when_dec (struct_v \<ge> 6) dec_u64 (bi_creation_time i0)) (\<lambda>ct.
       bind_dec (when_dec (struct_v \<ge> 7) dec_string (bi_placement_rule i0)) (\<lambda>rule.
       bind_dec (when_dec (struct_v \<ge> 8) dec_bool (bi_has_instance_obj i0)) (\<lambda>inst.
       bind_dec (when_dec (struct_v \<ge> 9) (dec_quota_info (bi_quota i0)) (bi_quota i0)) (\<lambda>q.
       bind_dec (when_dec (struct_v \<ge> 10) dec_u32 (bi_num_shards i0)) (\<lambda>shards.
       bind_dec (when_dec (struct_v \<ge> 11) dec_u8 (bi_shard_hash_type i0)) (\<lambda>hash.
       bind_dec (when_dec (struct_v \<ge> 12) dec_bool (bi_requester_pays i0)) (\<lambda>pays.
         ret_dec \<lparr>bi_bucket = b, bi_owner = owner, bi_flags = flags, bi_region = region, bi_creation_time = ct,
           bi_placement_rule = rule, bi_has_instance_obj = inst, bi_quota = q, bi_num_shards = shards,
           bi_shard_hash_type = hash, bi_requester_pays = pays\<rparr>))))))))))))"

definition BUCKET_VERSIONED :: "32 word" where
  "BUCKET_VERSIONED = 0x2"

definition BUCKET_VERSIONS_SUSPENDED :: "32 word" where
  "BUCKET_VERSIONS_SUSPENDED = 0x4"

definition versioned :: "bucket_info \<Rightarrow> bool" where
  "versioned i \<longleftrightarrow> bi_flags i AND BUCKET_VERSIONED \<noteq> 0"

definition versioning_status :: "bucket_info \<Rightarrow> 32 word" where
  "versioning_status i = bi_flags i AND (BUCKET_VERSIONED OR BUCKET_VERSIONS_SUSPENDED)"

definition versioning_enabled :: "bucket_info \<Rightarrow> bool" where
  "versioning_enabled i \<longleftrightarrow> versioning_status i = BUCKET_VERSIONED"

definition bucket_info_ok :: "bucket_info \<Rightarrow> bool" where
  "bucket_info_ok i \<longleftrightarrow> bucket_ok (bi_bucket i) \<and> short (bi_owner i) \<and> short (bi_region i) \<and>
     short (bi_placement_rule i) \<and> bi_shard_hash_type i < 256"

text \<open>Bucket information that was stored is read back unchanged, over any old object and although the
  reader announces an older version (9) than the writer (12); only the soft thresholds of the quota are
  those of the old object.\<close>

lemma dec_bucket_info_enc:
  assumes "bucket_info_ok i" and "length (enc_bucket_info i) < size_limit"
  shows "dec_bucket_info i0 (enc_bucket_info i @ bl) =
    Some (i\<lparr>bi_quota := keep_soft (bi_quota i0) (bi_quota i)\<rparr>, bl)"
proof -
  note size = assms(2) [unfolded enc_bucket_info_def, THEN encode_struct_payload]
  show ?thesis
    unfolding dec_bucket_info_def enc_bucket_info_def
  proof (rule decode_struct_legacy_ok [OF _ size])
  qed (use assms(1) size in \<open>simp_all add: bucket_info_ok_def keep_soft_def dec_rgw_bucket_enc\<close>)
qed

text \<open>A bucket entry that was stored is read back with the creation time reduced to 32 bits and every
  other member unchanged.\<close>

lemma dec_bucket_ent_enc:
  assumes "bucket_ok (ent_bucket e)" and "length (enc_bucket_ent e) < size_limit"
  shows "dec_bucket_ent e0 (enc_bucket_ent e @ bl) =
    Some (e\<lparr>ent_creation_time := take_bit 32 (ent_creation_time e)\<rparr>, bl)"
proof -
  note size = assms(2) [unfolded enc_bucket_ent_def, THEN encode_struct_payload]
  have "ucast (ucast t :: 32 word) = take_bit 32 t" for t :: uint64
    by (rule bit_word_eqI) (simp add: bit_ucast_iff bit_take_bit_iff)
  then show ?thesis
    unfolding dec_bucket_ent_def enc_bucket_ent_def
    using assms(1) size
    by (intro decode_struct_legacy_ok [OF _ size]) (simp_all add: dec_rgw_bucket_enc)
qed

end
