(* ===== verification/Obj_Name.thy ===== *)
theory Obj_Name
  imports Rgw_Types
begin

text \<open>
  Object names, class \<^verbatim>\<open>rgw_obj\<close> of \<^verbatim>\<open>src/rgw/porting_common.h\<close>: the name, namespace
  and version instance of an object are mangled into one name in the pool
  (\<^verbatim>\<open>_ns:instance_name\<close>) and into the key of the bucket index, and parsed back.
\<close>

section \<open>The code\<close>

record rgw_obj =
  orig_obj :: string
  loc :: string
  object :: string
  inst :: string
  obj_bucket :: rgw_bucket
  ns :: string
  in_extra_data :: bool
  index_hash_source :: string

abbreviation UND :: char where "UND \<equiv> CHR ''_''"

text \<open>\<^verbatim>\<open>s[0] == c\<close> and \<^verbatim>\<open>s[1] == c\<close>; past the end the string has a NUL.\<close>

definition char_at :: "string \<Rightarrow> nat \<Rightarrow> char" where
  "char_at s i = (if i < length s then s ! i else NUL)"

definition new_obj :: rgw_obj where
  "new_obj = \<lparr>orig_obj = [], loc = [], object = [], inst = [], obj_bucket = new_bucket, ns = [],
     in_extra_data = False, index_hash_source = []\<rparr>"

definition reset_loc :: "rgw_obj \<Rightarrow> rgw_obj" where
  "reset_loc r = r\<lparr>loc := (if char_at (orig_obj r) 0 = UND \<and> ns r = [] then orig_obj r else [])\<rparr>"

definition have_null_instance :: "rgw_obj \<Rightarrow> bool" where
  "have_null_instance r \<longleftrightarrow> inst r = ''null''"

definition have_instance :: "rgw_obj \<Rightarrow> bool" where
  "have_instance r \<longleftrightarrow> inst r \<noteq> []"

definition need_to_encode_instance :: "rgw_obj \<Rightarrow> bool" where
  "need_to_encode_instance r \<longleftrightarrow> have_instance r \<and> \<not> have_null_instance r"

definition set_obj :: "string \<Rightarrow> rgw_obj \<Rightarrow> rgw_obj" where
  "set_obj p r =
     (let r1 = r\<lparr>orig_obj := p\<rparr> in
      if ns r1 = [] \<and> \<not> need_to_encode_instance r1 then
        (if p = [] then r1
         else if char_at p 0 \<noteq> UND then r1\<lparr>object := p\<rparr>
         else reset_loc (r1\<lparr>object := UND # p\<rparr>))
      else
        reset_loc (r1\<lparr>object := [UND] @ ns r1 @
          (if need_to_encode_instance r1 then CHR '':'' # inst r1 else []) @ [UND] @ p\<rparr>))"

definition set_ns :: "string \<Rightarrow> rgw_obj \<Rightarrow> rgw_obj result" where
  "set_ns n r = (if char_at n 0 = UND then Inl (- EINVAL) else Inr (set_obj (orig_obj r) (r\<lparr>ns := n\<rparr>)))"

definition set_instance :: "string \<Rightarrow> rgw_obj \<Rightarrow> rgw_obj result" where
  "set_instance i r = (if char_at i 0 = UND then Inl (- EINVAL) else Inr (set_obj (orig_obj r) (r\<lparr>inst := i\<rparr>)))"

text \<open>A failed \<^verbatim>\<open>set_ns\<close> or \<^verbatim>\<open>set_instance\<close> leaves the object alone; these callers ignore it.\<close>

definition keep :: "(rgw_obj \<Rightarrow> rgw_obj result) \<Rightarrow> rgw_obj \<Rightarrow> rgw_obj" where
  "keep f r = (case f r of Inl _ \<Rightarrow> r | Inr r' \<Rightarrow> r')"

definition obj_init :: "rgw_bucket \<Rightarrow> string \<Rightarrow> rgw_obj \<Rightarrow> rgw_obj" where
  "obj_init b p r = reset_loc (set_obj p (r\<lparr>obj_bucket := b\<rparr>))"

definition obj_init_ns :: "rgw_bucket \<Rightarrow> string \<Rightarrow> string \<Rightarrow> rgw_obj \<Rightarrow> rgw_obj" where
  "obj_init_ns b p n r = reset_loc (set_obj p (keep (set_ns n) (r\<lparr>obj_bucket := b\<rparr>)))"

definition get_index_key_name :: "rgw_obj \<Rightarrow> string" where
  "get_index_key_name r =
     (if ns r = [] then (if char_at (orig_obj r) 0 \<noteq> UND then orig_obj r else UND # orig_obj r)
      else [UND] @ c_str (ns r) @ [UND] @ orig_obj r)"

definition get_index_key :: "rgw_obj \<Rightarrow> rgw_obj_key" where
  "get_index_key r = \<lparr>okey_name = get_index_key_name r, okey_instance = inst r\<rparr>"

definition from_index_key :: "rgw_bucket \<Rightarrow> rgw_obj_key \<Rightarrow> rgw_obj \<Rightarrow> rgw_obj" where
  "from_index_key b key r =
     (let n = okey_name key; i = okey_instance key in
      if char_at n 0 \<noteq> UND then keep (set_instance i) (obj_init b n r)
      else if char_at n 1 = UND then keep (set_instance i) (obj_init b (drop 1 n) r)
      else case find_from (\<lambda>c. c = UND) n 1 of
          None \<Rightarrow> keep (set_instance i) (obj_init b n r)
        | Some p \<Rightarrow> keep (set_instance i) (obj_init_ns b (drop (p + 1) n) (substr n 1 (p - 1)) r))"

text \<open>The namespace field holds the instance behind a colon.\<close>

definition parse_ns_field :: "string \<Rightarrow> string \<times> string" where
  "parse_ns_field n =
     (case find_from (\<lambda>c. c = CHR '':'') n 0 of
        Some p \<Rightarrow> (take p n, drop (p + 1) n)
      | None \<Rightarrow> (n, []))"

definition get_hash_object :: "rgw_obj \<Rightarrow> string" where
  "get_hash_object r = (if index_hash_source r = [] then orig_obj r else index_hash_source r)"

text \<open>\<^verbatim>\<open>parse_raw_oid\<close>: name, instance and namespace, or \<open>None\<close> for \<^verbatim>\<open>false\<close>.\<close>

definition parse_raw_oid :: "string \<Rightarrow> (string \<times> string \<times> string) option" where
  "parse_raw_oid oid =
     (if char_at oid 0 \<noteq> UND then Some (oid, [], [])
      else if length oid \<ge> 2 \<and> char_at oid 1 = UND then Some (drop 1 oid, [], [])
      else if length oid < 3 then None
      else case find_from (\<lambda>c. c = UND) oid 1 of
          None \<Rightarrow> None
        | Some p \<Rightarrow>
            if p \<le> 1 then None
            else let (n, i) = parse_ns_field (substr oid 1 (p - 1)) in Some (drop (p + 1) oid, i, n))"

text \<open>The object and instance arguments are overwritten only when the name is mangled.\<close>

definition translate_raw_obj_to_obj_in_ns :: "string \<Rightarrow> string \<Rightarrow> string \<Rightarrow> bool \<times> string \<times> string" where
  "translate_raw_obj_to_obj_in_ns obj i n =
     (if char_at obj 0 \<noteq> UND then (n = [], obj, i)
      else case parse_raw_oid obj of
          None \<Rightarrow> (False, obj, [])
        | Some (obj', i', n') \<Rightarrow> (n = n', obj', i'))"

text \<open>\<^verbatim>\<open>strip_namespace_from_object\<close>: object, namespace and instance; \<open>None\<close> for \<^verbatim>\<open>false\<close>.\<close>

definition strip_namespace_from_object :: "string \<Rightarrow> (string \<times> string \<times> string) option" where
  "strip_namespace_from_object obj =
     (if char_at obj 0 \<noteq> UND then Some (obj, [], [])
      else case find_from (\<lambda>c. c = UND) obj 1 of
          None \<Rightarrow> None
        | Some p \<Rightarrow>
            if char_at obj 1 = UND then Some (drop 1 obj, [], [])
            else if (case find_from (\<lambda>c. c = CHR ''.'') obj 0 of None \<Rightarrow> False | Some q \<Rightarrow> q < p) then None
            else let (n, i) = parse_ns_field (substr obj 1 (p - 1)) in Some (drop (p + 1) obj, n, i))"

section \<open>Mangled names can be parsed\<close>

definition encoded_instance :: "string \<Rightarrow> string" where
  "encoded_instance i = (if i = ''null'' then [] else i)"

definition mangle :: "string \<Rightarrow> string \<Rightarrow> string \<Rightarrow> string" where
  "mangle n i p =
     (if n = [] \<and> encoded_instance i = [] then (if char_at p 0 = UND then UND # p else p)
      else [UND] @ (n @ (if encoded_instance i = [] then [] else CHR '':'' # i)) @ UND # p)"

definition plain_field :: "string \<Rightarrow> bool" where
  "plain_field s \<longleftrightarrow> UND \<notin> set s \<and> CHR '':'' \<notin> set s \<and> NUL \<notin> set s"

lemma need_to_encode_iff: "need_to_encode_instance r \<longleftrightarrow> encoded_instance (inst r) \<noteq> []"
  by (auto simp: need_to_encode_instance_def have_instance_def have_null_instance_def encoded_instance_def)

lemma reset_loc_simps [simp]:
  "object (reset_loc r) = object r" "orig_obj (reset_loc r) = orig_obj r" "ns (reset_loc r) = ns r"
  "inst (reset_loc r) = inst r" "obj_bucket (reset_loc r) = obj_bucket r"
  by (simp_all add: reset_loc_def)

lemma set_obj_simps [simp]:
  "orig_obj (set_obj p r) = p" "ns (set_obj p r) = ns r" "inst (set_obj p r) = inst r"
  "obj_bucket (set_obj p r) = obj_bucket r"
  by (simp_all add: set_obj_def Let_def)

lemma object_set_obj: "p \<noteq> [] \<Longrightarrow> object (set_obj p r) = mangle (ns r) (inst r) p"
  by (auto simp: set_obj_def Let_def need_to_encode_iff mangle_def encoded_instance_def split: if_splits)

lemma char_at_simps [simp]: "char_at (c # s) 0 = c" "char_at (c # s) (Suc i) = char_at s i" "char_at [] i = NUL"
  by (simp_all add: char_at_def)

lemma find_from_field:
  assumes "\<forall>c \<in> set m. \<not> P c" and "P d"
  shows "find_from P (m @ d # s) 0 = Some (length m)" "find_from P (c # m @ d # s) 1 = Some (length m + 1)"
  using assms by (simp_all add: find_from_def takeWhile_append2)

lemma find_from_no_field: "\<forall>c \<in> set m. \<not> P c \<Longrightarrow> find_from P m 0 = None"
  by (simp add: find_from_None)

lemma char_at_plain: "plain_field s \<Longrightarrow> char_at s 0 \<noteq> UND"
  by (cases s) (auto simp: plain_field_def)

lemma parse_ns_field_mangled:
  assumes "plain_field n"
  shows "parse_ns_field (n @ (if encoded_instance i = [] then [] else CHR '':'' # i)) = (n, encoded_instance i)"
proof -
  have no_colon: "\<forall>c \<in> set n. c \<noteq> CHR '':''" using assms by (auto simp: plain_field_def)
  show ?thesis
    using find_from_field(1) [OF no_colon refl, of i] find_from_no_field [OF no_colon]
    by (auto simp: parse_ns_field_def encoded_instance_def)
qed

lemma parse_mangle:
  assumes "p \<noteq> []" "plain_field n" "plain_field i"
  shows "parse_raw_oid (mangle n i p) = Some (p, encoded_instance i, n)"
proof (cases "n = [] \<and> encoded_instance i = []")
  case True
  then show ?thesis using assms(1) by (cases p) (auto simp: mangle_def parse_raw_oid_def)
next
  case False
  define f where "f = n @ (if encoded_instance i = [] then [] else CHR '':'' # i)"
  have f: "f \<noteq> []" "UND \<notin> set f" using False assms by (auto simp: f_def plain_field_def)
  have oid: "mangle n i p = UND # f @ UND # p" using False by (auto simp: mangle_def f_def)
  have "find_from (\<lambda>c. c = UND) (UND # f @ UND # p) 1 = Some (length f + 1)"
    using f(2) by (intro find_from_field(2)) auto
  moreover have "char_at (f @ UND # p) 0 \<noteq> UND" using f by (cases f) auto
  moreover have "parse_ns_field f = (n, encoded_instance i)"
    unfolding f_def by (rule parse_ns_field_mangled [OF assms(2)])
  ultimately show ?thesis using f assms(1) by (auto simp: oid parse_raw_oid_def substr_def)
qed

text \<open>The object for a name, a namespace and a version instance, as the constructors and setters build it.\<close>

definition make_obj :: "rgw_bucket \<Rightarrow> string \<Rightarrow> string \<Rightarrow> string \<Rightarrow> rgw_obj" where
  "make_obj b p n i = keep (set_instance i) (obj_init_ns b p n new_obj)"

lemma make_obj_fields:
  assumes "plain_field n" "plain_field i"
  shows "orig_obj (make_obj b p n i) = p" "ns (make_obj b p n i) = n" "inst (make_obj b p n i) = i"
    "obj_bucket (make_obj b p n i) = b"
    "p \<noteq> [] \<Longrightarrow> object (make_obj b p n i) = mangle n i p"
  using assms [THEN char_at_plain]
  by (simp_all add: make_obj_def keep_def set_instance_def obj_init_ns_def set_ns_def object_set_obj)

text \<open>C18: The name under which an object is stored parses back to the object's name, its namespace and
  its version instance (the null instance is not part of the name), where namespace and instance
  contain no underscore, no colon and no NUL.\<close>

theorem parse_raw_oid_make_obj:
  assumes "p \<noteq> []" "plain_field n" "plain_field i"
  shows "parse_raw_oid (object (make_obj b p n i)) = Some (p, encoded_instance i, n)"
  using assms by (simp add: make_obj_fields parse_mangle)

theorem parse_raw_oid_make_obj_witness:
  "parse_raw_oid (object (make_obj new_bucket ''_a_b'' ''multipart'' ''v1'')) = Some (''_a_b'', ''v1'', ''multipart'')"
  by (subst parse_raw_oid_make_obj) (simp_all add: plain_field_def encoded_instance_def)

text \<open>Whatever namespace and instance are asked for: a setter that refuses one leaves it empty.\<close>

definition accepted_field :: "string \<Rightarrow> string" where
  "accepted_field s = (if char_at s 0 = UND then [] else s)"

lemma make_obj_accepted:
  "p \<noteq> [] \<Longrightarrow> object (make_obj b p n i) = mangle (accepted_field n) (accepted_field i) p"
  "ns (make_obj b p n i) = accepted_field n" "inst (make_obj b p n i) = accepted_field i"
  by (simp_all add: make_obj_def keep_def set_instance_def obj_init_ns_def set_ns_def object_set_obj accepted_field_def new_obj_def)

lemma mangle_user_name:
  assumes "char_at n 0 \<noteq> UND" "char_at i 0 \<noteq> UND" "p \<noteq> []"
  shows "mangle [] [] p = mangle n i p' \<longleftrightarrow> p = p' \<and> n = [] \<and> encoded_instance i = []"
proof (cases "n = [] \<and> encoded_instance i = []")
  case True
  then show ?thesis by (cases p; cases p') (auto simp: mangle_def encoded_instance_def)
next
  case False
  define f where "f = n @ (if encoded_instance i = [] then [] else CHR '':'' # i)"
  have f: "f \<noteq> []" "hd f \<noteq> UND" using False assms(1) by (cases n; auto simp: f_def)+
  have "mangle n i p' = UND # f @ UND # p'" using False by (auto simp: mangle_def f_def)
  with f False assms(3) show ?thesis by (cases p; cases f) (auto simp: mangle_def encoded_instance_def)
qed

text \<open>C19: No object that a client names, outside of every namespace and without a version, is stored under
  the name of an object in an internal namespace or of a version of an object, whatever characters the
  names, the namespace and the instance contain: the stored names are equal only for the same object
  name, when the other object has no namespace and no instance either (or the null instance, which
  stands for none).\<close>

theorem object_names_distinct:
  assumes "p \<noteq> []" and "p' \<noteq> []"
  shows "object (make_obj b p [] []) = object (make_obj b p' n i) \<longleftrightarrow>
    p = p' \<and> ns (make_obj b p' n i) = [] \<and> encoded_instance (inst (make_obj b p' n i)) = []"
proof -
  have "char_at (accepted_field s) 0 \<noteq> UND" for s by (simp add: accepted_field_def)
  then have "mangle [] [] p = mangle (accepted_field n) (accepted_field i) p' \<longleftrightarrow>
      p = p' \<and> accepted_field n = [] \<and> encoded_instance (accepted_field i) = []"
    using assms by (intro mangle_user_name)
  moreover have "accepted_field [] = []" by (simp add: accepted_field_def)
  ultimately show ?thesis using assms by (simp add: make_obj_accepted)
qed

theorem object_names_distinct_witness:
  "object (make_obj new_bucket ''_multipart_x'' [] []) \<noteq> object (make_obj new_bucket ''x'' ''multipart'' [])"
  using object_names_distinct [of "''_multipart_x''" "''x''" new_bucket "''multipart''" "[]"] by simp

text \<open>Two versions can share a stored name when an instance contains an underscore, which \<^verbatim>\<open>set_instance\<close>
  refuses only in the first position.\<close>

lemma object_names_collide:
  "object (make_obj b ''c'' [] ''a_b'') = object (make_obj b ''b_c'' [] ''a'')"
  by (simp add: make_obj_accepted accepted_field_def mangle_def encoded_instance_def)

text \<open>The bucket index key of an object gives back the same object: name, namespace, instance and
  the name in the pool.\<close>

lemma from_index_key_get_index_key:
  assumes "p \<noteq> []" "plain_field n" "plain_field i"
  shows "let r = from_index_key b (get_index_key (make_obj b p n i)) new_obj in
    orig_obj r = p \<and> ns r = n \<and> inst r = i \<and> object r = object (make_obj b p n i)"
proof -
  let ?r = "from_index_key b (get_index_key (make_obj b p n i)) new_obj"
  have i: "char_at i 0 \<noteq> UND" and n: "char_at n 0 \<noteq> UND" using assms by (simp_all add: char_at_plain)
  have "c_str n = n" using assms(2) by (simp add: plain_field_def no_nul_def [symmetric])
  then have key: "okey_name (get_index_key (make_obj b p n i)) =
      (if n = [] then if char_at p 0 \<noteq> UND then p else UND # p else UND # n @ UND # p)"
      "okey_instance (get_index_key (make_obj b p n i)) = i"
    unfolding get_index_key_def get_index_key_name_def make_obj_fields(1-3) [OF assms(2,3)] by simp_all
  have "?r = (if n = [] then keep (set_instance i) (obj_init b p new_obj) else make_obj b p n i)"
  proof (cases "n = []")
    case True
    then show ?thesis
      using key assms(1) by (cases p) (auto simp: from_index_key_def Let_def)
  next
    case False
    have "find_from (\<lambda>c. c = UND) (UND # n @ UND # p) 1 = Some (length n + 1)"
      using assms(2) by (intro find_from_field(2)) (auto simp: plain_field_def)
    moreover have "char_at (n @ UND # p) 0 \<noteq> UND" using n False by (cases n) auto
    ultimately show ?thesis
      using key False by (simp add: from_index_key_def Let_def substr_def make_obj_def)
  qed
  then show ?thesis
    using assms i by (auto simp: Let_def keep_def set_instance_def obj_init_def object_set_obj make_obj_fields new_obj_def)
qed

end
