(* ===== verification/Rgw_Strings.thy ===== *)
theory Rgw_Strings
  imports Str_List
begin

text \<open>
  Small helpers of \<^verbatim>\<open>src/rgw/porting_common.cc\<close> and \<^verbatim>\<open>porting_common.h\<close>: unquoting,
  trimming, hexadecimal buffers, rounding of sizes, flag lists, random names and \<^verbatim>\<open>rgw_err\<close>.
\<close>

section \<open>Quotes and white space\<close>

fun unquote_len :: "string \<Rightarrow> nat \<Rightarrow> nat" where
  "unquote_len s len = (if len > 2 \<and> s ! (len - 1) = CHR '' '' then unquote_len s (len - 1) else len)"

declare unquote_len.simps [simp del]

definition rgw_string_unquote :: "string \<Rightarrow> string" where
  "rgw_string_unquote s =
     (if length s < 2 \<or> s ! 0 \<noteq> DQUOTE then s
      else let len = unquote_len s (length s) in
           if s ! (len - 1) \<noteq> DQUOTE then s else substr s 1 (len - 2))"

function trim_start :: "string \<Rightarrow> nat \<Rightarrow> nat" where
  "trim_start src start =
     (if start < length src \<and> isspace (src ! start) then trim_start src (start + 1) else start)"
  by pat_completeness auto

termination trim_start
  by (relation "measure (\<lambda>(src, start). length src - start)") auto

fun trim_end :: "string \<Rightarrow> nat \<Rightarrow> nat \<Rightarrow> nat" where
  "trim_end src start fin = (if fin > start \<and> isspace (src ! fin) then trim_end src start (fin - 1) else fin)"

declare trim_start.simps [simp del] trim_end.simps [simp del]

definition rgw_trim_whitespace :: "string \<Rightarrow> string" where
  "rgw_trim_whitespace src =
     (if src = [] then []
      else let start = trim_start src 0; fin = length src - 1 in
           if fin < start then []
           else let fin' = trim_end src start fin in substr src start (fin' - start + 1))"

definition rgw_trim_quotes :: "string \<Rightarrow> string" where
  "rgw_trim_quotes val =
     (let s = rgw_trim_whitespace val in
      if length s < 2 then s
      else if s ! 0 = DQUOTE \<and> s ! (length s - 1) = DQUOTE then substr s 1 (length s - 2)
      else s)"

section \<open>Hexadecimal buffers\<close>

definition buf_to_hex :: "string \<Rightarrow> string" where
  "buf_to_hex buf = concat (map (\<lambda>c. hex2_lower (byte c)) buf)"

definition hexdigit :: "char \<Rightarrow> int" where
  "hexdigit c =
     (if isdigit c then int (byte c) - 48
      else let u = toupper c in
           if 65 \<le> byte u \<and> byte u \<le> 70 then int (byte u) - 65 + 10 else - EINVAL)"

text \<open>Return value and the bytes written.\<close>

fun hex_to_buf :: "string \<Rightarrow> nat \<Rightarrow> string \<Rightarrow> int \<times> string" where
  "hex_to_buf [] len out = (int (length out), out)"
| "hex_to_buf (h # p) len out =
     (if length out \<ge> len then (- EINVAL, out)
      else let d = hexdigit h in
           if d < 0 then (d, out @ [NUL])
           else case p of
               [] \<Rightarrow> (- EINVAL, out @ [char_of (nat (d * 16))])
             | l # p' \<Rightarrow>
                 let d2 = hexdigit l in
                 if d2 < 0 then (- d2, out @ [char_of (nat (d * 16))])
                 else hex_to_buf p' len (out @ [char_of (nat (d * 16 + d2))]))"

section \<open>Sizes, flags, random names, errors\<close>

definition rgw_rounded_kb :: "uint64 \<Rightarrow> uint64" where
  "rgw_rounded_kb bytes = (bytes + 1023) div 1024"

definition rgw_rounded_objsize_kb :: "uint64 \<Rightarrow> uint64" where
  "rgw_rounded_objsize_kb bytes = ((bytes + 4095) AND (NOT 4095)) div 1024"

definition parse_list_of_flags :: "(string \<times> 32 word) list \<Rightarrow> string \<Rightarrow> 32 word" where
  "parse_list_of_flags mapping s =
     fold (\<lambda>t v. fold (\<lambda>(type_name, flag) v. if t = type_name then v OR flag else v) mapping v)
       (get_str_list s default_delims) 0"

definition op_type_mapping :: "(string \<times> 32 word) list" where
  "op_type_mapping = [(''*'', 7), (''read'', 1), (''write'', 2), (''delete'', 4)]"

definition rgw_parse_op_type_list :: "string \<Rightarrow> 32 word" where
  "rgw_parse_op_type_list s = parse_list_of_flags op_type_mapping s"

definition alphanum_table :: string where
  "alphanum_table = ''ABCDEFGHIJKLMNOPQRSTUVWXYZabcdefghijklmnopqrstuvwxyz0123456789-_''"

text \<open>The bytes the random source delivered are mapped to the table; the last one becomes the NUL.\<close>

definition gen_rand_alphanumeric :: "string result \<Rightarrow> string result" where
  "gen_rand_alphanumeric random =
     bind_res random (\<lambda>dest. Inr (map (\<lambda>c. alphanum_table ! (byte c AND 63)) (butlast dest) @ [NUL]))"

record rgw_err =
  http_ret :: int
  err_ret :: int
  s3_code :: string
  message :: string

definition err_clear :: "rgw_err \<Rightarrow> rgw_err" where
  "err_clear e = e\<lparr>http_ret := 200, err_ret := 0, s3_code := []\<rparr>"

definition err_is_clear :: "rgw_err \<Rightarrow> bool" where
  "err_is_clear e \<longleftrightarrow> http_ret e = 200"

definition err_is_err :: "rgw_err \<Rightarrow> bool" where
  "err_is_err e \<longleftrightarrow> \<not> (200 \<le> http_ret e \<and> http_ret e \<le> 399)"

section \<open>Trimming\<close>

lemma trim_start_eq: "n \<le> length s \<Longrightarrow> trim_start s n = n + length (takeWhile isspace (drop n s))"
proof (induction s n rule: trim_start.induct)
  case (1 s n)
  show ?case
  proof (cases "n < length s")
    case True
    then have "drop n s = s ! n # drop (Suc n) s" by (simp add: Cons_nth_drop_Suc)
    then show ?thesis using 1 True by (subst trim_start.simps) simp
  next
    case False
    then show ?thesis using 1 by (subst trim_start.simps) simp
  qed
qed

lemma trim_end_take:
  assumes "start \<le> fin" "fin < length s" "\<not> isspace (s ! start)"
  shows "substr s start (trim_end s start fin - start + 1) =
    rev (dropWhile isspace (rev (substr s start (fin - start + 1))))"
  using assms
proof (induction s start fin rule: trim_end.induct)
  case (1 s start fin)
  have snoc: "substr s start (fin - start + 1) = substr s start (fin - start) @ [s ! fin]"
    using 1(2,3) by (simp add: substr_def take_Suc_conv_app_nth)
  show ?case
  proof (cases "fin > start \<and> isspace (s ! fin)")
    case True
    then have "fin - 1 - start + 1 = fin - start" by linarith
    then show ?thesis using 1 True snoc by (subst trim_end.simps) simp
  next
    case False
    then have "\<not> isspace (s ! fin)" using 1 by (cases "fin = start") auto
    then show ?thesis using False snoc by (subst trim_end.simps) (auto simp: snoc)
  qed
qed

text \<open>Trimming removes exactly the white space at both ends.\<close>

lemma rgw_trim_whitespace_eq:
  "rgw_trim_whitespace s = rev (dropWhile isspace (rev (dropWhile isspace s)))"
proof -
  let ?start = "length (takeWhile isspace s)"
  have start: "trim_start s 0 = ?start" by (simp add: trim_start_eq)
  have dw: "dropWhile isspace s = drop ?start s" by (rule dropWhile_eq_drop)
  show ?thesis
  proof (cases "?start < length s")
    case True
    then have "\<not> isspace (s ! ?start)" by (rule nth_length_takeWhile)
    then have "substr s ?start (trim_end s ?start (length s - 1) - ?start + 1) =
        rev (dropWhile isspace (rev (substr s ?start (length s - 1 - ?start + 1))))"
      using True by (intro trim_end_take) auto
    moreover have "substr s ?start (length s - 1 - ?start + 1) = drop ?start s"
      using True by (simp add: substr_def)
    ultimately show ?thesis
      using True by (auto simp: rgw_trim_whitespace_def start Let_def dw)
  next
    case False
    then have "length s - 1 < ?start" if "s \<noteq> []" using that by (cases s) auto
    then show ?thesis using False by (auto simp: rgw_trim_whitespace_def start Let_def dw)
  qed
qed

section \<open>Hexadecimal round trip\<close>

lemma hexdigit_hex: "n < 16 \<Longrightarrow> hexdigit (hex_lower n) = int n"
proof -
  have "map hexdigit xdigits_lower = map int [0..<16]" by code_simp
  moreover assume "n < 16"
  ultimately have "map hexdigit xdigits_lower ! n = int n" by simp
  then show ?thesis using \<open>n < 16\<close> by (simp add: hex_lower_def)
qed

lemma hex_to_buf_hex:
  assumes "length out + length buf \<le> len"
  shows "hex_to_buf (buf_to_hex buf) len out = (int (length out + length buf), out @ buf)"
  using assms
proof (induction buf arbitrary: out)
  case (Cons c buf)
  have "int (byte c div 16) * 16 + int (byte c mod 16) = int (byte c)"
    by (simp only: zdiv_int zmod_int of_nat_numeral div_mult_mod_eq)
  then have "hex_to_buf (buf_to_hex (c # buf)) len out = hex_to_buf (buf_to_hex buf) len (out @ [c])"
    using Cons.prems hexdigit_hex [of "byte c div 16"] hexdigit_hex [of "byte c mod 16"]
    by (simp add: buf_to_hex_def hex2_lower_def Let_def del: of_nat_div of_nat_mod)
  then show ?case using Cons by simp
qed (simp add: buf_to_hex_def)

text \<open>A buffer printed in hexadecimal is read back unchanged into any buffer that has room for it,
  and its length is returned.\<close>

lemma hex_to_buf_buf_to_hex:
  assumes "length buf \<le> len"
  shows "hex_to_buf (buf_to_hex buf) len [] = (int (length buf), buf)"
  using hex_to_buf_hex [of "[]" buf len] assms by simp

text \<open>A malformed second digit is reported with a positive number: the caller takes it for the length of
  22 decoded bytes.\<close>

lemma hex_to_buf_error_looks_like_length: "fst (hex_to_buf ''0g'' 64 []) = 22"
  by code_simp

section \<open>Rounding\<close>

text \<open>Sizes are rounded up to whole kilobytes, and object sizes to whole blocks of four of them, as
  long as the addition does not overflow 64 bits.\<close>

lemma rgw_rounded:
  assumes "unat b + 4095 < 2 ^ 64"
  shows "unat (rgw_rounded_kb b) = (unat b + 1023) div 1024 \<and>
    unat (rgw_rounded_objsize_kb b) = 4 * ((unat b + 4095) div 4096)"
proof -
  have add: "unat (b + word_of_nat n) = unat b + n" if "n \<le> 4095" for n
    using assms that by (simp add: unat_word_ariths unat_of_nat)
  have kb: "unat (rgw_rounded_kb b) = (unat b + 1023) div 1024"
    using add [of 1023] by (simp add: rgw_rounded_kb_def unat_div)
  have "(b + 4095) AND NOT 4095 = push_bit 12 (drop_bit 12 (b + 4095))"
  proof (rule bit_word_eqI)
    have m: "(4095 :: uint64) = mask 12" by (simp add: mask_eq_exp_minus_1)
    show "bit ((b + 4095) AND NOT 4095) n = bit (push_bit 12 (drop_bit 12 (b + 4095))) n" if "n < LENGTH(64)" for n
      using that unfolding m
      by (auto simp: bit_and_iff bit_not_iff bit_mask_iff bit_push_bit_iff bit_drop_bit_eq)
  qed
  then have "unat ((b + 4095) AND NOT 4095) = take_bit 64 (push_bit 12 (drop_bit 12 (unat (b + 4095))))"
    by (simp add: unsigned_push_bit_eq unat_drop_bit_eq)
  also have "\<dots> = (unat b + 4095) div 4096 * 4096"
  proof -
    have "(unat b + 4095) div 4096 * 4096 < 2 ^ 64"
      using assms div_times_less_eq_dividend [of "unat b + 4095" 4096] by (rule le_less_trans [rotated])
    then show ?thesis
      using add [of 4095] by (simp add: push_bit_eq_mult drop_bit_eq_div take_bit_nat_eq_self)
  qed
  finally have "unat ((b + 4095) AND NOT 4095) = (unat b + 4095) div 4096 * 4096" .
  then show ?thesis using kb by (simp add: rgw_rounded_objsize_kb_def unat_div)
qed

end
