(* ===== verification/Acl.thy ===== *)
theory Acl
  imports Rgw_Types
begin

text \<open>
  Access control lists, \<^verbatim>\<open>src/rgw/porting_acl.h\<close> and \<^verbatim>\<open>porting_acl.cc\<close>.  Permission
  sets are 32-bit words.  Types and groups of grants are stored as the numbers that are encoded;
  \<open>get_type\<close> is the enumeration they are read as.
\<close>

section \<open>Permissions, grants\<close>

definition RGW_PERM_READ :: "32 word" where
  "RGW_PERM_READ = 0x01"

definition RGW_PERM_WRITE :: "32 word" where
  "RGW_PERM_WRITE = 0x02"

definition RGW_PERM_READ_ACP :: "32 word" where
  "RGW_PERM_READ_ACP = 0x04"

definition RGW_PERM_WRITE_ACP :: "32 word" where
  "RGW_PERM_WRITE_ACP = 0x08"

definition RGW_PERM_READ_OBJS :: "32 word" where
  "RGW_PERM_READ_OBJS = 0x10"

definition RGW_PERM_WRITE_OBJS :: "32 word" where
  "RGW_PERM_WRITE_OBJS = 0x20"

definition RGW_PERM_FULL_CONTROL :: "32 word" where
  "RGW_PERM_FULL_CONTROL = RGW_PERM_READ OR RGW_PERM_WRITE OR RGW_PERM_READ_ACP OR RGW_PERM_WRITE_ACP"

datatype ACLGranteeTypeEnum = ACL_TYPE_CANON_USER | ACL_TYPE_EMAIL_USER | ACL_TYPE_GROUP | ACL_TYPE_UNKNOWN

abbreviation (input) ACL_GROUP_NONE :: "32 word" where "ACL_GROUP_NONE \<equiv> 0"
abbreviation (input) ACL_GROUP_ALL_USERS :: "32 word" where "ACL_GROUP_ALL_USERS \<equiv> 1"
abbreviation (input) ACL_GROUP_AUTHENTICATED_USERS :: "32 word" where "ACL_GROUP_AUTHENTICATED_USERS \<equiv> 2"

definition type_num :: "ACLGranteeTypeEnum \<Rightarrow> 32 word" where
  "type_num t = (case t of ACL_TYPE_CANON_USER \<Rightarrow> 0 | ACL_TYPE_EMAIL_USER \<Rightarrow> 1 | ACL_TYPE_GROUP \<Rightarrow> 2 | ACL_TYPE_UNKNOWN \<Rightarrow> 3)"

definition get_type :: "32 word \<Rightarrow> ACLGranteeTypeEnum" where
  "get_type n = (if n = 0 then ACL_TYPE_CANON_USER else if n = 1 then ACL_TYPE_EMAIL_USER
     else if n = 2 then ACL_TYPE_GROUP else ACL_TYPE_UNKNOWN)"

record acl_grant =
  g_type :: "32 word"
  g_id :: string
  g_email :: string
  g_permission :: "32 word"
  g_name :: string
  g_group :: "32 word"

definition new_grant :: acl_grant where
  "new_grant = \<lparr>g_type = type_num ACL_TYPE_UNKNOWN, g_id = [], g_email = [], g_permission = 0, g_name = [],
     g_group = ACL_GROUP_NONE\<rparr>"

text \<open>\<^verbatim>\<open>get_id\<close>: whether there is one, and the string, which stays as it was for groups.\<close>

definition get_id :: "acl_grant \<Rightarrow> string \<Rightarrow> bool \<times> string" where
  "get_id g old =
     (case get_type (g_type g) of
        ACL_TYPE_EMAIL_USER \<Rightarrow> (True, g_email g)
      | ACL_TYPE_GROUP \<Rightarrow> (False, old)
      | _ \<Rightarrow> (True, g_id g))"

definition set_canon :: "string \<Rightarrow> string \<Rightarrow> 32 word \<Rightarrow> acl_grant \<Rightarrow> acl_grant" where
  "set_canon i n perm g = g\<lparr>g_type := type_num ACL_TYPE_CANON_USER, g_id := i, g_name := n, g_permission := perm\<rparr>"

definition set_group :: "32 word \<Rightarrow> 32 word \<Rightarrow> acl_grant \<Rightarrow> acl_grant" where
  "set_group grp perm g = g\<lparr>g_type := type_num ACL_TYPE_GROUP, g_group := grp, g_permission := perm\<rparr>"

section \<open>RGWAccessControlList\<close>

record acl_list =
  acl_user_map :: "(string \<times> 32 word) list"
  acl_group_map :: "(32 word \<times> 32 word) list"
  grant_map :: "(string \<times> acl_grant) list"

definition new_acl :: acl_list where
  "new_acl = \<lparr>acl_user_map = [], acl_group_map = [], grant_map = []\<rparr>"

text \<open>\<^verbatim>\<open>m[k] |= perm\<close>; a missing entry starts as 0.\<close>

definition map_or :: "'k :: linorder \<Rightarrow> 32 word \<Rightarrow> ('k \<times> 32 word) list \<Rightarrow> ('k \<times> 32 word) list" where
  "map_or k perm m = map_set plain k ((case map_get plain m k of None \<Rightarrow> 0 | Some v \<Rightarrow> v) OR perm) m"

definition add_grant_maps :: "acl_grant \<Rightarrow> acl_list \<Rightarrow> acl_list" where
  "add_grant_maps g a =
     (case get_type (g_type g) of
        ACL_TYPE_GROUP \<Rightarrow> a\<lparr>acl_group_map := map_or (g_group g) (g_permission g) (acl_group_map a)\<rparr>
      | _ \<Rightarrow> a\<lparr>acl_user_map := map_or (snd (get_id g [])) (g_permission g) (acl_user_map a)\<rparr>)"

definition add_grant :: "acl_grant \<Rightarrow> acl_list \<Rightarrow> acl_list" where
  "add_grant g a =
     add_grant_maps g (a\<lparr>grant_map := multimap_insert plain (snd (get_id g [])) g (grant_map a)\<rparr>)"

definition acl_get_perm :: "acl_list \<Rightarrow> string \<Rightarrow> 32 word \<Rightarrow> 32 word" where
  "acl_get_perm a i perm_mask =
     (case map_get plain (acl_user_map a) i of Some v \<Rightarrow> v AND perm_mask | None \<Rightarrow> 0)"

definition acl_get_group_perm :: "acl_list \<Rightarrow> 32 word \<Rightarrow> 32 word \<Rightarrow> 32 word" where
  "acl_get_group_perm a grp perm_mask =
     (case map_get plain (acl_group_map a) grp of Some v \<Rightarrow> v AND perm_mask | None \<Rightarrow> 0)"

text \<open>The grant map is not cleared.\<close>

definition acl_create_default :: "string \<Rightarrow> string \<Rightarrow> acl_list \<Rightarrow> acl_list" where
  "acl_create_default i n a =
     add_grant (set_canon i n RGW_PERM_FULL_CONTROL new_grant) (a\<lparr>acl_user_map := [], acl_group_map := []\<rparr>)"

section \<open>RGWAccessControlPolicy\<close>

record acl_owner =
  own_id :: string
  own_display_name :: string

record acl_policy =
  pol_acl :: acl_list
  pol_owner :: acl_owner

text \<open>\<^verbatim>\<open>compare_group_name\<close> is virtual: it is the argument \<open>cmp\<close>.\<close>

definition no_group_name :: "string \<Rightarrow> 32 word \<Rightarrow> bool" where
  "no_group_name i grp = False"

definition policy_get_perm :: "(string \<Rightarrow> 32 word \<Rightarrow> bool) \<Rightarrow> acl_policy \<Rightarrow> string \<Rightarrow> 32 word \<Rightarrow> 32 word" where
  "policy_get_perm cmp p i perm_mask =
     (let perm = acl_get_perm (pol_acl p) i perm_mask;
          perm = (if i = own_id (pol_owner p) then perm OR (perm_mask AND (RGW_PERM_READ_ACP OR RGW_PERM_WRITE_ACP)) else perm)
      in if perm = perm_mask then perm
         else if perm AND perm_mask \<noteq> perm_mask then
           let perm = perm OR acl_get_group_perm (pol_acl p) ACL_GROUP_ALL_USERS perm_mask
           in if \<not> cmp i ACL_GROUP_ALL_USERS
              then perm OR acl_get_group_perm (pol_acl p) ACL_GROUP_AUTHENTICATED_USERS perm_mask
              else perm
         else perm)"

definition verify_permission :: "(string \<Rightarrow> 32 word \<Rightarrow> bool) \<Rightarrow> acl_policy \<Rightarrow> string \<Rightarrow> 32 word \<Rightarrow> 32 word \<Rightarrow> bool" where
  "verify_permission cmp p uid user_perm_mask perm \<longleftrightarrow>
     (let test_perm = perm OR RGW_PERM_READ_OBJS OR RGW_PERM_WRITE_OBJS;
          policy_perm = policy_get_perm cmp p uid test_perm;
          policy_perm = (if policy_perm AND RGW_PERM_WRITE_OBJS \<noteq> 0
                         then policy_perm OR (RGW_PERM_WRITE OR RGW_PERM_WRITE_ACP) else policy_perm);
          policy_perm = (if policy_perm AND RGW_PERM_READ_OBJS \<noteq> 0
                         then policy_perm OR (RGW_PERM_READ OR RGW_PERM_READ_ACP) else policy_perm);
          acl_perm = policy_perm AND perm AND user_perm_mask
      in perm = acl_perm)"

definition policy_create_default :: "string \<Rightarrow> string \<Rightarrow> acl_policy \<Rightarrow> acl_policy" where
  "policy_create_default i n p =
     p\<lparr>pol_acl := acl_create_default i n (pol_acl p), pol_owner := \<lparr>own_id = i, own_display_name = n\<rparr>\<rparr>"

section \<open>Encodings\<close>

definition enc_acl_word :: "32 word \<Rightarrow> string" where
  "enc_acl_word w = encode_struct 2 2 (enc_u32 w)"

definition dec_acl_word :: "32 word decoder" where
  "dec_acl_word = decode_struct_legacy 2 2 2 0 (\<lambda>struct_v. dec_u32)"

definition enc_acl_grant :: "acl_grant \<Rightarrow> string" where
  "enc_acl_grant g =
     encode_struct 3 3
       (enc_acl_word (g_type g) @ enc_string (g_id g) @ enc_string '''' @ enc_string (g_email g) @
        enc_acl_word (g_permission g) @ enc_string (g_name g) @ enc_u32 (g_group g))"

definition RGW_URI_ALL_USERS :: string where
  "RGW_URI_ALL_USERS = ''http://acs.amazonaws.com/groups/global/AllUsers''"

definition RGW_URI_AUTH_USERS :: string where
  "RGW_URI_AUTH_USERS = ''http://acs.amazonaws.com/groups/global/AuthenticatedUsers''"

definition uri_to_group :: "string \<Rightarrow> 32 word" where
  "uri_to_group uri =
     (if uri = RGW_URI_ALL_USERS then ACL_GROUP_ALL_USERS
      else if uri = RGW_URI_AUTH_USERS then ACL_GROUP_AUTHENTICATED_USERS
      else ACL_GROUP_NONE)"

definition dec_acl_grant :: "acl_grant \<Rightarrow> acl_grant decoder" where
  "dec_acl_grant g0 =
     decode_struct_legacy 3 3 3 0 (\<lambda>struct_v.
       bind_dec dec_acl_word (\<lambda>t.
       bind_dec dec_string (\<lambda>i.
       bind_dec dec_string (\<lambda>uri.
       bind_dec dec_string (\<lambda>email.
       bind_dec dec_acl_word (\<lambda>perm.
       bind_dec dec_string (\<lambda>n.
       bind_dec (when_dec (struct_v > 1) dec_u32 (uri_to_group uri)) (\<lambda>grp.
         ret_dec \<lparr>g_type = t, g_id = i, g_email = email, g_permission = perm, g_name = n, g_group = grp\<rparr>))))))))"

definition enc_acl_list :: "acl_list \<Rightarrow> string" where
  "enc_acl_list a =
     encode_struct 3 3
       (enc_bool True @ enc_map enc_string enc_u32 (acl_user_map a) @ enc_map enc_string enc_acl_grant (grant_map a) @
        enc_map enc_u32 enc_u32 (acl_group_map a))"

text \<open>Version 1 without maps: they are rebuilt from the grants.\<close>

definition dec_acl_list :: "acl_list \<Rightarrow> acl_list decoder" where
  "dec_acl_list a0 =
     decode_struct_legacy 3 3 3 0 (\<lambda>struct_v.
       bind_dec dec_bool (\<lambda>maps_initialized.
       bind_dec (dec_map dec_string (\<lambda>_. dec_u32) 0) (\<lambda>users.
       bind_dec (dec_multimap dec_string dec_acl_grant new_grant) (\<lambda>grants.
       if struct_v \<ge> 2 then
         bind_dec (dec_map dec_u32 (\<lambda>_. dec_u32) 0) (\<lambda>groups.
           ret_dec \<lparr>acl_user_map = users, acl_group_map = groups, grant_map = grants\<rparr>)
       else
         let a = a0\<lparr>acl_user_map := users, grant_map := grants\<rparr>
         in ret_dec (if \<not> maps_initialized then fold (\<lambda>(k, g). add_grant_maps g) grants a else a)))))"

definition enc_acl_owner :: "acl_owner \<Rightarrow> string" where
  "enc_acl_owner w = encode_struct 2 2 (enc_string (own_id w) @ enc_string (own_display_name w))"

definition dec_acl_owner :: "acl_owner \<Rightarrow> acl_owner decoder" where
  "dec_acl_owner w0 =
     decode_struct_legacy 2 2 2 0 (\<lambda>struct_v.
       bind_dec dec_string (\<lambda>i. bind_dec dec_string (\<lambda>n. ret_dec \<lparr>own_id = i, own_display_name = n\<rparr>)))"

definition enc_acl_policy :: "acl_policy \<Rightarrow> string" where
  "enc_acl_policy p = encode_struct 2 2 (enc_acl_owner (pol_owner p) @ enc_acl_list (pol_acl p))"

definition dec_acl_policy :: "acl_policy \<Rightarrow> acl_policy decoder" where
  "dec_acl_policy p0 =
     decode_struct_legacy 2 2 2 0 (\<lambda>struct_v.
       bind_dec (dec_acl_owner (pol_owner p0)) (\<lambda>w. bind_dec (dec_acl_list (pol_acl p0)) (\<lambda>a.
         ret_dec \<lparr>pol_acl = a, pol_owner = w\<rparr>)))"

text \<open>\<^verbatim>\<open>decode_owner\<close> reads only the owner and skips the list.\<close>

definition dec_policy_owner :: "acl_policy \<Rightarrow> acl_policy decoder" where
  "dec_policy_owner p0 =
     decode_struct_legacy 2 2 2 0 (\<lambda>struct_v.
       bind_dec (dec_acl_owner (pol_owner p0)) (\<lambda>w. ret_dec (p0\<lparr>pol_owner := w\<rparr>)))"

section \<open>What the lists grant\<close>

definition perm_of :: "('k \<times> 32 word) list \<Rightarrow> 'k :: linorder \<Rightarrow> 32 word" where
  "perm_of m k = (case map_get plain m k of None \<Rightarrow> 0 | Some v \<Rightarrow> v)"

lemma perm_of_map_or:
  "ordered_map plain m \<Longrightarrow> perm_of (map_or k perm m) j = (if j = k then perm_of m k OR perm else perm_of m j)"
  by (simp add: perm_of_def map_or_def map_get_map_set)

lemma ordered_map_or: "ordered_map plain m \<Longrightarrow> ordered_map plain (map_or k perm m)"
  by (simp add: map_or_def ordered_map_set)

definition is_group_grant :: "acl_grant \<Rightarrow> bool" where
  "is_group_grant g \<longleftrightarrow> get_type (g_type g) = ACL_TYPE_GROUP"

definition grantee :: "acl_grant \<Rightarrow> string" where
  "grantee g = snd (get_id g [])"

text \<open>Some grant of the list gives the user, or the group, permission bit \<open>n\<close>.\<close>

definition user_granted :: "acl_list \<Rightarrow> string \<Rightarrow> nat \<Rightarrow> bool" where
  "user_granted a i n \<longleftrightarrow>
     (\<exists>g \<in> snd ` set (grant_map a). \<not> is_group_grant g \<and> grantee g = i \<and> bit (g_permission g) n)"

definition group_granted :: "acl_list \<Rightarrow> 32 word \<Rightarrow> nat \<Rightarrow> bool" where
  "group_granted a grp n \<longleftrightarrow>
     (\<exists>g \<in> snd ` set (grant_map a). is_group_grant g \<and> g_group g = grp \<and> bit (g_permission g) n)"

text \<open>The invariant of a list: its two lookup maps say what its grants say.\<close>

definition acl_inv :: "acl_list \<Rightarrow> bool" where
  "acl_inv a \<longleftrightarrow>
     ordered_map plain (acl_user_map a) \<and> ordered_map plain (acl_group_map a) \<and>
     ordered_multimap plain (grant_map a) \<and>
     (\<forall>i n. bit (perm_of (acl_user_map a) i) n \<longleftrightarrow> user_granted a i n) \<and>
     (\<forall>grp n. bit (perm_of (acl_group_map a) grp) n \<longleftrightarrow> group_granted a grp n)"

lemma add_grant_eq:
  "add_grant g a =
     (if is_group_grant g
      then a\<lparr>grant_map := multimap_insert plain (grantee g) g (grant_map a),
             acl_group_map := map_or (g_group g) (g_permission g) (acl_group_map a)\<rparr>
      else a\<lparr>grant_map := multimap_insert plain (grantee g) g (grant_map a),
             acl_user_map := map_or (grantee g) (g_permission g) (acl_user_map a)\<rparr>)"
  by (auto simp: add_grant_def add_grant_maps_def is_group_grant_def grantee_def
      split: ACLGranteeTypeEnum.splits)

lemma user_granted_add:
  "user_granted (add_grant g a) i n \<longleftrightarrow>
     user_granted a i n \<or> (\<not> is_group_grant g \<and> grantee g = i \<and> bit (g_permission g) n)"
  by (auto simp: user_granted_def add_grant_eq)

lemma group_granted_add:
  "group_granted (add_grant g a) grp n \<longleftrightarrow>
     group_granted a grp n \<or> (is_group_grant g \<and> g_group g = grp \<and> bit (g_permission g) n)"
  by (auto simp: group_granted_def add_grant_eq)

lemma acl_inv_add_grant: "acl_inv a \<Longrightarrow> acl_inv (add_grant g a)"
  unfolding acl_inv_def user_granted_add group_granted_add
  by (auto simp: add_grant_eq ordered_map_or perm_of_map_or ordered_multimap_insert bit_or_iff)

lemma acl_inv_new: "acl_inv new_acl"
  by (simp add: acl_inv_def new_acl_def perm_of_def user_granted_def group_granted_def ordered_multimap_def)

section \<open>The access decision\<close>

text \<open>What a policy allows a user: the grants to the user, the ACL permissions of the owner, the grants to
  everybody, and those to authenticated users unless the user is the anonymous one.\<close>

definition allowed :: "(string \<Rightarrow> 32 word \<Rightarrow> bool) \<Rightarrow> acl_policy \<Rightarrow> string \<Rightarrow> nat \<Rightarrow> bool" where
  "allowed cmp p uid n \<longleftrightarrow>
     user_granted (pol_acl p) uid n \<or> (uid = own_id (pol_owner p) \<and> n \<in> {2, 3}) \<or>
     group_granted (pol_acl p) ACL_GROUP_ALL_USERS n \<or>
     (\<not> cmp uid ACL_GROUP_ALL_USERS \<and> group_granted (pol_acl p) ACL_GROUP_AUTHENTICATED_USERS n)"

text \<open>The Swift permissions on the objects of a bucket (bits 4 and 5) imply the plain ones.\<close>

definition effective :: "(string \<Rightarrow> 32 word \<Rightarrow> bool) \<Rightarrow> acl_policy \<Rightarrow> string \<Rightarrow> nat \<Rightarrow> bool" where
  "effective cmp p uid n \<longleftrightarrow>
     allowed cmp p uid n \<or> (n \<in> {1, 3} \<and> allowed cmp p uid 5) \<or> (n \<in> {0, 2} \<and> allowed cmp p uid 4)"

lemma acl_get_perm_eq: "acl_get_perm a i m = perm_of (acl_user_map a) i AND m"
  "acl_get_group_perm a grp m = perm_of (acl_group_map a) grp AND m"
  by (simp_all add: acl_get_perm_def acl_get_group_perm_def perm_of_def split: option.splits)

lemma bit_of_exp: "w = 2 ^ k \<Longrightarrow> k < 32 \<Longrightarrow> bit w n \<longleftrightarrow> n = k" for w :: "32 word"
  by (auto simp: bit_exp_iff)

lemma bit_perms [simp]:
  "bit RGW_PERM_READ n \<longleftrightarrow> n = 0" "bit RGW_PERM_WRITE n \<longleftrightarrow> n = 1" "bit RGW_PERM_READ_ACP n \<longleftrightarrow> n = 2"
  "bit RGW_PERM_WRITE_ACP n \<longleftrightarrow> n = 3" "bit RGW_PERM_READ_OBJS n \<longleftrightarrow> n = 4" "bit RGW_PERM_WRITE_OBJS n \<longleftrightarrow> n = 5"
  by (rule bit_of_exp, (simp add: RGW_PERM_READ_def RGW_PERM_WRITE_def RGW_PERM_READ_ACP_def
      RGW_PERM_WRITE_ACP_def RGW_PERM_READ_OBJS_def RGW_PERM_WRITE_OBJS_def)[1], simp)+

lemma perm_eq_iff: "x = y \<longleftrightarrow> (\<forall>n. bit x n \<longleftrightarrow> bit y n)" for x :: "32 word"
  by (auto intro: bit_word_eqI)

lemma perm_bit_test: "w AND RGW_PERM_WRITE_OBJS \<noteq> 0 \<longleftrightarrow> bit w 5" "w AND RGW_PERM_READ_OBJS \<noteq> 0 \<longleftrightarrow> bit w 4"
  by (auto simp: perm_eq_iff bit_and_iff)

lemma bit_policy_get_perm:
  assumes "acl_inv (pol_acl p)"
  shows "bit (policy_get_perm cmp p i m) n \<longleftrightarrow> bit m n \<and> allowed cmp p i n"
proof -
  define own where "own = (if i = own_id (pol_owner p) then m AND (RGW_PERM_READ_ACP OR RGW_PERM_WRITE_ACP) else 0)"
  define base where "base = (perm_of (acl_user_map (pol_acl p)) i AND m) OR own"
  define grp where "grp = (perm_of (acl_group_map (pol_acl p)) ACL_GROUP_ALL_USERS AND m) OR
    (if cmp i ACL_GROUP_ALL_USERS then 0 else perm_of (acl_group_map (pol_acl p)) ACL_GROUP_AUTHENTICATED_USERS AND m)"
  have sub: "base AND m = base"
    by (rule bit_word_eqI) (auto simp: base_def own_def bit_and_iff bit_or_iff)
  have base: "(if i = own_id (pol_owner p)
      then (perm_of (acl_user_map (pol_acl p)) i AND m) OR (m AND (RGW_PERM_READ_ACP OR RGW_PERM_WRITE_ACP))
      else perm_of (acl_user_map (pol_acl p)) i AND m) = base"
    by (simp add: base_def own_def)
  have "policy_get_perm cmp p i m = (if base = m then base else base OR grp)"
    unfolding policy_get_perm_def acl_get_perm_eq Let_def base
    by (cases "base = m") (simp_all add: sub grp_def or.assoc)
  moreover have "bit grp n \<Longrightarrow> bit m n"
    by (auto simp: grp_def bit_or_iff bit_and_iff split: if_splits)
  ultimately have "bit (policy_get_perm cmp p i m) n \<longleftrightarrow> bit base n \<or> bit grp n"
    by (auto simp: bit_or_iff)
  also have "\<dots> \<longleftrightarrow> bit m n \<and> allowed cmp p i n"
    using assms unfolding base_def own_def grp_def allowed_def
    by (auto simp: acl_inv_def bit_or_iff bit_and_iff split: if_splits)
  finally show ?thesis .
qed

lemma verify_permission_bits:
  assumes "acl_inv (pol_acl p)"
  shows "verify_permission cmp p uid user_perm_mask perm \<longleftrightarrow>
    (\<forall>n. bit perm n \<longrightarrow> bit user_perm_mask n \<and> effective cmp p uid n)"
proof -
  define test where "test = perm OR RGW_PERM_READ_OBJS OR RGW_PERM_WRITE_OBJS"
  define q where "q = policy_get_perm cmp p uid test"
  define q1 where "q1 = (if bit q 5 then q OR (RGW_PERM_WRITE OR RGW_PERM_WRITE_ACP) else q)"
  define q2 where "q2 = (if bit q1 4 then q1 OR (RGW_PERM_READ OR RGW_PERM_READ_ACP) else q1)"
  have q: "bit q n \<longleftrightarrow> (bit perm n \<or> n = 4 \<or> n = 5) \<and> allowed cmp p uid n" for n
    unfolding q_def test_def using bit_policy_get_perm [OF assms] by (auto simp: bit_or_iff)
  have "bit q2 n \<longleftrightarrow> bit q n \<or> (n \<in> {1, 3} \<and> bit q 5) \<or> (n \<in> {0, 2} \<and> bit q 4)" for n
    by (auto simp: q1_def q2_def bit_or_iff)
  then have q2: "bit perm n \<and> bit q2 n \<longleftrightarrow> bit perm n \<and> effective cmp p uid n" for n
    using q by (auto simp: effective_def)
  have "verify_permission cmp p uid user_perm_mask perm \<longleftrightarrow> perm = q2 AND perm AND user_perm_mask"
    by (simp add: verify_permission_def Let_def perm_bit_test q1_def q2_def flip: q_def test_def)
  also have "\<dots> \<longleftrightarrow> (\<forall>n. bit perm n \<longrightarrow> bit user_perm_mask n \<and> bit q2 n)"
    by (auto simp: perm_eq_iff bit_and_iff)
  also have "\<dots> \<longleftrightarrow> (\<forall>n. bit perm n \<longrightarrow> bit user_perm_mask n \<and> effective cmp p uid n)"
    using q2 by blast
  finally show ?thesis .
qed

text \<open>C4: On a consistent list the access decision is exactly the policy: a set of permissions is granted
  if and only if every permission in it is within the mask of the user and is given by a grant to the
  user, by ownership (ACL permissions), by a grant to everybody or to authenticated users, or by a Swift
  permission that implies it.\<close>

theorem verify_permission_iff:
  assumes "acl_inv (pol_acl p)"
  shows "verify_permission cmp p uid user_perm_mask perm \<longleftrightarrow>
    (\<forall>n. bit perm n \<longrightarrow> bit user_perm_mask n \<and> effective cmp p uid n)"
  using assms by (rule verify_permission_bits)

lemma set_canon_simps [simp]:
  "is_group_grant (set_canon i n perm g) = False" "grantee (set_canon i n perm g) = i" "g_permission (set_canon i n perm g) = perm"
  by (simp_all add: is_group_grant_def grantee_def get_id_def set_canon_def get_type_def type_num_def)

lemma set_group_simps [simp]:
  "is_group_grant (set_group grp perm g)" "g_group (set_group grp perm g) = grp" "g_permission (set_group grp perm g) = perm"
  by (simp_all add: is_group_grant_def set_group_def get_type_def type_num_def)

lemma acl_inv_create_default:
  assumes "grant_map a = []"
  shows "acl_inv (acl_create_default i n a)"
proof -
  have "acl_inv (a\<lparr>acl_user_map := [], acl_group_map := []\<rparr>)"
    using assms by (simp add: acl_inv_def perm_of_def user_granted_def group_granted_def ordered_multimap_def)
  then show ?thesis unfolding acl_create_default_def by (rule acl_inv_add_grant)
qed

theorem verify_permission_iff_witness:
  "verify_permission no_group_name
     (policy_create_default ''joe'' ''Joe'' \<lparr>pol_acl = new_acl, pol_owner = \<lparr>own_id = [], own_display_name = []\<rparr>\<rparr>)
     ''joe'' RGW_PERM_FULL_CONTROL RGW_PERM_READ"
proof -
  let ?p = "policy_create_default ''joe'' ''Joe'' \<lparr>pol_acl = new_acl, pol_owner = \<lparr>own_id = [], own_display_name = []\<rparr>\<rparr>"
  have "acl_inv (pol_acl ?p)"
    by (simp add: policy_create_default_def acl_inv_create_default new_acl_def)
  from verify_permission_iff [OF this] show ?thesis
    by (auto simp: policy_create_default_def effective_def allowed_def acl_create_default_def
        user_granted_add RGW_PERM_FULL_CONTROL_def bit_or_iff)
qed

text \<open>C23: Adding a grant keeps the lookup maps of a list in agreement with its grants, and gives exactly
  the permissions of the grant in addition.\<close>

theorem add_grant_correct:
  assumes "acl_inv a"
  shows "acl_inv (add_grant g a) \<and>
    (\<forall>i n. bit (acl_get_perm (add_grant g a) i (-1)) n \<longleftrightarrow>
       user_granted a i n \<or> (\<not> is_group_grant g \<and> grantee g = i \<and> bit (g_permission g) n)) \<and>
    (\<forall>grp n. bit (acl_get_group_perm (add_grant g a) grp (-1)) n \<longleftrightarrow>
       group_granted a grp n \<or> (is_group_grant g \<and> g_group g = grp \<and> bit (g_permission g) n))"
proof -
  have inv: "acl_inv (add_grant g a)" using assms by (rule acl_inv_add_grant)
  then have "bit (perm_of (acl_user_map (add_grant g a)) i) n \<longleftrightarrow> user_granted (add_grant g a) i n"
    "bit (perm_of (acl_group_map (add_grant g a)) grp) n \<longleftrightarrow> group_granted (add_grant g a) grp n" for i grp n
    by (simp_all only: acl_inv_def)
  then show ?thesis using inv by (simp add: acl_get_perm_eq user_granted_add group_granted_add)
qed

theorem add_grant_correct_witness:
  "acl_inv (add_grant (set_group ACL_GROUP_ALL_USERS RGW_PERM_READ new_grant) new_acl)"
  using add_grant_correct [OF acl_inv_new] by blast

section \<open>Stored lists are read back\<close>

definition grant_ok :: "acl_grant \<Rightarrow> bool" where
  "grant_ok g \<longleftrightarrow> short (g_id g) \<and> short (g_email g) \<and> short (g_name g)"

definition acl_list_ok :: "acl_list \<Rightarrow> bool" where
  "acl_list_ok a \<longleftrightarrow>
     ordered_map plain (acl_user_map a) \<and> entries_ok short (\<lambda>_. True) (acl_user_map a) \<and>
     ordered_multimap plain (grant_map a) \<and> entries_ok short grant_ok (grant_map a) \<and>
     ordered_map plain (acl_group_map a)"

definition policy_ok :: "acl_policy \<Rightarrow> bool" where
  "policy_ok p \<longleftrightarrow> acl_list_ok (pol_acl p) \<and> short (own_id (pol_owner p)) \<and> short (own_display_name (pol_owner p))"

lemma dec_acl_word_enc [simp, codec_simps]: "dec_acl_word (enc_acl_word w @ bl) = Some (w, bl)"
  unfolding dec_acl_word_def enc_acl_word_def by (rule decode_struct_legacy_ok) simp_all

lemma dec_acl_grant_enc:
  "grant_ok g \<Longrightarrow> length (enc_acl_grant g) < size_limit \<Longrightarrow> dec_acl_grant g0 (enc_acl_grant g @ bl) = Some (g, bl)"
  unfolding dec_acl_grant_def enc_acl_grant_def
  by (drule encode_struct_payload, rule decode_struct_legacy_ok) (simp_all add: grant_ok_def)

interpretation grant: codec enc_acl_grant "dec_acl_grant g0" grant_ok for g0
  by (rule codec.intro) (erule (1) dec_acl_grant_enc, simp add: enc_acl_grant_def)

interpretation grant_multimap: map_codec enc_string dec_string short enc_acl_grant dec_acl_grant grant_ok
  by unfold_locales

interpretation group_map: map_codec enc_u32 dec_u32 "\<lambda>_. True" enc_u32 "\<lambda>_. dec_u32" "\<lambda>_. True"
  by unfold_locales

lemma dec_acl_list_enc:
  assumes "acl_list_ok a" and "length (enc_acl_list a) < size_limit"
  shows "dec_acl_list a0 (enc_acl_list a @ bl) = Some (a, bl)"
proof -
  note size = assms(2) [unfolded enc_acl_list_def, THEN encode_struct_payload]
  have "entries_ok (\<lambda>_. True) (\<lambda>_. True) (acl_group_map a)" by (simp add: entries_ok_def)
  then show ?thesis
    unfolding dec_acl_list_def enc_acl_list_def
    using assms(1) size
    by (intro decode_struct_legacy_ok [OF _ size])
      (simp_all add: acl_list_ok_def codec.roundtrip [OF caps_map.map_codec]
        codec.roundtrip [OF grant_multimap.multimap_codec] codec.roundtrip [OF group_map.map_codec])
qed

lemma dec_acl_owner_enc:
  "short (own_id w) \<Longrightarrow> short (own_display_name w) \<Longrightarrow> length (enc_acl_owner w) < size_limit \<Longrightarrow>
     dec_acl_owner w0 (enc_acl_owner w @ bl) = Some (w, bl)"
  unfolding dec_acl_owner_def enc_acl_owner_def
  by (drule encode_struct_payload, rule decode_struct_legacy_ok) simp_all

text \<open>C31: A stored access control policy is read back unchanged, over any old object; the reader that only
  wants the owner finds it and skips the list.\<close>

theorem dec_acl_policy_enc:
  assumes "policy_ok p" and "length (enc_acl_policy p) < size_limit"
  shows "dec_acl_policy p0 (enc_acl_policy p @ bl) = Some (p, bl) \<and>
    dec_policy_owner p0 (enc_acl_policy p @ bl) = Some (p0\<lparr>pol_owner := pol_owner p\<rparr>, bl)"
proof
  note size = assms(2) [unfolded enc_acl_policy_def, THEN encode_struct_payload]
  have ok: "short (own_id (pol_owner p))" "short (own_display_name (pol_owner p))" "acl_list_ok (pol_acl p)"
    using assms(1) by (simp_all add: policy_ok_def)
  show "dec_acl_policy p0 (enc_acl_policy p @ bl) = Some (p, bl)"
    unfolding dec_acl_policy_def enc_acl_policy_def
    using ok size by (intro decode_struct_legacy_ok [OF _ size]) (simp_all add: dec_acl_owner_enc dec_acl_list_enc)
  show "dec_policy_owner p0 (enc_acl_policy p @ bl) = Some (p0\<lparr>pol_owner := pol_owner p\<rparr>, bl)"
    unfolding dec_policy_owner_def enc_acl_policy_def
    using ok size by (intro decode_struct_legacy_extra [OF _ size]) (simp_all add: dec_acl_owner_enc)
qed

theorem dec_acl_policy_enc_witness:
  "let p = \<lparr>pol_acl = new_acl, pol_owner = \<lparr>own_id = ''joe'', own_display_name = ''Joe''\<rparr>\<rparr>
   in dec_acl_policy p (enc_acl_policy p @ ''x'') = Some (p, ''x'')"
proof -
  let ?p = "\<lparr>pol_acl = new_acl, pol_owner = \<lparr>own_id = ''joe'', own_display_name = ''Joe''\<rparr>\<rparr>"
  have "policy_ok ?p"
    by (simp add: policy_ok_def acl_list_ok_def new_acl_def short_def entries_ok_def ordered_multimap_def)
  moreover have "length (enc_acl_policy ?p) < size_limit"
    by (simp add: enc_acl_policy_def enc_acl_owner_def enc_acl_list_def new_acl_def enc_map_def enc_string_def
        length_encode_struct)
  ultimately show ?thesis using dec_acl_policy_enc [of ?p ?p "''x''"] by simp
qed

end
