(* ===== verification/Users.thy ===== *)
theory Users
  imports Rgw_Types
begin

text \<open>
  Users, \<^verbatim>\<open>src/rgw/porting_user.cc\<close> and \<^verbatim>\<open>porting_user.h\<close>: the anonymous user and the
  lookup of a user by its id.  Reading the system object of a user
  (\<^verbatim>\<open>rgw_get_system_obj\<close>, which ends in the file system) is the parameter \<open>get_obj\<close>: it gives
  the bytes of the object or an error code.
\<close>

abbreviation (input) EIO :: int where "EIO \<equiv> 5"

definition RGW_USER_ANON_ID :: string where
  "RGW_USER_ANON_ID = ''anonymous''"

definition enc_rgw_uid :: "string \<Rightarrow> string" where
  "enc_rgw_uid uid = enc_string uid"

definition dec_rgw_uid :: "string decoder" where
  "dec_rgw_uid = dec_string"

text \<open>The user information is the second part of the object; it may be missing.\<close>

definition rgw_get_user_info_by_uid :: "(string \<Rightarrow> string result) \<Rightarrow> string \<Rightarrow> user_info \<Rightarrow> user_info result" where
  "rgw_get_user_info_by_uid get_obj uid info =
     bind_res (get_obj uid) (\<lambda>bl.
       case dec_rgw_uid bl of
         None \<Rightarrow> Inl (- EIO)
       | Some (u, bl') \<Rightarrow>
           if u \<noteq> uid then Inl (- EIO)
           else if bl' = [] then Inr info
           else case dec_user_info info bl' of None \<Rightarrow> Inl (- EIO) | Some (info', _) \<Rightarrow> Inr info')"

definition rgw_get_anon_user :: "user_info \<Rightarrow> user_info" where
  "rgw_get_anon_user info = info\<lparr>user_id := RGW_USER_ANON_ID, display_name := [], access_keys := []\<rparr>"

definition rgw_user_is_authenticated :: "user_info \<Rightarrow> bool" where
  "rgw_user_is_authenticated info \<longleftrightarrow> user_id info \<noteq> RGW_USER_ANON_ID"

end
