(* ===== verification/Xml.thy ===== *)
theory Xml
  imports Std_Map
begin

text \<open>
  The XML object parser, \<^verbatim>\<open>src/rgw/porting_xml.cc\<close> and \<^verbatim>\<open>porting_xml.h\<close>.  Tokenizing is
  done by the expat library: it calls the handlers for start tags, character data and end tags, and
  is the parameter \<open>expat\<close> of \<open>parse\<close>.  The classes derived from \<^verbatim>\<open>XMLObj\<close> are a payload
  \<open>'p\<close> of the objects; \<open>alloc_obj\<close> and the virtual \<^verbatim>\<open>xml_end\<close> are arguments.

  The chain of parents from \<^verbatim>\<open>cur_obj\<close> to the root is the list \<open>open_objs\<close>, innermost first;
  an object joins the children of its parent when its end tag has been handled, which is before
  anything looks for it there.  A call on the null pointer \<^verbatim>\<open>cur_obj\<close>, and a cast to a class the
  object does not have, are the value \<^term>\<open>None\<close>.
\<close>

section \<open>Objects\<close>

datatype 'p xobj = XObj (obj_type: string) (obj_data: string) (attr_map: "(string \<times> string) list")
  (children: "(string \<times> 'p xobj) list") (payload: 'p)

definition xobj_start :: "(string \<Rightarrow> 'p) \<Rightarrow> string \<Rightarrow> (string \<times> string) list \<Rightarrow> 'p xobj" where
  "xobj_start alloc_obj el attr = XObj el [] (fold (\<lambda>(k, v). map_set plain k v) attr []) [] (alloc_obj el)"

definition xobj_handle_data :: "string \<Rightarrow> 'p xobj \<Rightarrow> 'p xobj" where
  "xobj_handle_data s ob = XObj (obj_type ob) (obj_data ob @ s) (attr_map ob) (children ob) (payload ob)"

definition add_child :: "string \<Rightarrow> 'p xobj \<Rightarrow> 'p xobj \<Rightarrow> 'p xobj" where
  "add_child el c ob =
     XObj (obj_type ob) (obj_data ob) (attr_map ob) (multimap_insert plain el c (children ob)) (payload ob)"

definition set_payload :: "'p \<Rightarrow> 'p xobj \<Rightarrow> 'p xobj" where
  "set_payload q ob = XObj (obj_type ob) (obj_data ob) (attr_map ob) (children ob) q"

definition get_attr :: "'p xobj \<Rightarrow> string \<Rightarrow> string option" where
  "get_attr ob n = map_get plain (attr_map ob) n"

text \<open>\<^verbatim>\<open>find\<close> is the range of the children with a name, in insertion order; \<^verbatim>\<open>find_first\<close> is its
  first element.\<close>

definition xml_find :: "(string \<times> 'p xobj) list \<Rightarrow> string \<Rightarrow> 'p xobj list" where
  "xml_find kids n = map snd (filter (\<lambda>(k, c). k = n) kids)"

definition find_first :: "(string \<times> 'p xobj) list \<Rightarrow> string \<Rightarrow> 'p xobj option" where
  "find_first kids n = map_get plain kids n"

section \<open>The parser\<close>

record 'p xparser =
  xml_buf :: string
  open_objs :: "'p xobj list"
  roots :: "(string \<times> 'p xobj) list"
  success :: bool

definition new_parser :: "'p xparser" where
  "new_parser = \<lparr>xml_buf = [], open_objs = [], roots = [], success = True\<rparr>"

definition parser_start :: "(string \<Rightarrow> 'p) \<Rightarrow> string \<Rightarrow> (string \<times> string) list \<Rightarrow> 'p xparser \<Rightarrow> 'p xparser" where
  "parser_start alloc_obj el attr p = p\<lparr>open_objs := xobj_start alloc_obj el attr # open_objs p\<rparr>"

definition parser_data :: "string \<Rightarrow> 'p xparser \<Rightarrow> 'p xparser option" where
  "parser_data s p =
     (case open_objs p of [] \<Rightarrow> None | ob # obs \<Rightarrow> Some (p\<lparr>open_objs := xobj_handle_data s ob # obs\<rparr>))"

text \<open>The finished object is attached to its parent, or to the parser.\<close>

definition attach :: "'p xobj \<Rightarrow> 'p xparser \<Rightarrow> 'p xparser" where
  "attach c p =
     (case open_objs p of
        [] \<Rightarrow> p\<lparr>roots := multimap_insert plain (obj_type c) c (roots p)\<rparr>
      | ob # obs \<Rightarrow> p\<lparr>open_objs := add_child (obj_type c) c ob # obs\<rparr>)"

text \<open>When the handler of the object fails, \<^verbatim>\<open>cur_obj\<close> stays where it is.\<close>

definition parser_end :: "('p xobj \<Rightarrow> (bool \<times> 'p) option) \<Rightarrow> string \<Rightarrow> 'p xparser \<Rightarrow> 'p xparser option" where
  "parser_end obj_end el p =
     (case open_objs p of
        [] \<Rightarrow> None
      | ob # obs \<Rightarrow>
          (case obj_end ob of
             None \<Rightarrow> None
           | Some (True, q) \<Rightarrow> Some (attach (set_payload q ob) (p\<lparr>open_objs := obs\<rparr>))
           | Some (False, q) \<Rightarrow> Some (p\<lparr>open_objs := set_payload q ob # obs, success := False\<rparr>)))"

datatype xevent = Start string "(string \<times> string) list" | Data string | End string

fun handle_event :: "(string \<Rightarrow> 'p) \<Rightarrow> ('p xobj \<Rightarrow> (bool \<times> 'p) option) \<Rightarrow> xevent \<Rightarrow> 'p xparser \<Rightarrow> 'p xparser option" where
  "handle_event alloc_obj obj_end (Start el attr) p = Some (parser_start alloc_obj el attr p)"
| "handle_event alloc_obj obj_end (Data s) p = parser_data s p"
| "handle_event alloc_obj obj_end (End el) p = parser_end obj_end el p"

fun handle_events :: "(string \<Rightarrow> 'p) \<Rightarrow> ('p xobj \<Rightarrow> (bool \<times> 'p) option) \<Rightarrow> xevent list \<Rightarrow> 'p xparser \<Rightarrow> 'p xparser option" where
  "handle_events alloc_obj obj_end [] p = Some p"
| "handle_events alloc_obj obj_end (e # es) p =
     Option.bind (handle_event alloc_obj obj_end e p) (handle_events alloc_obj obj_end es)"

text \<open>\<open>expat\<close> gives, for the text before, a new piece and whether it is the last, the calls that it makes
  and whether the text is well-formed so far.\<close>

definition parse_xml :: "(string \<Rightarrow> string \<Rightarrow> bool \<Rightarrow> xevent list \<times> bool) \<Rightarrow> (string \<Rightarrow> 'p) \<Rightarrow>
    ('p xobj \<Rightarrow> (bool \<times> 'p) option) \<Rightarrow> string \<Rightarrow> bool \<Rightarrow> 'p xparser \<Rightarrow> (bool \<times> 'p xparser) option" where
  "parse_xml expat alloc_obj obj_end s fin p =
     (let (es, ok) = expat (xml_buf p) s fin
      in map_option (\<lambda>p'. (ok \<and> success p', if ok then p' else p'\<lparr>success := False\<rparr>))
           (handle_events alloc_obj obj_end es (p\<lparr>xml_buf := xml_buf p @ s, success := True\<rparr>)))"

section \<open>Documents\<close>

text \<open>A document as a tree, and the calls expat makes for it.\<close>

datatype xtree = Txt string | Elem string "(string \<times> string) list" "xtree list"

fun events :: "xtree \<Rightarrow> xevent list" where
  "events (Txt s) = [Data s]"
| "events (Elem n attr ts) = Start n attr # concat (map events ts) @ [End n]"

text \<open>The text of a document, without any escaping.\<close>

fun render :: "xtree \<Rightarrow> string" where
  "render (Txt s) = s"
| "render (Elem n attr ts) =
     ''<'' @ n @ concat (map (\<lambda>(k, v). '' '' @ k @ ''='' @ DQUOTE # v @ [DQUOTE]) attr) @ ''>'' @
     concat (map render ts) @ ''</'' @ n @ ''>''"

text \<open>What the objects of a document are, read off the tree from the leaves up; \<^term>\<open>None\<close> when the
  handler of some object rejects it.\<close>

definition closed_obj :: "('p xobj \<Rightarrow> (bool \<times> 'p) option) \<Rightarrow> 'p xobj \<Rightarrow> 'p xobj option" where
  "closed_obj obj_end ob = (case obj_end ob of Some (True, q) \<Rightarrow> Some (set_payload q ob) | _ \<Rightarrow> None)"

fun add_item :: "(string \<Rightarrow> 'p) \<Rightarrow> ('p xobj \<Rightarrow> (bool \<times> 'p) option) \<Rightarrow> xtree \<Rightarrow> 'p xobj \<Rightarrow> 'p xobj option"
  and add_items :: "(string \<Rightarrow> 'p) \<Rightarrow> ('p xobj \<Rightarrow> (bool \<times> 'p) option) \<Rightarrow> xtree list \<Rightarrow> 'p xobj \<Rightarrow> 'p xobj option" where
  "add_item al fin (Txt s) ob = Some (xobj_handle_data s ob)"
| "add_item al fin (Elem n attr ts) ob =
     Option.bind (Option.bind (add_items al fin ts (xobj_start al n attr)) (closed_obj fin))
       (\<lambda>c. Some (add_child n c ob))"
| "add_items al fin [] ob = Some ob"
| "add_items al fin (t # ts) ob = Option.bind (add_item al fin t ob) (add_items al fin ts)"

definition build :: "(string \<Rightarrow> 'p) \<Rightarrow> ('p xobj \<Rightarrow> (bool \<times> 'p) option) \<Rightarrow> string \<Rightarrow> (string \<times> string) list \<Rightarrow> xtree list \<Rightarrow> 'p xobj option" where
  "build al fin n attr ts = Option.bind (add_items al fin ts (xobj_start al n attr)) (closed_obj fin)"

text \<open>The library may report a text in several pieces; it makes no difference.\<close>

fun merge_data :: "xevent list \<Rightarrow> xevent list" where
  "merge_data (Data s # Data t # es) = merge_data (Data (s @ t) # es)"
| "merge_data (e # es) = e # merge_data es"
| "merge_data [] = []"

lemma parser_data_append: "Option.bind (parser_data s p) (parser_data t) = parser_data (s @ t) p"
  by (auto simp: parser_data_def xobj_handle_data_def split: list.splits)

lemma handle_events_Cons:
  "handle_events al fin (e # es) = (\<lambda>p. Option.bind (handle_event al fin e p) (handle_events al fin es))"
  by (rule ext) simp

lemma handle_events_merge_data: "handle_events al fin (merge_data es) p = handle_events al fin es p"
proof (induction es arbitrary: p rule: merge_data.induct)
  case (1 s t es)
  have "handle_events al fin (Data s # Data t # es) p = handle_events al fin (Data (s @ t) # es) p"
    by (simp add: handle_events_Cons flip: parser_data_append)
  with 1 show ?case by simp
qed (simp_all cong: Option.bind_cong)

section \<open>Class safety and the tree of objects\<close>

text \<open>Every object has the class that \<open>alloc_obj\<close> gives for its element, and is registered under the name
  of its element.\<close>

function (sequential) well_typed :: "('p \<Rightarrow> 'c) \<Rightarrow> (string \<Rightarrow> 'p) \<Rightarrow> 'p xobj \<Rightarrow> bool" where
  "well_typed cls al (XObj t d a kids q) \<longleftrightarrow>
     cls q = cls (al t) \<and> list_all (\<lambda>p. obj_type (snd p) = fst p \<and> well_typed cls al (snd p)) kids"
  by pat_completeness auto
termination
  by (relation "measure (\<lambda>(cls, al, ob). size ob)")
    (auto simp: less_Suc_eq_le intro: size_list_estimation' [where f = "size_prod (\<lambda>_. 0) size"])

lemma well_typed_eq:
  "well_typed cls al ob \<longleftrightarrow> cls (payload ob) = cls (al (obj_type ob)) \<and>
     (\<forall>(n, c) \<in> set (children ob). obj_type c = n \<and> well_typed cls al c)"
  by (cases ob) (auto simp: list_all_iff)

lemmas xobj_defs = xobj_start_def xobj_handle_data_def add_child_def set_payload_def

lemma xobj_sel [simp]:
  "obj_type (xobj_start al n attr) = n" "children (xobj_start al n attr) = []" "payload (xobj_start al n attr) = al n"
  "obj_type (xobj_handle_data s ob) = obj_type ob" "children (xobj_handle_data s ob) = children ob"
  "payload (xobj_handle_data s ob) = payload ob" "obj_data (xobj_handle_data s ob) = obj_data ob @ s"
  "attr_map (xobj_handle_data s ob) = attr_map ob"
  "obj_type (add_child n c ob) = obj_type ob" "payload (add_child n c ob) = payload ob"
  "obj_data (add_child n c ob) = obj_data ob" "attr_map (add_child n c ob) = attr_map ob"
  "children (add_child n c ob) = multimap_insert plain n c (children ob)"
  "obj_type (set_payload q ob) = obj_type ob" "children (set_payload q ob) = children ob"
  "payload (set_payload q ob) = q" "obj_data (set_payload q ob) = obj_data ob" "attr_map (set_payload q ob) = attr_map ob"
  by (simp_all add: xobj_defs)

lemma well_typed_start: "well_typed cls al (xobj_start al n attr)"
  by (simp add: xobj_start_def)

lemma well_typed_handle_data: "well_typed cls al (xobj_handle_data s ob) = well_typed cls al ob"
  by (simp add: well_typed_eq [of _ _ "xobj_handle_data s ob"] well_typed_eq [of _ _ ob])

lemma well_typed_add_child:
  "well_typed cls al ob \<Longrightarrow> well_typed cls al c \<Longrightarrow> well_typed cls al (add_child (obj_type c) c ob)"
  by (simp add: well_typed_eq [of _ _ "add_child (obj_type c) c ob"] well_typed_eq [of _ _ ob])

lemma well_typed_set_payload:
  "well_typed cls al ob \<Longrightarrow> cls q = cls (payload ob) \<Longrightarrow> well_typed cls al (set_payload q ob)"
  by (simp add: well_typed_eq [of _ _ "set_payload q ob"] well_typed_eq [of _ _ ob])

definition parser_typed :: "('p \<Rightarrow> 'c) \<Rightarrow> (string \<Rightarrow> 'p) \<Rightarrow> 'p xparser \<Rightarrow> bool" where
  "parser_typed cls al p \<longleftrightarrow>
     list_all (well_typed cls al) (open_objs p) \<and> (\<forall>(n, c) \<in> set (roots p). obj_type c = n \<and> well_typed cls al c)"

lemma handle_events_append:
  "handle_events al fin (es @ fs) p = Option.bind (handle_events al fin es p) (handle_events al fin fs)"
  by (induction es arbitrary: p) (auto split: Option.bind_split)

text \<open>The contract between the parser and a family of object classes: on objects of the right classes the
  end handler makes no bad cast and keeps the class.\<close>

locale xml_classes =
  fixes alloc_obj :: "string \<Rightarrow> 'p" and obj_end :: "'p xobj \<Rightarrow> (bool \<times> 'p) option" and cls :: "'p \<Rightarrow> 'c"
  assumes end_typed: "well_typed cls alloc_obj ob \<Longrightarrow> \<exists>ok q. obj_end ob = Some (ok, q) \<and> cls q = cls (payload ob)"
begin

abbreviation typed :: "'p xparser \<Rightarrow> bool" where "typed \<equiv> parser_typed cls alloc_obj"

lemma typed_start: "typed p \<Longrightarrow> typed (parser_start alloc_obj n attr p)"
  by (simp add: parser_typed_def parser_start_def well_typed_start)

lemma typed_data:
  "typed p \<Longrightarrow> open_objs p = ob # obs \<Longrightarrow>
     parser_data s p = Some (p\<lparr>open_objs := xobj_handle_data s ob # obs\<rparr>) \<and> typed (p\<lparr>open_objs := xobj_handle_data s ob # obs\<rparr>)"
  by (simp add: parser_typed_def parser_data_def well_typed_handle_data)

lemma typed_attach: "typed p \<Longrightarrow> well_typed cls alloc_obj c \<Longrightarrow> typed (attach c p)"
  by (auto simp: parser_typed_def attach_def well_typed_add_child split: list.splits)

lemma typed_end:
  assumes "typed p" and "open_objs p = ob # obs"
  obtains p' where "parser_end obj_end n p = Some p'" and "typed p'" and "length (open_objs p') \<ge> length obs"
    and "success p' \<Longrightarrow> success p"
proof -
  have ob: "well_typed cls alloc_obj ob" and rest: "typed (p\<lparr>open_objs := obs\<rparr>)"
    using assms by (simp_all add: parser_typed_def)
  from end_typed [OF ob] obtain ok q where q: "obj_end ob = Some (ok, q)" "cls q = cls (payload ob)" by blast
  have wt: "well_typed cls alloc_obj (set_payload q ob)"
    using ob q(2) by (rule well_typed_set_payload)
  have "length (open_objs (attach (set_payload q ob) (p\<lparr>open_objs := obs\<rparr>))) = length obs"
    "success (attach (set_payload q ob) (p\<lparr>open_objs := obs\<rparr>)) = success p"
    by (auto simp: attach_def split: list.splits)
  then show ?thesis
    using that q(1) assms(2) typed_attach [OF rest wt] rest wt
    by (cases ok) (simp_all add: parser_end_def parser_typed_def)
qed

end

context xml_classes
begin

text \<open>From states with an open object, the calls succeed, close no more than they opened and never clear a
  failure.\<close>

definition nested :: "xevent list \<Rightarrow> bool" where
  "nested es \<longleftrightarrow> (\<forall>p. typed p \<and> open_objs p \<noteq> [] \<longrightarrow>
     (\<exists>p'. handle_events alloc_obj obj_end es p = Some p' \<and> typed p' \<and>
        length (open_objs p) \<le> length (open_objs p') \<and> (success p' \<longrightarrow> success p)))"

lemma nestedD:
  assumes "nested es" and "typed p" and "open_objs p \<noteq> []"
  obtains p' where "handle_events alloc_obj obj_end es p = Some p'" and "typed p'"
    and "length (open_objs p) \<le> length (open_objs p')" and "success p' \<Longrightarrow> success p"
  using assms unfolding nested_def by blast

lemma nested_open:
  assumes "nested es" and "typed p" and "open_objs p \<noteq> []"
  obtains p' where "handle_events alloc_obj obj_end es p = Some p'" and "typed p'" and "open_objs p' \<noteq> []"
proof -
  obtain p' where p': "handle_events alloc_obj obj_end es p = Some p'" "typed p'" "length (open_objs p) \<le> length (open_objs p')"
    using nestedD [OF assms] by blast
  then have "open_objs p' \<noteq> []" using assms(3) by (cases "open_objs p") auto
  with p' that show ?thesis by blast
qed

lemma nested_Nil: "nested []"
  by (simp add: nested_def)

lemma nested_append:
  assumes "nested es" and "nested fs"
  shows "nested (es @ fs)"
  unfolding nested_def
proof (intro allI impI, elim conjE)
  fix p assume p: "typed p" "open_objs p \<noteq> []"
  from nestedD [OF assms(1) p] obtain p1 where p1: "handle_events alloc_obj obj_end es p = Some p1" "typed p1"
    "length (open_objs p) \<le> length (open_objs p1)" "success p1 \<Longrightarrow> success p" by blast
  with p(2) have "open_objs p1 \<noteq> []" by auto
  from nestedD [OF assms(2) p1(2) this] obtain p2 where "handle_events alloc_obj obj_end fs p1 = Some p2" "typed p2"
    "length (open_objs p1) \<le> length (open_objs p2)" "success p2 \<Longrightarrow> success p1" by blast
  with p1 show "\<exists>p'. handle_events alloc_obj obj_end (es @ fs) p = Some p' \<and> typed p' \<and>
      length (open_objs p) \<le> length (open_objs p') \<and> (success p' \<longrightarrow> success p)"
    by (auto simp: handle_events_append)
qed

lemma element_calls:
  assumes "nested es" and "typed p"
  obtains p' where "handle_events alloc_obj obj_end (Start n attr # es @ [End m]) p = Some p'" and "typed p'"
    and "length (open_objs p) \<le> length (open_objs p')" and "success p' \<Longrightarrow> success p"
proof -
  let ?p = "parser_start alloc_obj n attr p"
  have "typed ?p" "open_objs ?p \<noteq> []" using assms(2) by (simp_all add: typed_start) (simp add: parser_start_def)
  from nestedD [OF assms(1) this] obtain p1 where p1: "handle_events alloc_obj obj_end es ?p = Some p1" "typed p1"
    "length (open_objs ?p) \<le> length (open_objs p1)" "success p1 \<Longrightarrow> success ?p" by blast
  obtain ob obs where obs: "open_objs p1 = ob # obs"
    using p1(3) by (cases "open_objs p1") (auto simp: parser_start_def)
  obtain p2 where "parser_end obj_end m p1 = Some p2" "typed p2" "length obs \<le> length (open_objs p2)" "success p2 \<Longrightarrow> success p1"
    using typed_end [OF p1(2) obs] by blast
  with p1 obs that show ?thesis by (auto simp: handle_events_append parser_start_def)
qed

lemma nested_concat: "(\<And>t. t \<in> set ts \<Longrightarrow> nested (events t)) \<Longrightarrow> nested (concat (map events ts))"
  by (induction ts) (auto simp: nested_Nil nested_append)

lemma nested_events: "nested (events t)"
proof (induction t)
  case (Txt s)
  show ?case unfolding nested_def
  proof (intro allI impI, elim conjE)
    fix p assume p: "typed p" "open_objs p \<noteq> []"
    then obtain ob obs where "open_objs p = ob # obs" by (cases "open_objs p") auto
    with typed_data [OF p(1) this]
    show "\<exists>p'. handle_events alloc_obj obj_end (events (Txt s)) p = Some p' \<and> typed p' \<and>
        length (open_objs p) \<le> length (open_objs p') \<and> (success p' \<longrightarrow> success p)" by auto
  qed
next
  case (Elem n attr ts)
  from element_calls [OF nested_concat, OF Elem.IH] show ?case
    unfolding nested_def events.simps by metis
qed

lemmas nested_items = nested_concat [OF nested_events]

end

context xml_classes
begin

text \<open>The calls turn the innermost open object into \<open>r\<close>, or end in a failure.\<close>

definition yields :: "xevent list \<Rightarrow> 'p xobj \<Rightarrow> 'p xobj option \<Rightarrow> bool" where
  "yields es ob r \<longleftrightarrow> (\<forall>p obs. typed p \<and> open_objs p = ob # obs \<longrightarrow>
     (case r of
        Some ob' \<Rightarrow> handle_events alloc_obj obj_end es p = Some (p\<lparr>open_objs := ob' # obs\<rparr>)
      | None \<Rightarrow> \<exists>p'. handle_events alloc_obj obj_end es p = Some p' \<and> \<not> success p'))"

lemma yields_Some:
  "yields es ob (Some ob') \<Longrightarrow> typed p \<Longrightarrow> open_objs p = ob # obs \<Longrightarrow>
     handle_events alloc_obj obj_end es p = Some (p\<lparr>open_objs := ob' # obs\<rparr>)"
  by (simp add: yields_def)

lemma yields_None:
  assumes "yields es ob None" and "typed p" and "open_objs p = ob # obs"
  obtains p' where "handle_events alloc_obj obj_end es p = Some p'" and "\<not> success p'"
  using assms unfolding yields_def by auto

lemma yields_append:
  assumes es: "nested es" "yields es ob r" and fs: "nested fs" "\<And>ob'. r = Some ob' \<Longrightarrow> yields fs ob' (k ob')"
  shows "yields (es @ fs) ob (Option.bind r k)"
  unfolding yields_def
proof (intro allI impI, elim conjE)
  fix p obs assume p: "typed p" "open_objs p = ob # obs"
  then have ne: "open_objs p \<noteq> []" by simp
  from nested_open [OF es(1) p(1) ne] obtain p1 where p1: "handle_events alloc_obj obj_end es p = Some p1" "typed p1"
    "open_objs p1 \<noteq> []" by blast
  from nestedD [OF fs(1) p1(2,3)] obtain p2 where p2: "handle_events alloc_obj obj_end fs p1 = Some p2" "success p2 \<Longrightarrow> success p1"
    by blast
  show "case Option.bind r k of
      Some ob' \<Rightarrow> handle_events alloc_obj obj_end (es @ fs) p = Some (p\<lparr>open_objs := ob' # obs\<rparr>)
    | None \<Rightarrow> \<exists>p'. handle_events alloc_obj obj_end (es @ fs) p = Some p' \<and> \<not> success p'"
  proof (cases r)
    case None
    with es(2) have "yields es ob None" by simp
    from yields_None [OF this p] obtain p' where "handle_events alloc_obj obj_end es p = Some p'" "\<not> success p'" .
    with p1(1) have "\<not> success p1" by simp
    with p2(2) have "\<not> success p2" by blast
    then show ?thesis using None p1(1) p2(1) by (simp add: handle_events_append)
  next
    case (Some ob1)
    with es(2) have "yields es ob (Some ob1)" by simp
    from yields_Some [OF this p] p1(1) have p1_eq: "p1 = p\<lparr>open_objs := ob1 # obs\<rparr>" by simp
    have run: "handle_events alloc_obj obj_end (es @ fs) p = handle_events alloc_obj obj_end fs p1"
      by (simp add: handle_events_append p1(1))
    show ?thesis
    proof (cases "k ob1")
      case None
      with fs(2) [OF Some] have "yields fs ob1 None" by simp
      moreover have "open_objs p1 = ob1 # obs" using p1_eq by simp
      ultimately obtain p3 where "handle_events alloc_obj obj_end fs p1 = Some p3" "\<not> success p3"
        using yields_None [OF _ p1(2)] by blast
      then show ?thesis unfolding run using Some None by simp
    next
      case (Some ob2)
      with fs(2) [OF \<open>r = Some ob1\<close>] have "yields fs ob1 (Some ob2)" by simp
      from yields_Some [OF this p1(2)] p1_eq have "handle_events alloc_obj obj_end fs p1 = Some (p\<lparr>open_objs := ob2 # obs\<rparr>)" by simp
      then show ?thesis unfolding run using Some \<open>r = Some ob1\<close> by simp
    qed
  qed
qed

lemma closed_calls:
  assumes "typed p" and "open_objs p = c # obs"
  shows "case closed_obj obj_end c of
      Some c' \<Rightarrow> parser_end obj_end n p = Some (attach c' (p\<lparr>open_objs := obs\<rparr>))
    | None \<Rightarrow> \<exists>p'. parser_end obj_end n p = Some p' \<and> \<not> success p'"
proof -
  have "well_typed cls alloc_obj c" using assms by (simp add: parser_typed_def)
  from end_typed [OF this] obtain ok q where "obj_end c = Some (ok, q)" by blast
  then show ?thesis using assms(2) by (cases ok) (auto simp: parser_end_def closed_obj_def)
qed

text \<open>An element whose content is handled as \<open>r\<close> is closed and attached, in any state.\<close>

lemma element_result:
  assumes "yields es (xobj_start alloc_obj n attr) r" and "nested es" and "typed p"
  shows "case Option.bind r (closed_obj obj_end) of
      Some c \<Rightarrow> handle_events alloc_obj obj_end (Start n attr # es @ [End m]) p = Some (attach c p)
    | None \<Rightarrow> \<exists>p'. handle_events alloc_obj obj_end (Start n attr # es @ [End m]) p = Some p' \<and> \<not> success p'"
proof -
  let ?p = "parser_start alloc_obj n attr p"
  have p: "typed ?p" "open_objs ?p = xobj_start alloc_obj n attr # open_objs p"
    using assms(3) by (simp_all add: typed_start) (simp add: parser_start_def)
  then have ne: "open_objs ?p \<noteq> []" by simp
  from nested_open [OF assms(2) p(1) ne] obtain p1 where p1: "handle_events alloc_obj obj_end es ?p = Some p1" "typed p1"
    "open_objs p1 \<noteq> []" by blast
  have run: "handle_events alloc_obj obj_end (Start n attr # es @ [End m]) p = parser_end obj_end m p1"
    using p1(1) by (cases "parser_end obj_end m p1") (simp_all add: handle_events_append)
  show ?thesis
  proof (cases r)
    case None
    with assms(1) have "yields es (xobj_start alloc_obj n attr) None" by simp
    from yields_None [OF this p] obtain p' where "handle_events alloc_obj obj_end es ?p = Some p'" "\<not> success p'" .
    with p1(1) have fail: "\<not> success p1" by simp
    obtain ob obs where "open_objs p1 = ob # obs" using p1(3) by (cases "open_objs p1") auto
    from typed_end [OF p1(2) this] obtain p2 where "parser_end obj_end m p1 = Some p2" "success p2 \<Longrightarrow> success p1" by blast
    then show ?thesis unfolding run using None fail by auto
  next
    case (Some c)
    with assms(1) have "yields es (xobj_start alloc_obj n attr) (Some c)" by simp
    from yields_Some [OF this p] p1(1) have p1_eq: "p1 = ?p\<lparr>open_objs := c # open_objs p\<rparr>" by simp
    then have eq: "p1\<lparr>open_objs := open_objs p\<rparr> = p" and c: "open_objs p1 = c # open_objs p" by (simp_all add: parser_start_def)
    from closed_calls [OF p1(2) c, of m, unfolded eq] Some show ?thesis unfolding run by simp
  qed
qed

end

lemma obj_type_add:
  "add_item al fin t ob = Some ob' \<Longrightarrow> obj_type ob' = obj_type ob"
  "add_items al fin ts ob = Some ob' \<Longrightarrow> obj_type ob' = obj_type ob"
  by (induction al fin t ob and al fin ts ob arbitrary: ob' and ob' rule: add_item_add_items.induct)
    (auto simp: bind_eq_Some_conv)

lemma obj_type_closed: "closed_obj fin ob = Some c \<Longrightarrow> obj_type c = obj_type ob"
  by (auto simp: closed_obj_def split: option.splits prod.splits bool.splits)

lemma obj_type_build: "build al fin n attr ts = Some c \<Longrightarrow> obj_type c = n"
  unfolding build_def bind_eq_Some_conv using obj_type_add(2) obj_type_closed by fastforce

context xml_classes
begin

lemma yields_concat:
  "(\<And>t ob. t \<in> set ts \<Longrightarrow> yields (events t) ob (add_item alloc_obj obj_end t ob)) \<Longrightarrow>
     yields (concat (map events ts)) ob (add_items alloc_obj obj_end ts ob)"
proof (induction ts arbitrary: ob)
  case Nil
  then show ?case by (simp add: yields_def)
next
  case (Cons t ts)
  have "yields (events t) ob (add_item alloc_obj obj_end t ob)"
    "yields (concat (map events ts)) ob' (add_items alloc_obj obj_end ts ob')" for ob'
    using Cons by simp_all
  then show ?case
    by (simp only: concat.simps list.map add_items.simps) (rule yields_append [OF nested_events _ nested_items])
qed

lemma yields_event: "yields (events t) ob (add_item alloc_obj obj_end t ob)"
proof (induction t arbitrary: ob)
  case (Txt s)
  then show ?case by (simp add: yields_def parser_data_def)
next
  case (Elem n attr ts)
  have content: "yields (concat (map events ts)) (xobj_start alloc_obj n attr) (add_items alloc_obj obj_end ts (xobj_start alloc_obj n attr))"
    by (rule yields_concat) (rule Elem.IH)
  have item: "add_item alloc_obj obj_end (Elem n attr ts) ob = map_option (\<lambda>c. add_child n c ob) (build alloc_obj obj_end n attr ts)"
    by (simp add: build_def map_conv_bind_option comp_def)
  show ?case
    unfolding yields_def item
  proof (intro allI impI, elim conjE)
    fix p obs assume p: "typed p" "open_objs p = ob # obs"
    note result = element_result [OF content nested_items p(1), of n, folded build_def events.simps]
    show "case map_option (\<lambda>c. add_child n c ob) (build alloc_obj obj_end n attr ts) of
        Some ob' \<Rightarrow> handle_events alloc_obj obj_end (events (Elem n attr ts)) p = Some (p\<lparr>open_objs := ob' # obs\<rparr>)
      | None \<Rightarrow> \<exists>p'. handle_events alloc_obj obj_end (events (Elem n attr ts)) p = Some p' \<and> \<not> success p'"
    proof (cases "build alloc_obj obj_end n attr ts")
      case None
      with result show ?thesis by simp
    next
      case (Some c)
      with result p(2) obj_type_build [OF Some] show ?thesis by (simp add: attach_def del: events.simps)
    qed
  qed
qed

lemmas yields_items = yields_concat [OF yields_event]

text \<open>The whole document: its objects, when every handler accepts, and a reported failure otherwise.\<close>

lemma document_result:
  assumes "typed p" and "open_objs p = []"
  shows "case build alloc_obj obj_end n attr ts of
      Some c \<Rightarrow> handle_events alloc_obj obj_end (events (Elem n attr ts)) p =
        Some (p\<lparr>roots := multimap_insert plain n c (roots p)\<rparr>)
    | None \<Rightarrow> \<exists>p'. handle_events alloc_obj obj_end (events (Elem n attr ts)) p = Some p' \<and> \<not> success p'"
proof -
  have result: "case build alloc_obj obj_end n attr ts of
      Some c \<Rightarrow> handle_events alloc_obj obj_end (events (Elem n attr ts)) p = Some (attach c p)
    | None \<Rightarrow> \<exists>p'. handle_events alloc_obj obj_end (events (Elem n attr ts)) p = Some p' \<and> \<not> success p'"
    unfolding build_def events.simps by (rule element_result [OF yields_items nested_items assms(1)])
  show ?thesis
  proof (cases "build alloc_obj obj_end n attr ts")
    case None
    with result show ?thesis by simp
  next
    case (Some c)
    with result assms(2) obj_type_build [OF Some] show ?thesis by (simp add: attach_def del: events.simps)
  qed
qed

end

end
