(* ===== verification/Xml_Text.thy ===== *)
theory Xml_Text
  imports Xml
begin

text \<open>
  What the parser of \<^verbatim>\<open>porting_xml.cc\<close> relies on from the XML library: for the text of a document whose
  names and texts need no escaping, expat makes the calls of the document.  A small tokenizer shows that
  this contract can be met.
\<close>

section \<open>Documents that need no escaping\<close>

text \<open>Printable characters that stand for themselves in text and in attribute values.\<close>

definition xml_char :: "char \<Rightarrow> bool" where
  "xml_char c \<longleftrightarrow> 32 \<le> byte c \<and> byte c < 127 \<and> c \<notin> {CHR ''<'', CHR ''>'', CHR ''&'', DQUOTE}"

definition xml_name_char :: "char \<Rightarrow> bool" where
  "xml_name_char c \<longleftrightarrow> isalpha c \<or> isdigit c \<or> c \<in> {CHR ''_'', CHR '':'', CHR ''-'', CHR ''.''}"

definition xml_name :: "string \<Rightarrow> bool" where
  "xml_name n \<longleftrightarrow> n \<noteq> [] \<and> isalpha (hd n) \<and> list_all xml_name_char n"

fun xml_clean :: "xtree \<Rightarrow> bool" where
  "xml_clean (Txt s) \<longleftrightarrow> s \<noteq> [] \<and> list_all xml_char s"
| "xml_clean (Elem n attr ts) \<longleftrightarrow> xml_name n \<and> distinct (map fst attr) \<and>
     list_all (\<lambda>(k, v). xml_name k \<and> list_all xml_char v) attr \<and> list_all xml_clean ts"

text \<open>The contract of the library: a whole document given in one piece is well-formed, and the calls are
  those of the document, up to the pieces in which a text arrives.\<close>

definition expat_reads :: "(string \<Rightarrow> string \<Rightarrow> bool \<Rightarrow> xevent list \<times> bool) \<Rightarrow> bool" where
  "expat_reads expat \<longleftrightarrow> (\<forall>n attr ts. xml_clean (Elem n attr ts) \<longrightarrow>
     (\<exists>es. expat [] (render (Elem n attr ts)) True = (es, True) \<and> merge_data es = merge_data (events (Elem n attr ts))))"

section \<open>A tokenizer that meets the contract\<close>

function tag_attrs :: "string \<Rightarrow> (string \<times> string) list" where
  "tag_attrs s =
     (if s = [] then []
      else
        let k = takeWhile (\<lambda>c. c \<noteq> CHR ''='') (tl s); r = drop (length k + 2) (tl s); v = takeWhile (\<lambda>c. c \<noteq> DQUOTE) r in
        (k, v) # tag_attrs (drop (length v + 1) r))"
  by auto
termination
  by (relation "measure length") (simp_all add: Let_def)

declare tag_attrs.simps [simp del]

definition tag_event :: "string \<Rightarrow> xevent" where
  "tag_event s =
     (if s \<noteq> [] \<and> hd s = CHR ''/'' then End (tl s)
      else Start (takeWhile (\<lambda>c. c \<noteq> CHR '' '') s) (tag_attrs (dropWhile (\<lambda>c. c \<noteq> CHR '' '') s)))"

function sax :: "string \<Rightarrow> xevent list" where
  "sax [] = []"
| "sax (c # s) =
     (if c = CHR ''<'' then tag_event (takeWhile (\<lambda>c. c \<noteq> CHR ''>'') s) # sax (tl (dropWhile (\<lambda>c. c \<noteq> CHR ''>'') s))
      else Data (c # takeWhile (\<lambda>c. c \<noteq> CHR ''<'') s) # sax (dropWhile (\<lambda>c. c \<noteq> CHR ''<'') s))"
  by pat_completeness auto
termination
  by (relation "measure length") (auto simp: less_Suc_eq_le intro: order_trans [OF diff_le_self] length_dropWhile_le)

definition sax_expat :: "string \<Rightarrow> string \<Rightarrow> bool \<Rightarrow> xevent list \<times> bool" where
  "sax_expat before s fin = (sax s, True)"

subsection \<open>Merging\<close>

fun add_data :: "xevent \<Rightarrow> xevent list \<Rightarrow> xevent list" where
  "add_data (Data s) (Data t # es) = Data (s @ t) # es"
| "add_data e es = e # es"

lemma add_data_append: "add_data (Data s) (add_data (Data t) es) = add_data (Data (s @ t)) es"
  by (cases "(Data t, es)" rule: add_data.cases) simp_all

lemma merge_data_Data: "merge_data (Data s # es) = add_data (Data s) (merge_data es)"
proof (induction es arbitrary: s)
  case (Cons e es)
  then show ?case by (cases e) (simp_all add: add_data_append)
qed simp

lemma merge_data_Cons: "merge_data (e # es) = add_data e (merge_data es)"
  by (cases e) (simp_all add: merge_data_Data)

lemma merge_data_cong: "merge_data es = merge_data fs \<Longrightarrow> merge_data (ds @ es) = merge_data (ds @ fs)"
  by (induction ds) (simp_all add: merge_data_Cons)

subsection \<open>The tokenizer on clean documents\<close>

lemma xml_char_plain: "list_all xml_char s \<Longrightarrow> set s \<inter> {CHR ''<'', CHR ''>'', DQUOTE} = {}"
  by (auto simp: list_all_iff xml_char_def)

lemma xml_name_plain:
  "xml_name n \<Longrightarrow> n \<noteq> [] \<and> hd n \<noteq> CHR ''/'' \<and> set n \<inter> {CHR ''<'', CHR ''>'', CHR ''='', CHR '' ''} = {}"
  by (auto simp: xml_name_def list_all_iff xml_name_char_def isalpha_def isupper_def islower_def isdigit_def)

definition attrs_text :: "(string \<times> string) list \<Rightarrow> string" where
  "attrs_text attr = concat (map (\<lambda>(k, v). '' '' @ k @ ''='' @ DQUOTE # v @ [DQUOTE]) attr)"

lemma tag_attrs_text:
  "list_all (\<lambda>(k, v). xml_name k \<and> list_all xml_char v) attr \<Longrightarrow> tag_attrs (attrs_text attr) = attr"
proof (induction attr)
  case Nil
  show ?case by (subst tag_attrs.simps) (simp add: attrs_text_def)
next
  case (Cons a attr)
  obtain k v where a: "a = (k, v)" by (cases a)
  have k: "takeWhile (\<lambda>c. c \<noteq> CHR ''='') (k @ ''='' @ r) = k" for r
    using xml_name_plain [of k] Cons.prems a by (subst takeWhile_append2) auto
  have v: "takeWhile (\<lambda>c. c \<noteq> DQUOTE) (v @ DQUOTE # r) = v" for r
    using xml_char_plain [of v] Cons.prems a by (subst takeWhile_append2) auto
  have "attrs_text (a # attr) = CHR '' '' # k @ ''='' @ DQUOTE # v @ DQUOTE # attrs_text attr"
    by (simp add: attrs_text_def a)
  with k [of "DQUOTE # v @ DQUOTE # attrs_text attr"] v Cons show ?case
    by (subst tag_attrs.simps) (simp add: Let_def a)
qed

lemma tag_event_start:
  assumes "xml_name n" and "list_all (\<lambda>(k, v). xml_name k \<and> list_all xml_char v) attr"
  shows "tag_event (n @ attrs_text attr) = Start n attr"
proof -
  have n: "n \<noteq> []" "hd n \<noteq> CHR ''/''" "\<forall>c \<in> set n. c \<noteq> CHR '' ''" using xml_name_plain [OF assms(1)] by auto
  have "attrs_text attr = [] \<or> hd (attrs_text attr) = CHR '' ''" by (cases attr) (auto simp: attrs_text_def)
  then have "takeWhile (\<lambda>c. c \<noteq> CHR '' '') (attrs_text attr) = []" "dropWhile (\<lambda>c. c \<noteq> CHR '' '') (attrs_text attr) = attrs_text attr"
    by (cases "attrs_text attr"; simp)+
  with n tag_attrs_text [OF assms(2)] show ?thesis by (simp add: tag_event_def)
qed

lemma tag_event_end: "tag_event (CHR ''/'' # n) = End n"
  by (simp add: tag_event_def)

lemma sax_tag: "CHR ''>'' \<notin> set s \<Longrightarrow> sax (CHR ''<'' # s @ CHR ''>'' # r) = tag_event s # sax r"
proof -
  assume "CHR ''>'' \<notin> set s"
  then have s: "\<forall>c \<in> set s. c \<noteq> CHR ''>''" by auto
  then have "takeWhile (\<lambda>c. c \<noteq> CHR ''>'') (s @ CHR ''>'' # r) = s" "dropWhile (\<lambda>c. c \<noteq> CHR ''>'') (s @ CHR ''>'' # r) = CHR ''>'' # r"
    by (simp_all add: takeWhile_append2 dropWhile_append2)
  then show ?thesis by simp
qed

lemma attrs_text_plain:
  "list_all (\<lambda>(k, v). xml_name k \<and> list_all xml_char v) attr \<Longrightarrow> CHR ''>'' \<notin> set (attrs_text attr)"
proof (induction attr)
  case (Cons a attr)
  then show ?case using xml_name_plain [of "fst a"] xml_char_plain [of "snd a"] by (cases a) (auto simp: attrs_text_def)
qed (simp add: attrs_text_def)

lemma sax_text:
  assumes "s \<noteq> []" and "CHR ''<'' \<notin> set s"
  shows "merge_data (sax (s @ r)) = merge_data (Data s # sax r)"
proof -
  obtain c t where s: "s = c # t" "c \<noteq> CHR ''<''" "\<forall>x \<in> set t. x \<noteq> CHR ''<''" using assms by (cases s) auto
  then have eq: "sax (s @ r) = Data (s @ takeWhile (\<lambda>c. c \<noteq> CHR ''<'') r) # sax (dropWhile (\<lambda>c. c \<noteq> CHR ''<'') r)"
    by (simp add: dropWhile_append2 takeWhile_append2)
  show ?thesis
  proof (cases r)
    case (Cons d r')
    then show ?thesis unfolding eq by (cases "d = CHR ''<''") simp_all
  qed (use eq in simp)
qed

lemma sax_render: "xml_clean t \<Longrightarrow> merge_data (sax (render t @ r)) = merge_data (events t @ sax r)"
proof (induction t arbitrary: r)
  case (Txt s)
  then show ?case using sax_text [of s r] xml_char_plain [of s] by auto
next
  case (Elem n attr ts)
  have items: "list_all xml_clean us \<Longrightarrow> set us \<subseteq> set ts \<Longrightarrow>
      merge_data (sax (concat (map render us) @ q)) = merge_data (concat (map events us) @ sax q)" for us q
  proof (induction us arbitrary: q)
    case (Cons u us)
    then have "merge_data (sax (render u @ concat (map render us) @ q)) = merge_data (events u @ sax (concat (map render us) @ q))"
      using Elem.IH [of u] by auto
    also have "\<dots> = merge_data (events u @ concat (map events us) @ sax q)"
      using Cons by (intro merge_data_cong) simp
    finally show ?case by simp
  qed simp
  have start: "sax (CHR ''<'' # (n @ attrs_text attr) @ CHR ''>'' # q) = Start n attr # sax q" for q
    using Elem.prems tag_event_start [of n attr] attrs_text_plain [of attr] xml_name_plain [of n] by (subst sax_tag) auto
  have fin: "sax (CHR ''<'' # (CHR ''/'' # n) @ CHR ''>'' # r) = End n # sax r"
    using Elem.prems xml_name_plain [of n] by (subst sax_tag) (auto simp: tag_event_end)
  have ev: "events (Elem n attr ts) @ sax r = Start n attr # concat (map events ts) @ End n # sax r" by simp
  have "render (Elem n attr ts) @ r =
      CHR ''<'' # (n @ attrs_text attr) @ CHR ''>'' # concat (map render ts) @ CHR ''<'' # (CHR ''/'' # n) @ CHR ''>'' # r"
    by (simp only: render.simps attrs_text_def append.simps append_assoc)
  then have "merge_data (sax (render (Elem n attr ts) @ r)) =
      merge_data (Start n attr # sax (concat (map render ts) @ CHR ''<'' # (CHR ''/'' # n) @ CHR ''>'' # r))"
    by (simp only: start)
  also have "\<dots> = merge_data (Start n attr # concat (map events ts) @ sax (CHR ''<'' # (CHR ''/'' # n) @ CHR ''>'' # r))"
    using items [of ts "CHR ''<'' # (CHR ''/'' # n) @ CHR ''>'' # r"] Elem.prems
    by (simp only: merge_data_Cons xml_clean.simps order_refl)
  finally show ?case unfolding fin ev .
qed

lemma sax_expat_reads: "expat_reads sax_expat"
  unfolding expat_reads_def
proof (intro allI impI)
  fix n attr ts
  assume "xml_clean (Elem n attr ts)"
  from sax_render [OF this, of "[]"]
  have "merge_data (sax (render (Elem n attr ts))) = merge_data (events (Elem n attr ts))"
    unfolding sax.simps(1) append_Nil2 .
  then show "\<exists>es. sax_expat [] (render (Elem n attr ts)) True = (es, True) \<and> merge_data es = merge_data (events (Elem n attr ts))"
    unfolding sax_expat_def by blast
qed

end
