(* ===== verification/Acl_S3.thy ===== *)
theory Acl_S3
  imports Acl Users Req_Info Rgw_Strings Xml_Text
begin

text \<open>
  S3 access control lists, \<^verbatim>\<open>src/rgw/porting_acl_s3.cc\<close> and \<^verbatim>\<open>porting_acl_s3.h\<close>: canned
  lists, lists from request headers, the XML form and its parser, and the check of a parsed policy.
  Users are looked up through \<open>get_obj\<close>, see \<^verbatim>\<open>Users\<close>.
\<close>

section \<open>XML output\<close>

definition RGW_PERM_ALL_S3 :: "32 word" where
  "RGW_PERM_ALL_S3 = RGW_PERM_FULL_CONTROL"

definition perm_to_xml :: "32 word \<Rightarrow> string" where
  "perm_to_xml flags =
     (if flags AND RGW_PERM_FULL_CONTROL = RGW_PERM_FULL_CONTROL then ''<Permission>FULL_CONTROL</Permission>''
      else
        (if flags AND RGW_PERM_READ \<noteq> 0 then ''<Permission>READ</Permission>'' else []) @
        (if flags AND RGW_PERM_WRITE \<noteq> 0 then ''<Permission>WRITE</Permission>'' else []) @
        (if flags AND RGW_PERM_READ_ACP \<noteq> 0 then ''<Permission>READ_ACP</Permission>'' else []) @
        (if flags AND RGW_PERM_WRITE_ACP \<noteq> 0 then ''<Permission>WRITE_ACP</Permission>'' else []))"

definition grantee_type_to_string :: "ACLGranteeTypeEnum \<Rightarrow> string" where
  "grantee_type_to_string t =
     (case t of
        ACL_TYPE_CANON_USER \<Rightarrow> ''CanonicalUser''
      | ACL_TYPE_EMAIL_USER \<Rightarrow> ''AmazonCustomerByEmail''
      | ACL_TYPE_GROUP \<Rightarrow> ''Group''
      | ACL_TYPE_UNKNOWN \<Rightarrow> ''unknown'')"

definition grantee_type_set :: "string option \<Rightarrow> ACLGranteeTypeEnum" where
  "grantee_type_set s =
     (case s of
        None \<Rightarrow> ACL_TYPE_UNKNOWN
      | Some s \<Rightarrow>
          if s = ''CanonicalUser'' then ACL_TYPE_CANON_USER
          else if s = ''AmazonCustomerByEmail'' then ACL_TYPE_EMAIL_USER
          else if s = ''Group'' then ACL_TYPE_GROUP
          else ACL_TYPE_UNKNOWN)"

definition group_to_uri :: "32 word \<Rightarrow> string option" where
  "group_to_uri grp =
     (if grp = ACL_GROUP_ALL_USERS then Some RGW_URI_ALL_USERS
      else if grp = ACL_GROUP_AUTHENTICATED_USERS then Some RGW_URI_AUTH_USERS
      else None)"

definition owner_to_xml :: "acl_owner \<Rightarrow> string" where
  "owner_to_xml w =
     (if own_id w = [] then []
      else ''<Owner>'' @ ''<ID>'' @ own_id w @ ''</ID>'' @
        (if own_display_name w \<noteq> [] then ''<DisplayName>'' @ own_display_name w @ ''</DisplayName>'' else []) @
        ''</Owner>'')"

definition xsi_attr :: string where
  "xsi_attr = ''http://www.w3.org/2001/XMLSchema-instance''"

definition grant_to_xml :: "acl_grant \<Rightarrow> string" where
  "grant_to_xml g =
     (if g_permission g AND RGW_PERM_ALL_S3 = 0 then []
      else ''<Grant>'' @ ''<Grantee xmlns:xsi='' @ DQUOTE # xsi_attr @ DQUOTE # '' xsi:type='' @
        DQUOTE # grantee_type_to_string (get_type (g_type g)) @ DQUOTE # ''>'' @
        (case get_type (g_type g) of
           ACL_TYPE_CANON_USER \<Rightarrow>
             ''<ID>'' @ g_id g @ ''</ID>'' @
             (if g_name g \<noteq> [] then ''<DisplayName>'' @ g_name g @ ''</DisplayName>'' else [])
         | ACL_TYPE_EMAIL_USER \<Rightarrow> ''<EmailAddress>'' @ g_email g @ ''</EmailAddress>''
         | ACL_TYPE_GROUP \<Rightarrow>
             (case group_to_uri (g_group g) of None \<Rightarrow> [] | Some uri \<Rightarrow> ''<URI>'' @ uri @ ''</URI>'')
         | ACL_TYPE_UNKNOWN \<Rightarrow> []) @
        ''</Grantee>'' @ perm_to_xml (g_permission g) @ ''</Grant>'')"

definition acl_to_xml :: "acl_list \<Rightarrow> string" where
  "acl_to_xml a = ''<AccessControlList>'' @ concat (map (\<lambda>(k, g). grant_to_xml g) (grant_map a)) @ ''</AccessControlList>''"

definition s3_xmlns :: string where
  "s3_xmlns = ''http://s3.amazonaws.com/doc/2006-03-01/''"

definition policy_to_xml :: "acl_policy \<Rightarrow> string" where
  "policy_to_xml p =
     ''<AccessControlPolicy xmlns='' @ DQUOTE # s3_xmlns @ DQUOTE # ''>'' @
     owner_to_xml (pol_owner p) @ acl_to_xml (pol_acl p) @ ''</AccessControlPolicy>''"

section \<open>XML input\<close>

text \<open>The classes of the parser, with the fields that are not those of \<^verbatim>\<open>XMLObj\<close>.  \<^verbatim>\<open>ACLID_S3\<close>,
  \<^verbatim>\<open>ACLURI_S3\<close>, \<^verbatim>\<open>ACLEmail_S3\<close>, \<^verbatim>\<open>ACLDisplayName_S3\<close> and \<^verbatim>\<open>ACLGrantee_S3\<close> add none and are
  read through \<^verbatim>\<open>XMLObj\<close> only.\<close>

datatype acl_class = XPlain | XPermission "32 word" | XOwner acl_owner | XGrant acl_grant | XList acl_list
  | XPolicy acl_policy

definition new_owner :: acl_owner where
  "new_owner = \<lparr>own_id = [], own_display_name = []\<rparr>"

definition new_policy :: acl_policy where
  "new_policy = \<lparr>pol_acl = new_acl, pol_owner = new_owner\<rparr>"

definition acl_alloc_obj :: "string \<Rightarrow> acl_class" where
  "acl_alloc_obj el =
     (if el = ''AccessControlPolicy'' then XPolicy new_policy
      else if el = ''Owner'' then XOwner new_owner
      else if el = ''AccessControlList'' then XList new_acl
      else if el = ''Grant'' then XGrant new_grant
      else if el = ''Permission'' then XPermission 0
      else XPlain)"

definition permission_xml_end :: "string \<Rightarrow> 32 word \<Rightarrow> bool \<times> 32 word" where
  "permission_xml_end s flags =
     (if strcaseeq s ''READ'' then (True, flags OR RGW_PERM_READ)
      else if strcaseeq s ''WRITE'' then (True, flags OR RGW_PERM_WRITE)
      else if strcaseeq s ''READ_ACP'' then (True, flags OR RGW_PERM_READ_ACP)
      else if strcaseeq s ''WRITE_ACP'' then (True, flags OR RGW_PERM_WRITE_ACP)
      else if strcaseeq s ''FULL_CONTROL'' then (True, flags OR RGW_PERM_FULL_CONTROL)
      else (False, flags))"

definition owner_xml_end :: "acl_class xobj \<Rightarrow> acl_owner \<Rightarrow> bool \<times> acl_owner" where
  "owner_xml_end ob w =
     (case find_first (children ob) ''ID'' of
        None \<Rightarrow> (False, w)
      | Some acl_id \<Rightarrow>
          (True, \<lparr>own_id = obj_data acl_id,
             own_display_name = (case find_first (children ob) ''DisplayName'' of None \<Rightarrow> [] | Some n \<Rightarrow> obj_data n)\<rparr>))"

text \<open>The identification of the grantee.  For a group the URI must be there, but the group is not set
  from it.\<close>

definition grantee_xml :: "acl_class xobj \<Rightarrow> acl_grant \<Rightarrow> bool \<times> acl_grant" where
  "grantee_xml gr g =
     (case get_type (g_type g) of
        ACL_TYPE_CANON_USER \<Rightarrow>
          (case find_first (children gr) ''ID'' of
             None \<Rightarrow> (False, g)
           | Some i \<Rightarrow>
               (True, g\<lparr>g_id := obj_data i,
                  g_name := (case find_first (children gr) ''DisplayName'' of None \<Rightarrow> g_name g | Some n \<Rightarrow> obj_data n)\<rparr>))
      | ACL_TYPE_GROUP \<Rightarrow> (find_first (children gr) ''URI'' \<noteq> None, g)
      | ACL_TYPE_EMAIL_USER \<Rightarrow>
          (case find_first (children gr) ''EmailAddress'' of
             None \<Rightarrow> (False, g)
           | Some e \<Rightarrow> (True, g\<lparr>g_email := obj_data e\<rparr>))
      | ACL_TYPE_UNKNOWN \<Rightarrow> (False, g))"

definition grant_xml_end :: "acl_class xobj \<Rightarrow> acl_grant \<Rightarrow> (bool \<times> acl_grant) option" where
  "grant_xml_end ob g =
     (case find_first (children ob) ''Grantee'' of
        None \<Rightarrow> Some (False, g)
      | Some gr \<Rightarrow>
          (case get_attr gr ''xsi:type'' of
             None \<Rightarrow> Some (False, g)
           | Some type_str \<Rightarrow>
               let g = g\<lparr>g_type := type_num (grantee_type_set (Some (c_str type_str)))\<rparr> in
               (case find_first (children ob) ''Permission'' of
                  None \<Rightarrow> Some (False, g)
                | Some pm \<Rightarrow>
                    (case payload pm of
                       XPermission flags \<Rightarrow>
                         Some (grantee_xml gr (g\<lparr>g_permission := flags, g_id := [], g_name := [], g_email := []\<rparr>))
                     | _ \<Rightarrow> None))))"

fun add_xml_grants :: "acl_class xobj list \<Rightarrow> acl_list \<Rightarrow> acl_list option" where
  "add_xml_grants [] a = Some a"
| "add_xml_grants (ob # obs) a =
     (case payload ob of XGrant g \<Rightarrow> add_xml_grants obs (add_grant g a) | _ \<Rightarrow> None)"

definition policy_xml_end :: "acl_class xobj \<Rightarrow> acl_policy \<Rightarrow> (bool \<times> acl_policy) option" where
  "policy_xml_end ob p =
     (case find_first (children ob) ''AccessControlList'' of
        None \<Rightarrow> Some (False, p)
      | Some l \<Rightarrow>
          (case payload l of
             XList a \<Rightarrow>
               (case find_first (children ob) ''Owner'' of
                  None \<Rightarrow> Some (False, p\<lparr>pol_acl := a\<rparr>)
                | Some w \<Rightarrow>
                    (case payload w of XOwner w \<Rightarrow> Some (True, p\<lparr>pol_acl := a, pol_owner := w\<rparr>) | _ \<Rightarrow> None))
           | _ \<Rightarrow> None))"

definition acl_xml_end :: "acl_class xobj \<Rightarrow> (bool \<times> acl_class) option" where
  "acl_xml_end ob =
     (case payload ob of
        XPlain \<Rightarrow> Some (True, XPlain)
      | XPermission flags \<Rightarrow> Some (map_prod id XPermission (permission_xml_end (obj_data ob) flags))
      | XOwner w \<Rightarrow> Some (map_prod id XOwner (owner_xml_end ob w))
      | XGrant g \<Rightarrow> map_option (map_prod id XGrant) (grant_xml_end ob g)
      | XList a \<Rightarrow> map_option (\<lambda>a'. (True, XList a')) (add_xml_grants (xml_find (children ob) ''Grant'') a)
      | XPolicy p \<Rightarrow> map_option (map_prod id XPolicy) (policy_xml_end ob p))"

section \<open>Lists from headers\<close>

definition acl_header_perms :: "(32 word \<times> string) list" where
  "acl_header_perms =
     [(RGW_PERM_READ, ''HTTP_X_AMZ_GRANT_READ''), (RGW_PERM_WRITE, ''HTTP_X_AMZ_GRANT_WRITE''),
      (RGW_PERM_READ_ACP, ''HTTP_X_AMZ_GRANT_READ_ACP''), (RGW_PERM_WRITE_ACP, ''HTTP_X_AMZ_GRANT_WRITE_ACP''),
      (RGW_PERM_FULL_CONTROL, ''HTTP_X_AMZ_GRANT_FULL_CONTROL'')]"

definition get_acl_header :: "rgw_env \<Rightarrow> 32 word \<times> string \<Rightarrow> string option" where
  "get_acl_header env perm = env_get env (snd perm) None"

text \<open>The lookup by e-mail address is commented out in the code: the grant goes to a new user object.\<close>

definition parse_grantee_str :: "(string \<Rightarrow> string result) \<Rightarrow> string \<Rightarrow> 32 word \<times> string \<Rightarrow> acl_grant \<Rightarrow> acl_grant result" where
  "parse_grantee_str get_obj grantee_str perm grant =
     bind_res (parse_key_value grantee_str (CHR ''='') [] []) (\<lambda>(id_type, id_val_quoted).
       let id_val = rgw_trim_quotes id_val_quoted; info = new_user in
       if strcaseeq id_type ''emailAddress'' then
         Inr (set_canon (user_id info) (display_name info) (fst perm) grant)
       else if strcaseeq id_type ''id'' then
         bind_res (rgw_get_user_info_by_uid get_obj id_val info) (\<lambda>info.
           Inr (set_canon (user_id info) (display_name info) (fst perm) grant))
       else if strcaseeq id_type ''uri'' then
         let gid = uri_to_group id_val in
         if gid = ACL_GROUP_NONE then Inl (- EINVAL) else Inr (set_group gid (fst perm) grant)
       else Inl (- EINVAL))"

fun parse_grantees :: "(string \<Rightarrow> string result) \<Rightarrow> 32 word \<times> string \<Rightarrow> string list \<Rightarrow> acl_grant list \<Rightarrow> acl_grant list result" where
  "parse_grantees get_obj perm [] grants = Inr grants"
| "parse_grantees get_obj perm (s # ss) grants =
     bind_res (parse_grantee_str get_obj s perm new_grant) (\<lambda>g. parse_grantees get_obj perm ss (grants @ [g]))"

definition parse_acl_header :: "(string \<Rightarrow> string result) \<Rightarrow> rgw_env \<Rightarrow> 32 word \<times> string \<Rightarrow> acl_grant list \<Rightarrow> acl_grant list result" where
  "parse_acl_header get_obj env perm grants =
     (case get_acl_header env perm of
        None \<Rightarrow> Inr grants
      | Some hacl \<Rightarrow> parse_grantees get_obj perm (get_str_list hacl '','') grants)"

text \<open>The group map is not cleared.\<close>

definition create_from_grants :: "acl_grant list \<Rightarrow> acl_list \<Rightarrow> int \<times> acl_list" where
  "create_from_grants grants a =
     (if grants = [] then (- EINVAL, a)
      else (0, fold add_grant grants (a\<lparr>acl_user_map := [], grant_map := []\<rparr>)))"

fun parse_acl_headers :: "(string \<Rightarrow> string result) \<Rightarrow> rgw_env \<Rightarrow> (32 word \<times> string) list \<Rightarrow> acl_grant list \<Rightarrow> acl_grant list result" where
  "parse_acl_headers get_obj env [] grants = Inr grants"
| "parse_acl_headers get_obj env (h # hs) grants =
     bind_res (parse_acl_header get_obj env h grants) (parse_acl_headers get_obj env hs)"

text \<open>After a bad header the function returns \<^verbatim>\<open>false\<close>, the number 0.\<close>

definition create_from_headers :: "(string \<Rightarrow> string result) \<Rightarrow> rgw_env \<Rightarrow> acl_owner \<Rightarrow> acl_policy \<Rightarrow> int \<times> acl_policy" where
  "create_from_headers get_obj env w p =
     (case parse_acl_headers get_obj env acl_header_perms [] of
        Inl _ \<Rightarrow> (0, p)
      | Inr grants \<Rightarrow>
          let (r, a) = create_from_grants grants (pol_acl p)
          in (r, p\<lparr>pol_acl := a, pol_owner := w\<rparr>))"

section \<open>Canned lists\<close>

definition acl_create_canned :: "acl_owner \<Rightarrow> acl_owner \<Rightarrow> string \<Rightarrow> acl_list \<Rightarrow> int \<times> acl_list" where
  "acl_create_canned owner bucket_owner canned_acl a =
     (let a = a\<lparr>acl_user_map := [], grant_map := []\<rparr>;
          bid = own_id bucket_owner;
          bname = own_display_name bucket_owner;
          a = add_grant (set_canon (own_id owner) (own_display_name owner) RGW_PERM_FULL_CONTROL new_grant) a
      in
      if canned_acl = [] \<or> canned_acl = ''private'' then (0, a)
      else if canned_acl = ''public-read'' then
        (0, add_grant (set_group ACL_GROUP_ALL_USERS RGW_PERM_READ new_grant) a)
      else if canned_acl = ''public-read-write'' then
        let g = set_group ACL_GROUP_ALL_USERS RGW_PERM_READ new_grant
        in (0, add_grant (set_group ACL_GROUP_ALL_USERS RGW_PERM_WRITE g) (add_grant g a))
      else if canned_acl = ''authenticated-read'' then
        (0, add_grant (set_group ACL_GROUP_AUTHENTICATED_USERS RGW_PERM_READ new_grant) a)
      else if canned_acl = ''bucket-owner-read'' then
        (0, if bid \<noteq> own_id owner then add_grant (set_canon bid bname RGW_PERM_READ new_grant) a else a)
      else if canned_acl = ''bucket-owner-full-control'' then
        (0, if bid \<noteq> own_id owner then add_grant (set_canon bid bname RGW_PERM_FULL_CONTROL new_grant) a else a)
      else (- EINVAL, a))"

definition policy_create_canned :: "acl_owner \<Rightarrow> acl_owner \<Rightarrow> string \<Rightarrow> acl_policy \<Rightarrow> int \<times> acl_policy" where
  "policy_create_canned owner bucket_owner canned_acl p =
     (let (r, a) = acl_create_canned owner bucket_owner canned_acl (pol_acl p)
      in (r, p\<lparr>pol_acl := a, pol_owner := owner\<rparr>))"

definition compare_group_name :: "string \<Rightarrow> 32 word \<Rightarrow> bool" where
  "compare_group_name i grp =
     (if grp = ACL_GROUP_ALL_USERS then i = RGW_USER_ANON_ID
      else if grp = ACL_GROUP_AUTHENTICATED_USERS then i = RGW_URI_AUTH_USERS
      else i = [])"

section \<open>Checking a parsed policy\<close>

text \<open>The grant that replaces a parsed one; none for grantees of unknown type.  The case of an e-mail
  grantee falls through to the canonical one with the empty user id.\<close>

definition rebuild_grant :: "(string \<Rightarrow> string result) \<Rightarrow> acl_grant \<Rightarrow> acl_grant option result" where
  "rebuild_grant get_obj g =
     (let canon = (\<lambda>uid.
        case rgw_get_user_info_by_uid get_obj uid new_user of
          Inl _ \<Rightarrow> Inl (- EINVAL)
        | Inr grant_user \<Rightarrow> Inr (Some (set_canon uid (display_name grant_user) (g_permission g) new_grant)))
      in case get_type (g_type g) of
        ACL_TYPE_EMAIL_USER \<Rightarrow> canon (user_id new_user)
      | ACL_TYPE_CANON_USER \<Rightarrow> canon (snd (get_id g []))
      | ACL_TYPE_GROUP \<Rightarrow> if group_to_uri (g_group g) = None then Inl (- EINVAL) else Inr (Some g)
      | ACL_TYPE_UNKNOWN \<Rightarrow> Inr None)"

fun rebuild_grants :: "(string \<Rightarrow> string result) \<Rightarrow> acl_grant list \<Rightarrow> acl_list \<Rightarrow> int \<times> acl_list" where
  "rebuild_grants get_obj [] a = (0, a)"
| "rebuild_grants get_obj (g # gs) a =
     (case rebuild_grant get_obj g of
        Inl e \<Rightarrow> (e, a)
      | Inr None \<Rightarrow> rebuild_grants get_obj gs a
      | Inr (Some g') \<Rightarrow> rebuild_grants get_obj gs (add_grant g' a))"

definition rebuild_as :: "(string \<Rightarrow> string result) \<Rightarrow> acl_owner \<Rightarrow> acl_policy \<Rightarrow> acl_policy \<Rightarrow> int \<times> acl_policy" where
  "rebuild_as get_obj w p dest =
     (case rgw_get_user_info_by_uid get_obj (own_id w) new_user of
        Inl _ \<Rightarrow> (- EINVAL, dest)
      | Inr owner_info \<Rightarrow>
          let (r, a) = rebuild_grants get_obj (map snd (grant_map (pol_acl p))) (pol_acl dest)
          in (r, dest\<lparr>pol_owner := \<lparr>own_id = own_id w, own_display_name = display_name owner_info\<rparr>, pol_acl := a\<rparr>))"

text \<open>The policy is the parsed object: its \<^verbatim>\<open>Owner\<close> element is looked up among the children.\<close>

definition policy_rebuild :: "(string \<Rightarrow> string result) \<Rightarrow> acl_owner option \<Rightarrow> acl_class xobj \<Rightarrow> acl_policy \<Rightarrow> (int \<times> acl_policy) option" where
  "policy_rebuild get_obj owner ob dest =
     (case (owner, payload ob, find_first (children ob) ''Owner'') of
        (None, _, _) \<Rightarrow> Some (- EINVAL, dest)
      | (Some w, XPolicy p, req) \<Rightarrow>
          (case map_option payload req of
             Some (XOwner rw) \<Rightarrow>
               if own_id rw \<noteq> [] \<and> own_id rw \<noteq> own_id w then Some (- EPERM, dest)
               else Some (rebuild_as get_obj w p dest)
           | None \<Rightarrow> Some (rebuild_as get_obj w p dest)
           | _ \<Rightarrow> None)
      | _ \<Rightarrow> None)"

section \<open>What a canned list grants\<close>

lemma bit_full_control [simp]: "bit RGW_PERM_FULL_CONTROL n \<longleftrightarrow> n < 4"
  by (auto simp: RGW_PERM_FULL_CONTROL_def bit_or_iff)

definition canned_names :: "string list" where
  "canned_names = ['''', ''private'', ''public-read'', ''public-read-write'', ''authenticated-read'',
     ''bucket-owner-read'', ''bucket-owner-full-control'']"

definition bucket_owner_bits :: "string \<Rightarrow> nat set" where
  "bucket_owner_bits c =
     (if c = ''bucket-owner-read'' then {0} else if c = ''bucket-owner-full-control'' then {0, 1, 2, 3} else {})"

definition group_bits :: "string \<Rightarrow> (32 word \<times> nat) set" where
  "group_bits c =
     (if c = ''public-read'' then {(ACL_GROUP_ALL_USERS, 0)}
      else if c = ''public-read-write'' then {(ACL_GROUP_ALL_USERS, 0), (ACL_GROUP_ALL_USERS, 1)}
      else if c = ''authenticated-read'' then {(ACL_GROUP_AUTHENTICATED_USERS, 0)} else {})"

lemma acl_inv_no_grants:
  "acl_group_map a = [] \<Longrightarrow> acl_inv (a\<lparr>acl_user_map := [], grant_map := []\<rparr>)"
  by (simp add: acl_inv_def perm_of_def user_granted_def group_granted_def ordered_multimap_def)

lemma granted_no_grants [simp]:
  "\<not> user_granted (a\<lparr>acl_user_map := [], grant_map := []\<rparr>) i n"
  "\<not> group_granted (a\<lparr>acl_user_map := [], grant_map := []\<rparr>) grp n"
  by (simp_all add: user_granted_def group_granted_def)

text \<open>C22: A canned list is accepted exactly when its name is one of the known ones.  Then its lookup maps
  agree with its grants, the owner has all permissions, the bucket owner and the groups have exactly those
  the name stands for, and nobody else has any.\<close>

theorem create_canned_grants:
  assumes "acl_group_map a = []" and "acl_create_canned w b c a = (r, a')"
  shows "r = (if c \<in> set canned_names then 0 else - EINVAL) \<and> acl_inv a' \<and>
    (\<forall>i n. user_granted a' i n \<longleftrightarrow> (i = own_id w \<and> n < 4) \<or> (i = own_id b \<and> n \<in> bucket_owner_bits c)) \<and>
    (\<forall>grp n. group_granted a' grp n \<longleftrightarrow> (grp, n) \<in> group_bits c)"
  using assms
  by (auto simp: acl_create_canned_def Let_def canned_names_def bucket_owner_bits_def group_bits_def
      acl_inv_add_grant acl_inv_no_grants user_granted_add group_granted_add split: if_splits)

theorem create_canned_grants_witness:
  "fst (acl_create_canned \<lparr>own_id = ''joe'', own_display_name = ''Joe''\<rparr> new_owner ''public-read'' new_acl) = 0"
  using create_canned_grants [of new_acl "\<lparr>own_id = ''joe'', own_display_name = ''Joe''\<rparr>" new_owner "''public-read''"
      "fst (acl_create_canned \<lparr>own_id = ''joe'', own_display_name = ''Joe''\<rparr> new_owner ''public-read'' new_acl)"
      "snd (acl_create_canned \<lparr>own_id = ''joe'', own_display_name = ''Joe''\<rparr> new_owner ''public-read'' new_acl)"]
  by (simp add: new_acl_def canned_names_def)

text \<open>A list that is replaced by the private canned list keeps its group permissions: a list that was
  public stays readable by everybody.\<close>

lemma canned_private_keeps_groups:
  "acl_get_group_perm (snd (acl_create_canned w b ''private'' a)) grp m = acl_get_group_perm a grp m"
  by (simp add: acl_create_canned_def Let_def add_grant_eq acl_get_group_perm_def)

section \<open>The parser of policies makes no bad cast\<close>

fun class_of :: "acl_class \<Rightarrow> nat" where
  "class_of XPlain = 0"
| "class_of (XPermission _) = 6"
| "class_of (XOwner _) = 2"
| "class_of (XGrant _) = 3"
| "class_of (XList _) = 4"
| "class_of (XPolicy _) = 5"

lemma class_of_iff:
  "class_of q = 6 \<longleftrightarrow> (\<exists>f. q = XPermission f)" "class_of q = 2 \<longleftrightarrow> (\<exists>w. q = XOwner w)"
  "class_of q = 3 \<longleftrightarrow> (\<exists>g. q = XGrant g)" "class_of q = 4 \<longleftrightarrow> (\<exists>a. q = XList a)" "class_of q = 5 \<longleftrightarrow> (\<exists>p. q = XPolicy p)"
  by (cases q; simp)+

lemma find_first_in: "find_first kids n = Some c \<Longrightarrow> (n, c) \<in> set kids"
  by (induction kids) (auto simp: find_first_def split: if_splits)

lemma find_first_typed:
  assumes "well_typed class_of acl_alloc_obj ob" and "find_first (children ob) n = Some c"
  shows "class_of (payload c) = class_of (acl_alloc_obj n) \<and> well_typed class_of acl_alloc_obj c"
proof -
  have "(n, c) \<in> set (children ob)"
    using assms(2) by (rule find_first_in)
  then show ?thesis
    using assms(1) well_typed_eq [of class_of acl_alloc_obj ob] well_typed_eq [of class_of acl_alloc_obj c] by auto
qed

lemma alloc_classes [simp]:
  "class_of (acl_alloc_obj ''Permission'') = 6" "class_of (acl_alloc_obj ''Owner'') = 2" "class_of (acl_alloc_obj ''Grant'') = 3"
  "class_of (acl_alloc_obj ''AccessControlList'') = 4" "class_of (acl_alloc_obj ''AccessControlPolicy'') = 5"
  by (simp_all add: acl_alloc_obj_def)

lemma add_xml_grants_typed:
  "(\<And>c. c \<in> set obs \<Longrightarrow> class_of (payload c) = 3) \<Longrightarrow> \<exists>a'. add_xml_grants obs a = Some a'"
proof (induction obs arbitrary: a)
  case (Cons ob obs)
  then have "class_of (payload ob) = 3" by simp
  then obtain g where "payload ob = XGrant g" by (auto simp: class_of_iff)
  with Cons show ?case by simp
qed simp

lemma grant_xml_end_typed:
  assumes "well_typed class_of acl_alloc_obj ob"
  shows "\<exists>ok g'. grant_xml_end ob g = Some (ok, g')"
proof -
  have "\<exists>f. payload c = XPermission f" if "find_first (children ob) ''Permission'' = Some c" for c
    using find_first_typed [OF assms that] by (simp add: class_of_iff)
  then show ?thesis by (fastforce simp: grant_xml_end_def Let_def split: option.splits)
qed

lemma policy_xml_end_typed:
  assumes "well_typed class_of acl_alloc_obj ob"
  shows "\<exists>ok p'. policy_xml_end ob p = Some (ok, p')"
proof -
  have "\<exists>a. payload c = XList a" if "find_first (children ob) ''AccessControlList'' = Some c" for c
    using find_first_typed [OF assms that] by (simp add: class_of_iff)
  moreover have "\<exists>w. payload c = XOwner w" if "find_first (children ob) ''Owner'' = Some c" for c
    using find_first_typed [OF assms that] by (simp add: class_of_iff)
  ultimately show ?thesis by (fastforce simp: policy_xml_end_def split: option.splits)
qed

lemma xml_find_typed:
  "well_typed class_of acl_alloc_obj ob \<Longrightarrow> c \<in> set (xml_find (children ob) ''Grant'') \<Longrightarrow> class_of (payload c) = 3"
  using well_typed_eq [of class_of acl_alloc_obj ob] well_typed_eq [of class_of acl_alloc_obj c]
  by (auto simp: xml_find_def)

interpretation acl_xml: xml_classes acl_alloc_obj acl_xml_end class_of
proof
  fix ob assume ob: "well_typed class_of acl_alloc_obj ob"
  show "\<exists>ok q. acl_xml_end ob = Some (ok, q) \<and> class_of q = class_of (payload ob)"
  proof (cases "payload ob")
    case (XGrant g)
    with grant_xml_end_typed [OF ob, of g] show ?thesis by (auto simp: acl_xml_end_def)
  next
    case (XList a)
    obtain a' where "add_xml_grants (xml_find (children ob) ''Grant'') a = Some a'"
      using add_xml_grants_typed xml_find_typed [OF ob] by blast
    with XList show ?thesis by (auto simp: acl_xml_end_def)
  next
    case (XPolicy p)
    with policy_xml_end_typed [OF ob, of p] show ?thesis by (auto simp: acl_xml_end_def)
  qed (auto simp: acl_xml_end_def map_prod_def case_prod_beta)
qed

lemma parser_typed_new: "parser_typed cls al (new_parser\<lparr>xml_buf := s\<rparr>)"
  by (simp add: parser_typed_def new_parser_def)

lemma acl_parse_doc:
  assumes "merge_data (fst (expat [] s True)) = merge_data (events (Elem n attr ts))" and "snd (expat [] s True)"
  shows "\<exists>p'. parse_xml expat acl_alloc_obj acl_xml_end s True new_parser =
      Some (build acl_alloc_obj acl_xml_end n attr ts \<noteq> None, p') \<and>
    (\<forall>ob. build acl_alloc_obj acl_xml_end n attr ts = Some ob \<longrightarrow> find_first (roots p') n = Some ob)"
proof -
  let ?p = "new_parser\<lparr>xml_buf := s\<rparr>"
  obtain es where es: "expat [] s True = (es, True)" using assms(2) by (cases "expat [] s True") simp
  have "handle_events acl_alloc_obj acl_xml_end es ?p = handle_events acl_alloc_obj acl_xml_end (events (Elem n attr ts)) ?p"
    using assms(1) es handle_events_merge_data by (metis fst_conv)
  then have run: "parse_xml expat acl_alloc_obj acl_xml_end s True new_parser =
      map_option (\<lambda>p'. (success p', p')) (handle_events acl_alloc_obj acl_xml_end (events (Elem n attr ts)) ?p)"
    by (simp add: parse_xml_def es new_parser_def del: events.simps)
  have p: "open_objs ?p = []" "roots ?p = []" "success ?p" by (simp_all add: new_parser_def)
  note result = acl_xml.document_result [OF parser_typed_new p(1), of n attr ts]
  show ?thesis
  proof (cases "build acl_alloc_obj acl_xml_end n attr ts")
    case None
    with result show ?thesis unfolding run by (auto simp del: events.simps)
  next
    case (Some c)
    with result show ?thesis unfolding run by (simp add: find_first_def new_parser_def del: events.simps)
  qed
qed



section \<open>Printing and parsing a policy\<close>

definition text_elem :: "string \<Rightarrow> string \<Rightarrow> xtree" where
  "text_elem n s = Elem n [] (if s = [] then [] else [Txt s])"

definition opt_elem :: "string \<Rightarrow> string \<Rightarrow> xtree list" where
  "opt_elem n s = (if s = [] then [] else [text_elem n s])"

definition owner_doc :: "acl_owner \<Rightarrow> xtree list" where
  "owner_doc w =
     (if own_id w = [] then []
      else [Elem ''Owner'' [] (text_elem ''ID'' (own_id w) # opt_elem ''DisplayName'' (own_display_name w))])"

definition perm_names :: "32 word \<Rightarrow> string list" where
  "perm_names flags =
     (if flags AND RGW_PERM_FULL_CONTROL = RGW_PERM_FULL_CONTROL then [''FULL_CONTROL'']
      else
        (if flags AND RGW_PERM_READ \<noteq> 0 then [''READ''] else []) @
        (if flags AND RGW_PERM_WRITE \<noteq> 0 then [''WRITE''] else []) @
        (if flags AND RGW_PERM_READ_ACP \<noteq> 0 then [''READ_ACP''] else []) @
        (if flags AND RGW_PERM_WRITE_ACP \<noteq> 0 then [''WRITE_ACP''] else []))"

definition grantee_doc :: "acl_grant \<Rightarrow> xtree" where
  "grantee_doc g =
     Elem ''Grantee'' [(''xmlns:xsi'', xsi_attr), (''xsi:type'', grantee_type_to_string (get_type (g_type g)))]
       (case get_type (g_type g) of
          ACL_TYPE_CANON_USER \<Rightarrow> text_elem ''ID'' (g_id g) # opt_elem ''DisplayName'' (g_name g)
        | ACL_TYPE_EMAIL_USER \<Rightarrow> [text_elem ''EmailAddress'' (g_email g)]
        | ACL_TYPE_GROUP \<Rightarrow> (case group_to_uri (g_group g) of None \<Rightarrow> [] | Some uri \<Rightarrow> [text_elem ''URI'' uri])
        | ACL_TYPE_UNKNOWN \<Rightarrow> [])"

definition grant_doc :: "acl_grant \<Rightarrow> xtree list" where
  "grant_doc g =
     (if g_permission g AND RGW_PERM_ALL_S3 = 0 then []
      else [Elem ''Grant'' [] (grantee_doc g # map (text_elem ''Permission'') (perm_names (g_permission g)))])"

definition policy_doc :: "acl_policy \<Rightarrow> xtree list" where
  "policy_doc p =
     owner_doc (pol_owner p) @ [Elem ''AccessControlList'' [] (concat (map (grant_doc \<circ> snd) (grant_map (pol_acl p))))]"

definition policy_attr :: "(string \<times> string) list" where
  "policy_attr = [(''xmlns'', s3_xmlns)]"

lemma render_text_elem [simp]: "render (text_elem n s) = ''<'' @ n @ ''>'' @ s @ ''</'' @ n @ ''>''"
  by (simp add: text_elem_def)

lemma perm_to_xml_render: "perm_to_xml flags = concat (map (render \<circ> text_elem ''Permission'') (perm_names flags))"
  by (simp add: perm_to_xml_def perm_names_def)

lemma render_opt_elem: "concat (map render (opt_elem n s)) = (if s = [] then [] else ''<'' @ n @ ''>'' @ s @ ''</'' @ n @ ''>'')"
  by (simp add: opt_elem_def)

lemma grant_to_xml_render: "grant_to_xml g = concat (map render (grant_doc g))"
  by (simp add: grant_to_xml_def grant_doc_def grantee_doc_def perm_to_xml_render render_opt_elem
      split: ACLGranteeTypeEnum.splits option.splits)

lemma acl_to_xml_render:
  "concat (map (\<lambda>(k, g). grant_to_xml g) gm) = concat (map render (concat (map (grant_doc \<circ> snd) gm)))"
  by (induction gm) (auto simp: grant_to_xml_render)

lemma policy_to_xml_render: "policy_to_xml p = render (Elem ''AccessControlPolicy'' policy_attr (policy_doc p))"
  by (simp add: policy_to_xml_def acl_to_xml_def owner_to_xml_def owner_doc_def policy_doc_def policy_attr_def
      render_opt_elem acl_to_xml_render)

text \<open>Grants that the XML form can carry: to one user, with one of the five named permissions.\<close>

definition single_perms :: "32 word list" where
  "single_perms = [RGW_PERM_READ, RGW_PERM_WRITE, RGW_PERM_READ_ACP, RGW_PERM_WRITE_ACP, RGW_PERM_FULL_CONTROL]"

definition xml_grant :: "acl_grant \<Rightarrow> bool" where
  "xml_grant g \<longleftrightarrow> g = set_canon (g_id g) (g_name g) (g_permission g) new_grant \<and> g_permission g \<in> set single_perms"

abbreviation leaf :: "string \<Rightarrow> string \<Rightarrow> acl_class \<Rightarrow> acl_class xobj" where
  "leaf n s q \<equiv> XObj n s [] [] q"

lemma add_text_elem:
  assumes "acl_alloc_obj n = XPlain"
  shows "add_item acl_alloc_obj acl_xml_end (text_elem n s) ob = Some (add_child n (leaf n s XPlain) ob)"
  using assms by (simp add: text_elem_def xobj_defs closed_obj_def acl_xml_end_def)

lemma add_permission:
  assumes "permission_xml_end s 0 = (True, f)"
  shows "add_item acl_alloc_obj acl_xml_end (text_elem ''Permission'' s) ob =
    Some (add_child ''Permission'' (leaf ''Permission'' s (XPermission f)) ob)"
  using assms by (auto simp: text_elem_def xobj_defs closed_obj_def acl_xml_end_def acl_alloc_obj_def)

lemma single_perms_printed:
  "map perm_names single_perms = [[''READ''], [''WRITE''], [''READ_ACP''], [''WRITE_ACP''], [''FULL_CONTROL'']]"
  "map (\<lambda>s. permission_xml_end s 0) [''READ'', ''WRITE'', ''READ_ACP'', ''WRITE_ACP'', ''FULL_CONTROL''] = map (Pair True) single_perms"
  "map (\<lambda>f. f AND RGW_PERM_ALL_S3 = 0) single_perms = [False, False, False, False, False]"
  by code_simp+

lemma single_perm_names:
  assumes "f \<in> set single_perms"
  obtains s where "perm_names f = [s]" and "permission_xml_end s 0 = (True, f)" and "f AND RGW_PERM_ALL_S3 \<noteq> 0"
proof -
  have "\<exists>s. perm_names f = [s] \<and> permission_xml_end s 0 = (True, f) \<and> f AND RGW_PERM_ALL_S3 \<noteq> 0"
    using assms single_perms_printed by (auto simp: single_perms_def)
  then show ?thesis using that by blast
qed

definition grantee_obj :: "acl_grant \<Rightarrow> acl_class xobj" where
  "grantee_obj g = XObj ''Grantee'' [] [(''xmlns:xsi'', xsi_attr), (''xsi:type'', ''CanonicalUser'')]
     ((if g_name g = [] then [] else [(''DisplayName'', leaf ''DisplayName'' (g_name g) XPlain)]) @
      [(''ID'', leaf ''ID'' (g_id g) XPlain)]) XPlain"

definition grant_obj :: "acl_grant \<Rightarrow> string \<Rightarrow> acl_class xobj" where
  "grant_obj g s = XObj ''Grant'' [] []
     [(''Grantee'', grantee_obj g), (''Permission'', leaf ''Permission'' s (XPermission (g_permission g)))] (XGrant g)"

lemma names_less:
  "''DisplayName'' < ''ID''" "''Grantee'' < ''Permission''" "''xmlns:xsi'' < ''xsi:type''" "''AccessControlList'' < ''Owner''"
  by (simp_all add: less_char_def)

lemma names_not_less [simp]:
  "\<not> ''ID'' < ''DisplayName''" "\<not> ''Permission'' < ''Grantee''" "\<not> ''xsi:type'' < ''xmlns:xsi''" "\<not> ''Owner'' < ''AccessControlList''"
  using names_less by auto

lemma plain_classes [simp]:
  "acl_alloc_obj ''ID'' = XPlain" "acl_alloc_obj ''DisplayName'' = XPlain" "acl_alloc_obj ''Grantee'' = XPlain"
  by (simp_all add: acl_alloc_obj_def)

lemma canon_type [simp]: "get_type (g_type (set_canon i n f g)) = ACL_TYPE_CANON_USER"
  by (simp add: set_canon_def type_num_def get_type_def)

lemma add_grantee:
  assumes "get_type (g_type g) = ACL_TYPE_CANON_USER"
  shows "add_item acl_alloc_obj acl_xml_end (grantee_doc g) ob = Some (add_child ''Grantee'' (grantee_obj g) ob)"
  using assms names_less
  by (simp add: grantee_doc_def opt_elem_def add_text_elem grantee_obj_def xobj_defs closed_obj_def acl_xml_end_def
      grantee_type_to_string_def)

lemma grant_xml_end_obj:
  assumes "g = set_canon (g_id g) (g_name g) (g_permission g) new_grant" and "payload pm = XPermission (g_permission g)"
  shows "grant_xml_end (XObj ''Grant'' [] [] [(''Grantee'', grantee_obj g), (''Permission'', pm)] q) new_grant = Some (True, g)"
proof -
  have "grantee_xml (grantee_obj g) (new_grant\<lparr>g_type := type_num ACL_TYPE_CANON_USER, g_permission := g_permission g,
      g_id := [], g_name := [], g_email := []\<rparr>) = (True, set_canon (g_id g) (g_name g) (g_permission g) new_grant)"
    by (simp add: grantee_xml_def grantee_obj_def find_first_def new_grant_def set_canon_def get_type_def type_num_def)
  moreover have "get_attr (grantee_obj g) ''xsi:type'' = Some ''CanonicalUser''"
    by (simp add: get_attr_def grantee_obj_def)
  ultimately show ?thesis
    using assms by (simp add: grant_xml_end_def find_first_def grantee_type_set_def c_str_def)
qed

text \<open>Element \<open>c\<close> is what the parser makes of the printed grant \<open>g\<close>.\<close>

definition gives :: "acl_grant \<Rightarrow> acl_class xobj \<Rightarrow> bool" where
  "gives g c \<longleftrightarrow> payload c = XGrant g \<and>
     (\<forall>ob. add_items acl_alloc_obj acl_xml_end (grant_doc g) ob = Some (add_child ''Grant'' c ob))"

lemma add_xml_grant:
  assumes "xml_grant g"
  shows "\<exists>c. gives g c"
proof -
  have g: "g = set_canon (g_id g) (g_name g) (g_permission g) new_grant" "g_permission g \<in> set single_perms"
    using assms by (simp_all add: xml_grant_def)
  from single_perm_names [OF g(2)] obtain s where s: "perm_names (g_permission g) = [s]"
    "permission_xml_end s 0 = (True, g_permission g)" "g_permission g AND RGW_PERM_ALL_S3 \<noteq> 0" by blast
  have canon: "get_type (g_type g) = ACL_TYPE_CANON_USER"
    by (subst g(1)) (rule canon_type)
  have "add_items acl_alloc_obj acl_xml_end (grantee_doc g # map (text_elem ''Permission'') (perm_names (g_permission g)))
      (xobj_start acl_alloc_obj ''Grant'' []) =
    Some (XObj ''Grant'' [] [] [(''Grantee'', grantee_obj g), (''Permission'', leaf ''Permission'' s (XPermission (g_permission g)))] (XGrant new_grant))"
    using s names_less by (simp add: add_grantee [OF canon] add_permission xobj_defs acl_alloc_obj_def)
  moreover have "closed_obj acl_xml_end (XObj ''Grant'' [] [] [(''Grantee'', grantee_obj g),
      (''Permission'', leaf ''Permission'' s (XPermission (g_permission g)))] (XGrant new_grant)) = Some (grant_obj g s)"
    by (simp add: closed_obj_def acl_xml_end_def grant_xml_end_obj [OF g(1)] grant_obj_def set_payload_def)
  ultimately have "add_items acl_alloc_obj acl_xml_end (grant_doc g) ob = Some (add_child ''Grant'' (grant_obj g s) ob)" for ob
    using s(3) by (simp add: grant_doc_def)
  then show ?thesis by (intro exI [of _ "grant_obj g s"]) (simp add: gives_def grant_obj_def)
qed

lemma add_items_append:
  "add_items al fin (ts @ us) ob = Option.bind (add_items al fin ts ob) (add_items al fin us)"
  by (induction ts arbitrary: ob) (auto split: Option.bind_split)

lemma add_xml_grants_ex: "list_all xml_grant gs \<Longrightarrow> \<exists>cs. list_all2 gives gs cs"
proof (induction gs)
  case (Cons g gs)
  then obtain cs where "list_all2 gives gs cs" by auto
  moreover obtain c where "gives g c" using Cons.prems add_xml_grant by auto
  ultimately show ?case by (intro exI [of _ "c # cs"]) simp
qed (auto intro: exI [of _ "[]"])

lemma add_grant_children:
  assumes "list_all2 gives gs cs" and "children ob = map (Pair ''Grant'') kids"
  shows "add_items acl_alloc_obj acl_xml_end (concat (map grant_doc gs)) ob =
    Some (XObj (obj_type ob) (obj_data ob) (attr_map ob) (map (Pair ''Grant'') (kids @ cs)) (payload ob))"
  using assms
proof (induction gs cs arbitrary: ob kids rule: list_all2_induct)
  case Nil
  then show ?case by (cases ob) simp
next
  case (Cons g gs c cs)
  have kids: "children (add_child ''Grant'' c ob) = map (Pair ''Grant'') (kids @ [c])"
    using Cons.prems by (simp add: multimap_insert_greatest)
  have "add_items acl_alloc_obj acl_xml_end (concat (map grant_doc (g # gs))) ob =
      add_items acl_alloc_obj acl_xml_end (concat (map grant_doc gs)) (add_child ''Grant'' c ob)"
    using Cons.hyps(1) by (simp add: gives_def add_items_append)
  with Cons.IH [OF kids] show ?case by simp
qed

lemma xml_find_grants: "xml_find (map (Pair ''Grant'') kids) ''Grant'' = kids"
  by (induction kids) (simp_all add: xml_find_def)

lemma add_xml_grants_objs: "list_all2 gives gs cs \<Longrightarrow> add_xml_grants cs a = Some (fold add_grant gs a)"
  by (induction gs cs arbitrary: a rule: list_all2_induct) (simp_all add: gives_def)

text \<open>A list all of whose grants can be printed, and whose lookup maps are those of its grants.\<close>

definition xml_policy :: "acl_policy \<Rightarrow> bool" where
  "xml_policy p \<longleftrightarrow> own_id (pol_owner p) \<noteq> [] \<and> list_all (xml_grant \<circ> snd) (grant_map (pol_acl p)) \<and>
     pol_acl p = fold add_grant (map snd (grant_map (pol_acl p))) new_acl"

lemma add_acl_list:
  assumes "xml_policy p"
  shows "\<exists>l. (\<forall>ob. add_item acl_alloc_obj acl_xml_end (Elem ''AccessControlList'' []
      (concat (map (grant_doc \<circ> snd) (grant_map (pol_acl p))))) ob = Some (add_child ''AccessControlList'' l ob)) \<and>
    payload l = XList (pol_acl p)"
proof -
  let ?gs = "map snd (grant_map (pol_acl p))"
  have "list_all xml_grant ?gs" using assms by (simp add: xml_policy_def list.pred_map)
  from add_xml_grants_ex [OF this] obtain kids where kids: "list_all2 gives ?gs kids" by blast
  have grants: "add_xml_grants kids new_acl = Some (pol_acl p)"
    using assms add_xml_grants_objs [OF kids, of new_acl] by (simp add: xml_policy_def)
  have items: "add_items acl_alloc_obj acl_xml_end (concat (map (grant_doc \<circ> snd) (grant_map (pol_acl p))))
      (xobj_start acl_alloc_obj ''AccessControlList'' []) =
    Some (XObj ''AccessControlList'' [] [] (map (Pair ''Grant'') kids) (XList new_acl))"
    using add_grant_children [OF kids, of "xobj_start acl_alloc_obj ''AccessControlList'' []" "[]"]
    by (simp add: xobj_start_def acl_alloc_obj_def)
  let ?l = "XObj ''AccessControlList'' [] [] (map (Pair ''Grant'') kids) (XList (pol_acl p))"
  have "closed_obj acl_xml_end (XObj ''AccessControlList'' [] [] (map (Pair ''Grant'') kids) (XList new_acl)) = Some ?l"
    using grants by (simp add: closed_obj_def acl_xml_end_def xml_find_grants set_payload_def)
  with items have "add_item acl_alloc_obj acl_xml_end (Elem ''AccessControlList'' []
      (concat (map (grant_doc \<circ> snd) (grant_map (pol_acl p))))) ob = Some (add_child ''AccessControlList'' ?l ob)" for ob
    by simp
  then show ?thesis by (intro exI [of _ ?l]) simp
qed

lemma add_owner:
  assumes "own_id w \<noteq> []"
  shows "\<exists>c. (\<forall>ob. add_items acl_alloc_obj acl_xml_end (owner_doc w) ob = Some (add_child ''Owner'' c ob)) \<and> payload c = XOwner w"
proof -
  let ?kids = "(if own_display_name w = [] then [] else [(''DisplayName'', leaf ''DisplayName'' (own_display_name w) XPlain)]) @
    [(''ID'', leaf ''ID'' (own_id w) XPlain)]"
  have "owner_xml_end (XObj ''Owner'' [] [] ?kids q) v = (True, w)" for q v
    by (simp add: owner_xml_end_def find_first_def)
  then have "closed_obj acl_xml_end (XObj ''Owner'' [] [] ?kids (XOwner new_owner)) = Some (XObj ''Owner'' [] [] ?kids (XOwner w))"
    by (simp add: closed_obj_def acl_xml_end_def set_payload_def del: append.simps)
  moreover have "add_items acl_alloc_obj acl_xml_end (text_elem ''ID'' (own_id w) # opt_elem ''DisplayName'' (own_display_name w))
      (xobj_start acl_alloc_obj ''Owner'' []) = Some (XObj ''Owner'' [] [] ?kids (XOwner new_owner))"
    using names_less
    by (simp add: opt_elem_def add_text_elem xobj_defs acl_alloc_obj_def)
  ultimately have "add_items acl_alloc_obj acl_xml_end (owner_doc w) ob = Some (add_child ''Owner'' (XObj ''Owner'' [] [] ?kids (XOwner w)) ob)" for ob
    using assms by (simp add: owner_doc_def del: append.simps)
  then show ?thesis by (intro exI [of _ "XObj ''Owner'' [] [] ?kids (XOwner w)"]) simp
qed

lemma build_policy_doc:
  assumes "xml_policy p"
  shows "\<exists>ob. build acl_alloc_obj acl_xml_end ''AccessControlPolicy'' policy_attr (policy_doc p) = Some ob \<and> payload ob = XPolicy p"
proof -
  from add_acl_list [OF assms] obtain l where l: "\<forall>ob. add_item acl_alloc_obj acl_xml_end (Elem ''AccessControlList'' []
      (concat (map (grant_doc \<circ> snd) (grant_map (pol_acl p))))) ob = Some (add_child ''AccessControlList'' l ob)"
    "payload l = XList (pol_acl p)" by (elim exE conjE)
  have "own_id (pol_owner p) \<noteq> []" using assms by (simp add: xml_policy_def)
  from add_owner [OF this] obtain c where
    c: "\<forall>ob. add_items acl_alloc_obj acl_xml_end (owner_doc (pol_owner p)) ob = Some (add_child ''Owner'' c ob)"
    "payload c = XOwner (pol_owner p)" by (elim exE conjE)
  define ob where "ob q = XObj ''AccessControlPolicy'' [] policy_attr [(''AccessControlList'', l), (''Owner'', c)] q" for q
  have "add_items acl_alloc_obj acl_xml_end (policy_doc p) (xobj_start acl_alloc_obj ''AccessControlPolicy'' policy_attr) =
      Some (ob (XPolicy new_policy))"
    using names_less
    by (simp add: policy_doc_def add_items_append l(1) [rule_format] c(1) [rule_format] ob_def xobj_defs acl_alloc_obj_def policy_attr_def del: add_item.simps)
  moreover have "policy_xml_end (ob q) new_policy = Some (True, p)" for q
    using l(2) c(2) by (simp add: ob_def policy_xml_end_def find_first_def new_policy_def)
  then have "closed_obj acl_xml_end (ob (XPolicy new_policy)) = Some (ob (XPolicy p))"
    by (simp add: closed_obj_def acl_xml_end_def) (simp add: ob_def set_payload_def)
  ultimately show ?thesis by (simp add: build_def) (simp add: ob_def)
qed

text \<open>\<^verbatim>\<open>to_xml\<close> escapes nothing, so the names must not contain markup.\<close>

definition clean_texts :: "acl_policy \<Rightarrow> bool" where
  "clean_texts p \<longleftrightarrow> list_all xml_char (own_id (pol_owner p)) \<and> list_all xml_char (own_display_name (pol_owner p)) \<and>
     list_all (\<lambda>(k, g). list_all xml_char (g_id g) \<and> list_all xml_char (g_name g)) (grant_map (pol_acl p))"

lemma policy_names [simp]:
  "xml_name ''AccessControlPolicy''" "xml_name ''AccessControlList''" "xml_name ''Owner''" "xml_name ''Grant''"
  "xml_name ''Grantee''" "xml_name ''Permission''" "xml_name ''ID''" "xml_name ''DisplayName''" "xml_name ''xmlns''"
  "xml_name ''xmlns:xsi''" "xml_name ''xsi:type''"
  by code_simp+

lemma policy_values [simp]:
  "list_all xml_char s3_xmlns" "list_all xml_char xsi_attr" "list_all xml_char (grantee_type_to_string ACL_TYPE_CANON_USER)"
  by code_simp+

lemma clean_text_elem [simp]: "xml_name n \<Longrightarrow> list_all xml_char s \<Longrightarrow> xml_clean (text_elem n s)"
  by (simp add: text_elem_def)

lemma clean_opt_elem [simp]: "xml_name n \<Longrightarrow> list_all xml_char s \<Longrightarrow> list_all xml_clean (opt_elem n s)"
  by (simp add: opt_elem_def)

lemma clean_perm_names: "list_all xml_clean (map (text_elem ''Permission'') (perm_names f))"
proof -
  have "list_all (list_all xml_char) [''FULL_CONTROL'', ''READ'', ''WRITE'', ''READ_ACP'', ''WRITE_ACP'']" by code_simp
  then show ?thesis by (simp add: perm_names_def)
qed

lemma clean_grant_doc:
  assumes "xml_grant g" and "list_all xml_char (g_id g)" and "list_all xml_char (g_name g)"
  shows "list_all xml_clean (grant_doc g)"
proof -
  have "get_type (g_type g) = ACL_TYPE_CANON_USER" using assms(1) canon_type by (metis xml_grant_def)
  then show ?thesis using assms clean_perm_names by (simp add: grant_doc_def grantee_doc_def)
qed

lemma clean_policy_doc:
  assumes "xml_policy p" and "clean_texts p"
  shows "xml_clean (Elem ''AccessControlPolicy'' policy_attr (policy_doc p))"
proof -
  have "list_all xml_clean (concat (map (grant_doc \<circ> snd) (grant_map (pol_acl p))))"
  proof -
    have "list_all xml_clean (grant_doc g)" if "(k, g) \<in> set (grant_map (pol_acl p))" for k g
      using that assms by (intro clean_grant_doc) (auto simp: xml_policy_def clean_texts_def list_all_iff)
    then show ?thesis by (fastforce simp: list_all_iff)
  qed
  moreover have "list_all xml_clean (owner_doc (pol_owner p))"
    using assms by (simp add: clean_texts_def owner_doc_def)
  ultimately show ?thesis by (simp add: policy_doc_def policy_attr_def)
qed

text \<open>C21: Printing a policy and parsing the text gives back the policy, for grants to users with one of the
  five named permissions and for ids and display names of printable characters other than \<^verbatim>\<open><\<close>, \<^verbatim>\<open>>\<close>,
  \<^verbatim>\<open>&\<close> and the quotation mark, which the printer would have to escape and does not.  The text is the
  rendering of a document; with an XML library that reports every document of this kind as it is
  written, the parser succeeds on the text and finds the policy with its owner, its grants and its
  lookup maps.\<close>

theorem policy_xml_roundtrip:
  assumes "xml_policy p" and "clean_texts p" and "expat_reads expat"
  shows "policy_to_xml p = render (Elem ''AccessControlPolicy'' policy_attr (policy_doc p)) \<and>
    (\<exists>p' ob. parse_xml expat acl_alloc_obj acl_xml_end (policy_to_xml p) True new_parser = Some (True, p') \<and>
       find_first (roots p') ''AccessControlPolicy'' = Some ob \<and> payload ob = XPolicy p)"
proof
  let ?doc = "Elem ''AccessControlPolicy'' policy_attr (policy_doc p)"
  show "policy_to_xml p = render ?doc" by (rule policy_to_xml_render)
  from build_policy_doc [OF assms(1)] obtain ob
    where ob: "build acl_alloc_obj acl_xml_end ''AccessControlPolicy'' policy_attr (policy_doc p) = Some ob" "payload ob = XPolicy p"
    by (elim exE conjE)
  from assms(3) clean_policy_doc [OF assms(1,2)] obtain es
    where "expat [] (render ?doc) True = (es, True)" "merge_data es = merge_data (events ?doc)"
    unfolding expat_reads_def by blast
  then have "merge_data (fst (expat [] (policy_to_xml p) True)) = merge_data (events ?doc)" "snd (expat [] (policy_to_xml p) True)"
    by (simp_all only: policy_to_xml_render fst_conv snd_conv)
  from acl_parse_doc [where expat = expat, OF this] ob
  show "\<exists>p' ob. parse_xml expat acl_alloc_obj acl_xml_end (policy_to_xml p) True new_parser = Some (True, p') \<and>
      find_first (roots p') ''AccessControlPolicy'' = Some ob \<and> payload ob = XPolicy p"
    by auto
qed

definition sample_policy :: acl_policy where
  "sample_policy = \<lparr>pol_acl = add_grant (set_canon ''joe'' ''Joe D.'' RGW_PERM_FULL_CONTROL new_grant) new_acl,
     pol_owner = \<lparr>own_id = ''joe'', own_display_name = ''Joe D.''\<rparr>\<rparr>"

lemma sample_policy_ok: "xml_policy sample_policy" "clean_texts sample_policy"
proof -
  have map: "grant_map (pol_acl sample_policy) = [(''joe'', set_canon ''joe'' ''Joe D.'' RGW_PERM_FULL_CONTROL new_grant)]"
    by (simp add: sample_policy_def add_grant_eq new_acl_def)
  then show "xml_policy sample_policy"
    by (simp add: xml_policy_def xml_grant_def single_perms_def) (simp add: set_canon_def sample_policy_def)
  have "list_all xml_char ''joe''" "list_all xml_char ''Joe D.''" by code_simp+
  with map show "clean_texts sample_policy" by (simp add: clean_texts_def set_canon_def) (simp add: sample_policy_def)
qed

theorem policy_xml_roundtrip_witness:
  "\<exists>p' ob. parse_xml sax_expat acl_alloc_obj acl_xml_end (policy_to_xml sample_policy) True new_parser = Some (True, p') \<and>
     find_first (roots p') ''AccessControlPolicy'' = Some ob \<and> payload ob = XPolicy sample_policy"
  using policy_xml_roundtrip [OF sample_policy_ok sax_expat_reads] by (rule conjunct2)

text \<open>With markup in a display name the text is that of another policy: one grant to \<^verbatim>\<open>joe\<close> prints like
  two, the second to \<^verbatim>\<open>zoe\<close>.\<close>

lemma policy_to_xml_forged:
  "policy_to_xml \<lparr>pol_acl = add_grant (set_canon ''joe'' (''Joe</DisplayName></Grantee><Permission>READ</Permission></Grant>'' @
       ''<Grant><Grantee xmlns:xsi='' @ DQUOTE # xsi_attr @ DQUOTE # '' xsi:type='' @ DQUOTE # ''CanonicalUser'' @ DQUOTE #
       ''><ID>zoe</ID><DisplayName>Zoe'') RGW_PERM_FULL_CONTROL new_grant) new_acl, pol_owner = new_owner\<rparr> =
   policy_to_xml \<lparr>pol_acl = add_grant (set_canon ''zoe'' ''Zoe'' RGW_PERM_FULL_CONTROL new_grant)
       (add_grant (set_canon ''joe'' ''Joe'' RGW_PERM_READ new_grant) new_acl), pol_owner = new_owner\<rparr>"
  by code_simp

section \<open>What a rebuilt policy grants\<close>

definition user_exists :: "(string \<Rightarrow> string result) \<Rightarrow> string \<Rightarrow> bool" where
  "user_exists get_obj i \<longleftrightarrow> (\<exists>info. rgw_get_user_info_by_uid get_obj i new_user = Inr info)"

text \<open>The user a parsed grant is given to: the empty id for a grantee named by e-mail address.\<close>

definition grant_target :: "acl_grant \<Rightarrow> string option" where
  "grant_target g =
     (case get_type (g_type g) of ACL_TYPE_CANON_USER \<Rightarrow> Some (g_id g) | ACL_TYPE_EMAIL_USER \<Rightarrow> Some [] | _ \<Rightarrow> None)"

lemma user_id_new_user [simp]: "user_id new_user = []"
  by (simp add: new_user_def)

lemma rebuild_grant_cases:
  obtains (user) i info where "grant_target g = Some i" "rgw_get_user_info_by_uid get_obj i new_user = Inr info"
      "rebuild_grant get_obj g = Inr (Some (set_canon i (display_name info) (g_permission g) new_grant))" "\<not> is_group_grant g"
  | (no_user) i where "grant_target g = Some i" "\<not> user_exists get_obj i" "rebuild_grant get_obj g = Inl (- EINVAL)" "\<not> is_group_grant g"
  | (group) "grant_target g = None" "is_group_grant g" "g_group g = 1 \<or> g_group g = 2" "rebuild_grant get_obj g = Inr (Some g)"
  | (no_group) "grant_target g = None" "is_group_grant g" "\<not> (g_group g = 1 \<or> g_group g = 2)" "rebuild_grant get_obj g = Inl (- EINVAL)"
  | (unknown) "grant_target g = None" "\<not> is_group_grant g" "rebuild_grant get_obj g = Inr None"
proof (cases "get_type (g_type g)")
  case ACL_TYPE_CANON_USER
  then show ?thesis
    using user [of "g_id g"] no_user [of "g_id g"]
    by (cases "rgw_get_user_info_by_uid get_obj (g_id g) new_user")
      (simp_all add: rebuild_grant_def grant_target_def is_group_grant_def user_exists_def get_id_def)
next
  case ACL_TYPE_EMAIL_USER
  then show ?thesis
    using user [of "[]"] no_user [of "[]"]
    by (cases "rgw_get_user_info_by_uid get_obj [] new_user")
      (simp_all add: rebuild_grant_def grant_target_def is_group_grant_def user_exists_def)
next
  case ACL_TYPE_GROUP
  then show ?thesis
    using group no_group
    by (cases "g_group g = 1 \<or> g_group g = 2")
      (auto simp: rebuild_grant_def grant_target_def is_group_grant_def group_to_uri_def)
next
  case ACL_TYPE_UNKNOWN
  then show ?thesis using unknown by (simp add: rebuild_grant_def grant_target_def is_group_grant_def)
qed

lemma rebuild_grants_result:
  assumes "rebuild_grants get_obj gs a = (r, a')"
  shows "r = 0 \<or> r = - EINVAL"
    and "r = 0 \<Longrightarrow> user_granted a' i n \<longleftrightarrow> user_granted a i n \<or> (\<exists>g \<in> set gs. grant_target g = Some i \<and> bit (g_permission g) n)"
    and "r = 0 \<Longrightarrow> group_granted a' grp n \<longleftrightarrow>
      group_granted a grp n \<or> (\<exists>g \<in> set gs. is_group_grant g \<and> g_group g = grp \<and> bit (g_permission g) n)"
    and "r = 0 \<longleftrightarrow> (\<forall>g \<in> set gs. (\<forall>i. grant_target g = Some i \<longrightarrow> user_exists get_obj i) \<and>
      (is_group_grant g \<longrightarrow> g_group g = ACL_GROUP_ALL_USERS \<or> g_group g = ACL_GROUP_AUTHENTICATED_USERS))"
proof -
  have "(r = 0 \<or> r = - EINVAL) \<and>
    (r = 0 \<longrightarrow> (user_granted a' i n \<longleftrightarrow> user_granted a i n \<or> (\<exists>g \<in> set gs. grant_target g = Some i \<and> bit (g_permission g) n))) \<and>
    (r = 0 \<longrightarrow> (group_granted a' grp n \<longleftrightarrow>
      group_granted a grp n \<or> (\<exists>g \<in> set gs. is_group_grant g \<and> g_group g = grp \<and> bit (g_permission g) n))) \<and>
    (r = 0 \<longleftrightarrow> (\<forall>g \<in> set gs. (\<forall>i. grant_target g = Some i \<longrightarrow> user_exists get_obj i) \<and>
      (is_group_grant g \<longrightarrow> g_group g = ACL_GROUP_ALL_USERS \<or> g_group g = ACL_GROUP_AUTHENTICATED_USERS)))"
    using assms
  proof (induction gs arbitrary: a)
    case (Cons g gs)
    show ?case
      using Cons
      by (cases g rule: rebuild_grant_cases [where get_obj = get_obj])
        (auto simp: user_granted_add group_granted_add user_exists_def)
  qed simp
  then show "r = 0 \<or> r = - EINVAL"
    and "r = 0 \<Longrightarrow> user_granted a' i n \<longleftrightarrow> user_granted a i n \<or> (\<exists>g \<in> set gs. grant_target g = Some i \<and> bit (g_permission g) n)"
    and "r = 0 \<Longrightarrow> group_granted a' grp n \<longleftrightarrow>
      group_granted a grp n \<or> (\<exists>g \<in> set gs. is_group_grant g \<and> g_group g = grp \<and> bit (g_permission g) n)"
    and "r = 0 \<longleftrightarrow> (\<forall>g \<in> set gs. (\<forall>i. grant_target g = Some i \<longrightarrow> user_exists get_obj i) \<and>
      (is_group_grant g \<longrightarrow> g_group g = ACL_GROUP_ALL_USERS \<or> g_group g = ACL_GROUP_AUTHENTICATED_USERS))"
    by blast+
qed

text \<open>The owner that the document names must be the caller's, or empty.\<close>

definition owner_accepted :: "acl_class xobj \<Rightarrow> acl_owner \<Rightarrow> bool" where
  "owner_accepted ob w \<longleftrightarrow>
     (\<forall>c rw. find_first (children ob) ''Owner'' = Some c \<and> payload c = XOwner rw \<longrightarrow> own_id rw = [] \<or> own_id rw = own_id w)"

lemma policy_rebuild_eq:
  assumes "well_typed class_of acl_alloc_obj ob" and "payload ob = XPolicy p"
  shows "policy_rebuild get_obj (Some w) ob dest =
    Some (if owner_accepted ob w then rebuild_as get_obj w p dest else (- EPERM, dest))"
proof (cases "find_first (children ob) ''Owner''")
  case None
  then show ?thesis using assms(2) by (simp add: policy_rebuild_def owner_accepted_def)
next
  case (Some c)
  from find_first_typed [OF assms(1) Some] obtain rw where "payload c = XOwner rw" by (auto simp: class_of_iff)
  with Some assms(2) show ?thesis by (auto simp: policy_rebuild_def owner_accepted_def)
qed

text \<open>C12: Checking a parsed policy fails with EPERM exactly when it names another owner, and otherwise
  succeeds exactly when the owner and every grantee exist and every group is known.  Then the result has the
  owner of the request, and its grants are those of the parsed policy, by user and by group.\<close>

theorem policy_rebuild_correct:
  assumes "well_typed class_of acl_alloc_obj ob" and "payload ob = XPolicy p"
    and "policy_rebuild get_obj (Some w) ob dest = Some (r, d)"
  shows "(r = - EPERM \<longleftrightarrow> \<not> owner_accepted ob w) \<and>
    (r = 0 \<longleftrightarrow> owner_accepted ob w \<and> user_exists get_obj (own_id w) \<and>
       (\<forall>g \<in> snd ` set (grant_map (pol_acl p)).
          (\<forall>i. grant_target g = Some i \<longrightarrow> user_exists get_obj i) \<and>
          (is_group_grant g \<longrightarrow> g_group g = ACL_GROUP_ALL_USERS \<or> g_group g = ACL_GROUP_AUTHENTICATED_USERS))) \<and>
    (r = 0 \<longrightarrow> own_id (pol_owner d) = own_id w \<and>
       (\<forall>i n. user_granted (pol_acl d) i n \<longleftrightarrow> user_granted (pol_acl dest) i n \<or>
          (\<exists>g \<in> snd ` set (grant_map (pol_acl p)). grant_target g = Some i \<and> bit (g_permission g) n)) \<and>
       (\<forall>grp n. group_granted (pol_acl d) grp n \<longleftrightarrow>
          group_granted (pol_acl dest) grp n \<or> group_granted (pol_acl p) grp n))"
proof (cases "owner_accepted ob w \<and> user_exists get_obj (own_id w)")
  case True
  then obtain info where info: "rgw_get_user_info_by_uid get_obj (own_id w) new_user = Inr info"
    by (auto simp: user_exists_def)
  define gs where "gs = map snd (grant_map (pol_acl p))"
  obtain r' a where a: "rebuild_grants get_obj gs (pol_acl dest) = (r', a)" by force
  with info True assms(3) have rd: "r = r'"
    "d = dest\<lparr>pol_owner := \<lparr>own_id = own_id w, own_display_name = display_name info\<rparr>, pol_acl := a\<rparr>"
    by (simp_all add: policy_rebuild_eq [OF assms(1,2)] rebuild_as_def gs_def)
  have "snd ` set (grant_map (pol_acl p)) = set gs" by (simp add: gs_def)
  then show ?thesis
    using rebuild_grants_result [OF a] True by (auto simp: rd group_granted_def [of "pol_acl p"])
next
  case False
  with assms(3) show ?thesis
    by (auto simp: policy_rebuild_eq [OF assms(1,2)] rebuild_as_def user_exists_def split: if_splits sum.splits)
qed

theorem policy_rebuild_correct_witness:
  "let get_obj = (\<lambda>uid. if uid = ''joe'' then Inr (enc_rgw_uid ''joe'') else Inl (- 2));
     ob = XObj ''AccessControlPolicy'' [] [] [] (XPolicy new_policy);
     w = \<lparr>own_id = ''joe'', own_display_name = ''Joe''\<rparr>
   in \<exists>d. policy_rebuild get_obj (Some w) ob new_policy = Some (0, d) \<and> own_id (pol_owner d) = ''joe''"
proof -
  let ?get_obj = "\<lambda>uid. if uid = ''joe'' then Inr (enc_rgw_uid ''joe'') else Inl (- 2)"
  let ?ob = "XObj ''AccessControlPolicy'' [] [] [] (XPolicy new_policy)"
  let ?w = "\<lparr>own_id = ''joe'', own_display_name = ''Joe''\<rparr>"
  have wt: "well_typed class_of acl_alloc_obj ?ob" by (simp add: acl_alloc_obj_def)
  have pl: "payload ?ob = XPolicy new_policy" by simp
  obtain r d where rd: "policy_rebuild ?get_obj (Some ?w) ?ob new_policy = Some (r, d)"
    using policy_rebuild_eq [OF wt pl] by (metis surj_pair)
  have "dec_rgw_uid (enc_rgw_uid ''joe'') = Some (''joe'', [])"
    using dec_string_enc [of "''joe''" "[]"] by (simp add: dec_rgw_uid_def enc_rgw_uid_def short_def)
  then have "user_exists ?get_obj ''joe''"
    by (simp add: user_exists_def rgw_get_user_info_by_uid_def bind_res_def)
  with policy_rebuild_correct [OF wt pl rd] have "r = 0 \<and> own_id (pol_owner d) = ''joe''"
    by (simp add: owner_accepted_def find_first_def new_policy_def new_acl_def)
  with rd show ?thesis unfolding Let_def by blast
qed

text \<open>C32: No grant to a group that the XML parser accepts can be stored: the group is never set from its
  URI, and the check that follows rejects it.\<close>

theorem xml_group_grant_rejected:
  assumes "grant_xml_end ob new_grant = Some (True, g)" and "is_group_grant g"
  shows "rebuild_grant get_obj g = Inl (- EINVAL)"
proof -
  have "g_group g = 0"
    using assms(1) by (auto simp: grant_xml_end_def grantee_xml_def Let_def new_grant_def
        split: option.splits acl_class.splits ACLGranteeTypeEnum.splits)
  with assms(2) show ?thesis
    by (cases g rule: rebuild_grant_cases [where get_obj = get_obj]) simp_all
qed

theorem xml_group_grant_rejected_witness:
  "rebuild_grant (\<lambda>_. Inl (- 2)) (set_group 0 RGW_PERM_READ new_grant) = Inl (- EINVAL)"
proof (rule xml_group_grant_rejected)
  let ?gr = "XObj ''Grantee'' [] [(''xsi:type'', ''Group'')] [(''URI'', leaf ''URI'' RGW_URI_ALL_USERS XPlain)] XPlain"
  let ?pm = "leaf ''Permission'' ''READ'' (XPermission RGW_PERM_READ)"
  show "grant_xml_end (XObj ''Grant'' [] [] [(''Grantee'', ?gr), (''Permission'', ?pm)] (XGrant new_grant)) new_grant =
      Some (True, set_group 0 RGW_PERM_READ new_grant)"
    by (simp add: grant_xml_end_def find_first_def get_attr_def grantee_type_set_def c_str_def grantee_xml_def
        set_group_def new_grant_def get_type_def type_num_def)
qed simp

text \<open>Only the first of several permissions of a grant is read, although all of them are printed.\<close>

lemma xml_grant_first_permission:
  assumes "find_first (children ob) ''Permission'' = Some pm" and "payload pm = XPermission flags"
    and "grant_xml_end ob g0 = Some (True, g)"
  shows "g_permission g = flags"
  using assms by (auto simp: grant_xml_end_def grantee_xml_def Let_def split: option.splits ACLGranteeTypeEnum.splits)

end
