(* ===== verification/Formatter.thy ===== *)
theory Formatter
  imports Xml Escape
begin

text \<open>
  The output formatters of responses, \<^verbatim>\<open>src/common/Formatter.cc\<close>: \<^verbatim>\<open>XMLFormatter\<close> and
  \<^verbatim>\<open>JSONFormatter\<close>.  A call on a formatter is a value of type \<open>fcall\<close>; the stream that
  \<^verbatim>\<open>dump_stream\<close> hands out is written by \<open>StreamWrite\<close>.  A failed assertion is the value
  \<^term>\<open>None\<close>.  The texts of the formatted calls are given after formatting.
\<close>

datatype fcall =
    OpenSection string "string option" "(string \<times> string) list" bool
  | CloseSection
  | DumpUnsigned string uint64
  | DumpInt string int
  | DumpString string string "(string \<times> string) list"
  | DumpStream string
  | StreamWrite string
  | DumpFormat string "string option" bool string
  | RawData string

section \<open>XMLFormatter\<close>

record xml_formatter =
  xf_ss :: string
  xf_pending :: string
  xf_sections :: "string list"
  xf_pretty :: bool
  xf_pending_name :: string

definition new_xml_formatter :: "bool \<Rightarrow> xml_formatter" where
  "new_xml_formatter pretty =
     \<lparr>xf_ss = [], xf_pending = [], xf_sections = [], xf_pretty = pretty, xf_pending_name = []\<rparr>"

definition xf_reset :: "xml_formatter \<Rightarrow> xml_formatter" where
  "xf_reset f = f\<lparr>xf_ss := [], xf_pending := [], xf_sections := [], xf_pending_name := []\<rparr>"

definition xf_put :: "string \<Rightarrow> xml_formatter \<Rightarrow> xml_formatter" where
  "xf_put s f = f\<lparr>xf_ss := xf_ss f @ s\<rparr>"

definition newline_if :: "bool \<Rightarrow> string" where
  "newline_if pretty = (if pretty then [LF] else [])"

definition escape_xml_str :: "string \<Rightarrow> string" where
  "escape_xml_str s = c_str (escape_xml_attr (c_str s))"

definition xf_finish_pending_string :: "xml_formatter \<Rightarrow> xml_formatter" where
  "xf_finish_pending_string f =
     (if xf_pending_name f \<noteq> [] then
        xf_put (newline_if (xf_pretty f))
          ((xf_put (escape_xml_str (xf_pending f) @ ''</'' @ xf_pending_name f @ ''>'') f)\<lparr>xf_pending_name := [], xf_pending := []\<rparr>)
      else f)"

definition xf_print_spaces :: "xml_formatter \<Rightarrow> xml_formatter" where
  "xf_print_spaces f =
     (let f = xf_finish_pending_string f
      in if xf_pretty f then xf_put (replicate (length (xf_sections f)) (CHR '' '')) f else f)"

definition get_attrs_str :: "(string \<times> string) list \<Rightarrow> string" where
  "get_attrs_str attrs = concat (map (\<lambda>(k, v). '' '' @ k @ ''='' @ DQUOTE # v @ [DQUOTE]) attrs)"

definition ns_str :: "string option \<Rightarrow> string" where
  "ns_str ns = (case ns of None \<Rightarrow> [] | Some n \<Rightarrow> '' xmlns='' @ DQUOTE # n @ [DQUOTE])"

definition xf_open_section_in_ns :: "string \<Rightarrow> string option \<Rightarrow> (string \<times> string) list \<Rightarrow> xml_formatter \<Rightarrow> xml_formatter" where
  "xf_open_section_in_ns name ns attrs f =
     (let f = xf_print_spaces f;
          f = xf_put (''<'' @ name @ get_attrs_str attrs @ ns_str ns @ ''>'') f;
          f = xf_put (newline_if (xf_pretty f)) f
      in f\<lparr>xf_sections := xf_sections f @ [name]\<rparr>)"

definition xf_close_section :: "xml_formatter \<Rightarrow> xml_formatter option" where
  "xf_close_section f =
     (if xf_sections f = [] then None
      else
        let f = xf_finish_pending_string f; section = last (xf_sections f);
            f = xf_print_spaces (f\<lparr>xf_sections := butlast (xf_sections f)\<rparr>);
            f = xf_put (''</'' @ section @ ''>'') f
        in Some (xf_put (newline_if (xf_pretty f)) f))"

text \<open>The element that the simple calls print after the indentation.\<close>

definition xf_element :: "string \<Rightarrow> string \<Rightarrow> string \<Rightarrow> xml_formatter \<Rightarrow> xml_formatter" where
  "xf_element e attrs body f =
     (let f = xf_print_spaces f;
          f = xf_put (''<'' @ e @ attrs @ ''>'' @ body @ ''</'' @ e @ ''>'') f
      in xf_put (newline_if (xf_pretty f)) f)"

fun xf_call :: "fcall \<Rightarrow> xml_formatter \<Rightarrow> xml_formatter option" where
  "xf_call (OpenSection n ns attrs is_array) f = Some (xf_open_section_in_ns n ns attrs f)"
| "xf_call CloseSection f = xf_close_section f"
| "xf_call (DumpUnsigned n u) f = Some (xf_element n [] (dec (unat u)) f)"
| "xf_call (DumpInt n i) f = Some (xf_element n [] (dec_int_str i) f)"
| "xf_call (DumpString n s attrs) f = Some (xf_element n (get_attrs_str attrs) (escape_xml_str s) f)"
| "xf_call (DumpStream n) f =
     (let f = (xf_print_spaces f)\<lparr>xf_pending_name := n\<rparr> in Some (xf_put (''<'' @ n @ ''>'') f))"
| "xf_call (StreamWrite s) f = Some (f\<lparr>xf_pending := xf_pending f @ s\<rparr>)"
| "xf_call (DumpFormat n ns quoted buf) f =
     Some (case ns of
       Some _ \<Rightarrow> xf_element n (ns_str ns) buf f
     | None \<Rightarrow> xf_element n [] (escape_xml_str buf) f)"
| "xf_call (RawData s) f = Some (xf_put s f)"

definition xf_flush :: "xml_formatter \<Rightarrow> string \<times> xml_formatter" where
  "xf_flush f =
     (let f = xf_finish_pending_string f in (xf_ss f @ newline_if (xf_pretty f), f\<lparr>xf_ss := []\<rparr>))"

text \<open>The result is an \<^verbatim>\<open>int\<close> in the code: the length for documents below 2 GB.\<close>

definition xf_get_len :: "xml_formatter \<Rightarrow> nat" where
  "xf_get_len f = length (xf_ss f)"

section \<open>JSONFormatter\<close>

record json_entry =
  je_size :: nat
  je_is_array :: bool

text \<open>The stack has the innermost section last.\<close>

record json_formatter =
  jf_pretty :: bool
  jf_ss :: string
  jf_pending :: string
  jf_is_pending :: bool
  jf_stack :: "json_entry list"

definition new_json_formatter :: "bool \<Rightarrow> json_formatter" where
  "new_json_formatter pretty = \<lparr>jf_pretty = pretty, jf_ss = [], jf_pending = [], jf_is_pending = False, jf_stack = []\<rparr>"

definition jf_reset :: "json_formatter \<Rightarrow> json_formatter" where
  "jf_reset f = f\<lparr>jf_stack := [], jf_ss := [], jf_pending := []\<rparr>"

definition jf_put :: "string \<Rightarrow> json_formatter \<Rightarrow> json_formatter" where
  "jf_put s f = f\<lparr>jf_ss := jf_ss f @ s\<rparr>"

definition jf_indent :: "json_formatter \<Rightarrow> string" where
  "jf_indent f = concat (replicate (length (jf_stack f) - 1) ''    '')"

definition jf_print_comma :: "json_entry \<Rightarrow> json_formatter \<Rightarrow> json_formatter" where
  "jf_print_comma entry f =
     (let f =
        (if je_size entry \<noteq> 0 then
           if jf_pretty f then jf_put ('','' @ [LF] @ jf_indent f) f else jf_put '','' f
         else if jf_pretty f then jf_put ([LF] @ jf_indent f) f
         else f)
      in if jf_pretty f \<and> je_is_array entry then jf_put ''    '' f else f)"

text \<open>The body of \<^verbatim>\<open>print_quoted_string\<close> is disabled by \<^verbatim>\<open>#if 0\<close>.\<close>

definition jf_print_quoted_string :: "string \<Rightarrow> json_formatter \<Rightarrow> json_formatter" where
  "jf_print_quoted_string s f = f"

definition jf_finish_pending_string :: "json_formatter \<Rightarrow> json_formatter" where
  "jf_finish_pending_string f =
     (if jf_is_pending f then (jf_print_quoted_string (jf_pending f) f)\<lparr>jf_pending := [], jf_is_pending := False\<rparr> else f)"

definition jf_print_name :: "string \<Rightarrow> json_formatter \<Rightarrow> json_formatter" where
  "jf_print_name name f =
     (let f = jf_finish_pending_string f in
      if jf_stack f = [] then f
      else
        let entry = last (jf_stack f); f = jf_print_comma entry f;
            f = (if \<not> je_is_array entry then
                   jf_put ((if jf_pretty f then ''    '' else []) @ DQUOTE # name @ DQUOTE # (if jf_pretty f then '': '' else '':'')) f
                 else f)
        in f\<lparr>jf_stack := butlast (jf_stack f) @ [entry\<lparr>je_size := je_size entry + 1\<rparr>]\<rparr>)"

definition jf_open_section :: "string \<Rightarrow> bool \<Rightarrow> json_formatter \<Rightarrow> json_formatter" where
  "jf_open_section name is_array f =
     (let f = jf_put (if is_array then ''['' else ''{'') (jf_print_name name f)
      in f\<lparr>jf_stack := jf_stack f @ [\<lparr>je_size = 0, je_is_array = is_array\<rparr>]\<rparr>)"

definition jf_close_section :: "json_formatter \<Rightarrow> json_formatter option" where
  "jf_close_section f =
     (if jf_stack f = [] then None
      else
        let f = jf_finish_pending_string f; entry = last (jf_stack f);
            f = (if jf_pretty f \<and> je_size entry \<noteq> 0 then jf_put ([LF] @ jf_indent f) f else f);
            f = jf_put (if je_is_array entry then '']'' else ''}'') f
        in Some (f\<lparr>jf_stack := butlast (jf_stack f)\<rparr>))"

text \<open>Sections in a name space are printed under the name followed by the name space; attributes are
  ignored.\<close>

fun jf_call :: "fcall \<Rightarrow> json_formatter \<Rightarrow> json_formatter option" where
  "jf_call (OpenSection n ns attrs is_array) f =
     Some (jf_open_section (case ns of None \<Rightarrow> n | Some x \<Rightarrow> n @ '' '' @ x) is_array f)"
| "jf_call CloseSection f = jf_close_section f"
| "jf_call (DumpUnsigned n u) f = Some (jf_put (dec (unat u)) (jf_print_name n f))"
| "jf_call (DumpInt n i) f = Some (jf_put (dec_int_str i) (jf_print_name n f))"
| "jf_call (DumpString n s attrs) f = Some (jf_print_quoted_string s (jf_print_name n f))"
| "jf_call (DumpStream n) f = Some ((jf_print_name n f)\<lparr>jf_is_pending := True\<rparr>)"
| "jf_call (StreamWrite s) f = Some (f\<lparr>jf_pending := jf_pending f @ s\<rparr>)"
| "jf_call (DumpFormat n ns quoted buf) f =
     (let f = jf_print_name n f in Some (if quoted then jf_print_quoted_string buf f else jf_put buf f))"
| "jf_call (RawData s) f = Some (jf_put s f)"

definition jf_flush :: "json_formatter \<Rightarrow> string \<times> json_formatter" where
  "jf_flush f =
     (let f = jf_finish_pending_string f in (jf_ss f @ newline_if (jf_pretty f), f\<lparr>jf_ss := []\<rparr>))"

definition jf_get_len :: "json_formatter \<Rightarrow> nat" where
  "jf_get_len f = length (jf_ss f)"

section \<open>Either formatter\<close>

text \<open>A pointer to a \<^verbatim>\<open>Formatter\<close>: the virtual calls are dispatched on the object's class.\<close>

datatype formatter = FXml xml_formatter | FJson json_formatter

fun fmt_call :: "fcall \<Rightarrow> formatter \<Rightarrow> formatter option" where
  "fmt_call c (FXml f) = map_option FXml (xf_call c f)"
| "fmt_call c (FJson f) = map_option FJson (jf_call c f)"

fun fmt_flush :: "formatter \<Rightarrow> string \<times> formatter" where
  "fmt_flush (FXml f) = map_prod id FXml (xf_flush f)"
| "fmt_flush (FJson f) = map_prod id FJson (jf_flush f)"

fun fmt_reset :: "formatter \<Rightarrow> formatter" where
  "fmt_reset (FXml f) = FXml (xf_reset f)"
| "fmt_reset (FJson f) = FJson (jf_reset f)"

fun fmt_get_len :: "formatter \<Rightarrow> nat" where
  "fmt_get_len (FXml f) = xf_get_len f"
| "fmt_get_len (FJson f) = jf_get_len f"

fun calls :: "(fcall \<Rightarrow> 'f \<Rightarrow> 'f option) \<Rightarrow> fcall list \<Rightarrow> 'f \<Rightarrow> 'f option" where
  "calls call [] f = Some f"
| "calls call (c # cs) f = Option.bind (call c f) (calls call cs)"

section \<open>What the formatters print\<close>

text \<open>A response body as a tree, and the calls that print it.\<close>

datatype ftree =
    FSection string "string option" "(string \<times> string) list" bool "ftree list"
  | FUnsigned string uint64
  | FInt string int
  | FString string string "(string \<times> string) list"
  | FStream string "string list"
  | FFormat string "string option" bool string

fun fcalls :: "ftree \<Rightarrow> fcall list" where
  "fcalls (FSection n ns attrs is_array ts) = OpenSection n ns attrs is_array # concat (map fcalls ts) @ [CloseSection]"
| "fcalls (FUnsigned n u) = [DumpUnsigned n u]"
| "fcalls (FInt n i) = [DumpInt n i]"
| "fcalls (FString n s attrs) = [DumpString n s attrs]"
| "fcalls (FStream n ss) = DumpStream n # map StreamWrite ss"
| "fcalls (FFormat n ns quoted s) = [DumpFormat n ns quoted s]"

text \<open>A stream needs a name: an empty one would leave its text pending.\<close>

fun streams_named :: "ftree \<Rightarrow> bool" where
  "streams_named (FSection n ns attrs is_array ts) = list_all streams_named ts"
| "streams_named (FStream n ss) = (n \<noteq> [])"
| "streams_named _ = True"

definition ns_attr :: "string option \<Rightarrow> (string \<times> string) list" where
  "ns_attr ns = (case ns of None \<Rightarrow> [] | Some x \<Rightarrow> [(''xmlns'', x)])"

text \<open>The document of a tree with its values as they are, a document with everything escaped, and the
  document that is printed: there the values of attributes, the namespaces and the text of an element
  with a namespace are as they are.\<close>

fun xml_doc :: "ftree \<Rightarrow> xtree" where
  "xml_doc (FSection n ns attrs is_array ts) = Elem n (attrs @ ns_attr ns) (map xml_doc ts)"
| "xml_doc (FUnsigned n u) = Elem n [] [Txt (dec (unat u))]"
| "xml_doc (FInt n i) = Elem n [] [Txt (dec_int_str i)]"
| "xml_doc (FString n s attrs) = Elem n attrs [Txt s]"
| "xml_doc (FStream n ss) = Elem n [] [Txt (concat ss)]"
| "xml_doc (FFormat n ns quoted s) = Elem n (ns_attr ns) [Txt s]"

fun escape_doc :: "xtree \<Rightarrow> xtree" where
  "escape_doc (Txt s) = Txt (escape_xml_str s)"
| "escape_doc (Elem n attr ts) = Elem n (map (\<lambda>(k, v). (k, escape_xml_str v)) attr) (map escape_doc ts)"

fun printed_doc :: "ftree \<Rightarrow> xtree" where
  "printed_doc (FSection n ns attrs is_array ts) = Elem n (attrs @ ns_attr ns) (map printed_doc ts)"
| "printed_doc (FUnsigned n u) = Elem n [] [Txt (dec (unat u))]"
| "printed_doc (FInt n i) = Elem n [] [Txt (dec_int_str i)]"
| "printed_doc (FString n s attrs) = Elem n attrs [Txt (escape_xml_str s)]"
| "printed_doc (FStream n ss) = Elem n [] [Txt (escape_xml_str (concat ss))]"
| "printed_doc (FFormat n ns quoted s) = Elem n (ns_attr ns) [Txt (if ns = None then escape_xml_str s else s)]"

text \<open>The values that are printed as they are need no escaping.\<close>

definition unescaped_ok :: "(string \<times> string) list \<Rightarrow> bool" where
  "unescaped_ok attrs \<longleftrightarrow> list_all (\<lambda>(k, v). escape_xml_str v = v) attrs"

fun raw_values_ok :: "ftree \<Rightarrow> bool" where
  "raw_values_ok (FSection n ns attrs is_array ts) \<longleftrightarrow> unescaped_ok (attrs @ ns_attr ns) \<and> list_all raw_values_ok ts"
| "raw_values_ok (FString n s attrs) \<longleftrightarrow> unescaped_ok attrs"
| "raw_values_ok (FFormat n ns quoted s) \<longleftrightarrow> unescaped_ok (ns_attr ns) \<and> (ns \<noteq> None \<longrightarrow> escape_xml_str s = s)"
| "raw_values_ok _ \<longleftrightarrow> True"

lemma escape_xml_attr_plain:
  "\<forall>c \<in> set s. c \<notin> {CHR ''<'', CHR ''&'', CHR ''>'', CHR 0x27, DQUOTE, NUL} \<and> \<not> xml_control c \<Longrightarrow> escape_xml_attr s = s @ [NUL]"
  by (induction s) simp_all

lemma escape_xml_str_plain:
  assumes "\<forall>c \<in> set s. c \<notin> {CHR ''<'', CHR ''&'', CHR ''>'', CHR 0x27, DQUOTE, NUL} \<and> \<not> xml_control c"
  shows "escape_xml_str s = s"
proof -
  have nul: "\<forall>c \<in> set s. c \<noteq> NUL" using assms by simp
  then have "c_str s = s" "c_str (s @ [NUL]) = s" by (simp_all add: c_str_def takeWhile_append2)
  then show ?thesis using escape_xml_attr_plain [OF assms] by (simp add: escape_xml_str_def)
qed

lemma escape_digits:
  assumes "\<forall>c \<in> set s. isdigit c \<or> c = CHR ''-''"
  shows "escape_xml_str s = s"
proof (rule escape_xml_str_plain, intro ballI)
  fix c assume "c \<in> set s"
  then have "isdigit c \<or> c = CHR ''-''" using assms by blast
  then show "c \<notin> {CHR ''<'', CHR ''&'', CHR ''>'', CHR 0x27, DQUOTE, NUL} \<and> \<not> xml_control c"
    by (elim disjE) (auto simp: isdigit_def xml_control_def)
qed

lemma escape_dec [simp]: "escape_xml_str (dec n) = dec n" "escape_xml_str (dec_int_str i) = dec_int_str i"
  using dec_digits by (auto intro!: escape_digits simp: dec_int_str_def)

lemma escape_attrs: "map (\<lambda>(k, v). (k, escape_xml_str v)) attrs = attrs \<longleftrightarrow> unescaped_ok attrs"
  by (induction attrs) (auto simp: unescaped_ok_def)

lemma printed_doc_escaped: "printed_doc t = escape_doc (xml_doc t) \<longleftrightarrow> raw_values_ok t"
proof (induction t)
  case (FSection n ns attrs is_array ts)
  have "map printed_doc us = map (escape_doc \<circ> xml_doc) us \<longleftrightarrow> list_all raw_values_ok us" if "set us \<subseteq> set ts" for us
    using that FSection.IH by (induction us) auto
  from this [of ts] show ?case
    using escape_attrs [of "attrs @ ns_attr ns"] by (auto simp del: map_append map_eq_conv)
next
  case (FString n s attrs)
  then show ?case using escape_attrs [of attrs] by auto
next
  case (FFormat n ns quoted s)
  then show ?case using escape_attrs [of "ns_attr ns"] by (cases ns) auto
qed simp_all

lemma calls_append: "calls call (cs @ ds) f = Option.bind (calls call cs f) (calls call ds)"
  by (induction cs arbitrary: f) (auto split: Option.bind_split)

text \<open>A formatter without indentation that has printed \<open>out\<close>, counting the pending string, inside of the
  given sections.\<close>

definition xf_state :: "xml_formatter \<Rightarrow> string \<Rightarrow> string list \<Rightarrow> bool" where
  "xf_state f out secs \<longleftrightarrow>
     \<not> xf_pretty f \<and> xf_sections f = secs \<and> (xf_pending_name f = [] \<longrightarrow> xf_pending f = []) \<and>
     xf_ss (xf_finish_pending_string f) = out"

lemma xf_state_new: "xf_state (new_xml_formatter False) [] []"
  by (simp add: xf_state_def new_xml_formatter_def xf_finish_pending_string_def)

lemma xf_finish:
  assumes "xf_state f out secs"
  shows "xf_finish_pending_string f = f\<lparr>xf_ss := out, xf_pending := [], xf_pending_name := []\<rparr>"
  using assms by (auto simp: xf_state_def xf_finish_pending_string_def xf_put_def newline_if_def split: if_splits)

lemma xf_state_flush: "xf_state f out secs \<Longrightarrow> fst (xf_flush f) = out"
  by (simp add: xf_flush_def Let_def xf_finish newline_if_def) (simp add: xf_state_def)

lemma xf_spaces:
  assumes "xf_state f out secs"
  shows "xf_print_spaces f = f\<lparr>xf_ss := out, xf_pending := [], xf_pending_name := []\<rparr>"
  using assms by (simp add: xf_print_spaces_def xf_finish [OF assms] Let_def) (simp add: xf_state_def)

lemma xf_state_clean:
  "xf_state (f\<lparr>xf_ss := out, xf_pending := [], xf_pending_name := [], xf_sections := secs\<rparr>) out secs \<longleftrightarrow> \<not> xf_pretty f"
  by (simp add: xf_state_def xf_finish_pending_string_def)

lemma xf_state_element:
  assumes "xf_state f out secs"
  shows "xf_state (xf_element e attrs body f) (out @ ''<'' @ e @ attrs @ ''>'' @ body @ ''</'' @ e @ ''>'') secs"
  using assms
  by (simp add: xf_element_def xf_spaces [OF assms] Let_def xf_put_def newline_if_def)
    (simp add: xf_state_def xf_finish_pending_string_def)

lemma xf_state_open:
  assumes "xf_state f out secs"
  shows "xf_state (xf_open_section_in_ns n ns attrs f) (out @ ''<'' @ n @ get_attrs_str attrs @ ns_str ns @ ''>'') (secs @ [n])"
  using assms
  by (simp add: xf_open_section_in_ns_def xf_spaces [OF assms] Let_def xf_put_def newline_if_def)
    (simp add: xf_state_def xf_finish_pending_string_def)

lemma xf_state_close:
  assumes "xf_state f out (secs @ [n])"
  obtains f' where "xf_close_section f = Some f'" and "xf_state f' (out @ ''</'' @ n @ ''>'') secs"
proof -
  let ?f = "f\<lparr>xf_ss := out, xf_pending := [], xf_pending_name := [], xf_sections := secs\<rparr>"
  have clean: "xf_state ?f out secs" using assms by (simp only: xf_state_clean) (simp add: xf_state_def)
  have "xf_sections f = secs @ [n]" using assms by (simp add: xf_state_def)
  then have "xf_close_section f = Some (xf_put (newline_if (xf_pretty f)) (xf_put (''</'' @ n @ ''>'') (xf_print_spaces ?f)))"
    by (simp add: xf_close_section_def xf_finish [OF assms] Let_def xf_put_def xf_spaces [OF clean])
  moreover have "xf_state (xf_put (newline_if (xf_pretty f)) (xf_put (''</'' @ n @ ''>'') (xf_print_spaces ?f))) (out @ ''</'' @ n @ ''>'') secs"
    using assms by (simp add: xf_spaces [OF clean]) (simp add: xf_state_def xf_finish_pending_string_def xf_put_def newline_if_def)
  ultimately show ?thesis by (rule that)
qed

lemma stream_writes:
  "calls xf_call (map StreamWrite ss) f = Some (f\<lparr>xf_pending := xf_pending f @ concat ss\<rparr>)"
  by (induction ss arbitrary: f) simp_all

lemma xf_state_stream:
  assumes "xf_state f out secs" and "n \<noteq> []"
  shows "\<exists>f'. calls xf_call (DumpStream n # map StreamWrite ss) f = Some f' \<and>
    xf_state f' (out @ ''<'' @ n @ ''>'' @ escape_xml_str (concat ss) @ ''</'' @ n @ ''>'') secs"
  using assms
  by (simp add: stream_writes xf_spaces [OF assms(1)] Let_def xf_put_def)
    (simp add: xf_state_def xf_finish_pending_string_def xf_put_def newline_if_def)

lemma get_attrs_str_append: "get_attrs_str (a @ b) = get_attrs_str a @ get_attrs_str b"
  by (simp add: get_attrs_str_def)

lemma get_attrs_str_ns: "get_attrs_str (ns_attr ns) = ns_str ns"
  by (simp add: get_attrs_str_def ns_attr_def ns_str_def split: option.splits)

lemma render_elem: "render (Elem n attrs ts) = ''<'' @ n @ get_attrs_str attrs @ ''>'' @ concat (map render ts) @ ''</'' @ n @ ''>''"
  by (simp add: get_attrs_str_def)

lemma xf_calls_concat:
  assumes "\<And>t f out secs. t \<in> set ts \<Longrightarrow> xf_state f out secs \<Longrightarrow>
      \<exists>f'. calls xf_call (fcalls t) f = Some f' \<and> xf_state f' (out @ render (printed_doc t)) secs"
    and "xf_state f out secs"
  shows "\<exists>f'. calls xf_call (concat (map fcalls ts)) f = Some f' \<and> xf_state f' (out @ concat (map (render \<circ> printed_doc) ts)) secs"
  using assms
proof (induction ts arbitrary: f out)
  case (Cons t ts)
  obtain f1 where f1: "calls xf_call (fcalls t) f = Some f1" "xf_state f1 (out @ render (printed_doc t)) secs"
    using Cons.prems(1) [OF _ Cons.prems(2), of t] by auto
  have "\<exists>f'. calls xf_call (concat (map fcalls ts)) f1 = Some f' \<and>
      xf_state f' ((out @ render (printed_doc t)) @ concat (map (render \<circ> printed_doc) ts)) secs"
    using Cons.prems(1) by (intro Cons.IH [OF _ f1(2)]) simp
  with f1(1) show ?case by (auto simp: calls_append comp_def)
qed simp

lemma xf_calls_tree:
  "streams_named t \<Longrightarrow> xf_state f out secs \<Longrightarrow>
     \<exists>f'. calls xf_call (fcalls t) f = Some f' \<and> xf_state f' (out @ render (printed_doc t)) secs"
proof (induction t arbitrary: f out secs)
  case (FSection n ns attrs is_array ts)
  let ?open = "xf_open_section_in_ns n ns attrs f"
  let ?out = "out @ ''<'' @ n @ get_attrs_str attrs @ ns_str ns @ ''>''"
  have "\<exists>f'. calls xf_call (concat (map fcalls ts)) ?open = Some f' \<and>
      xf_state f' (?out @ concat (map (render \<circ> printed_doc) ts)) (secs @ [n])"
    using FSection by (intro xf_calls_concat xf_state_open) (auto simp: list_all_iff)
  then obtain f1 where f1: "calls xf_call (concat (map fcalls ts)) ?open = Some f1"
    "xf_state f1 (?out @ concat (map (render \<circ> printed_doc) ts)) (secs @ [n])" by blast
  obtain f2 where "xf_close_section f1 = Some f2"
    "xf_state f2 ((?out @ concat (map (render \<circ> printed_doc) ts)) @ ''</'' @ n @ ''>'') secs"
    using xf_state_close [OF f1(2)] .
  with f1(1) show ?case
    by (simp add: calls_append render_elem get_attrs_str_append get_attrs_str_ns del: render.simps)
next
  case (FStream n ss)
  then show ?case
    using xf_state_stream [of f out secs n ss] by simp
next
  case (FUnsigned n u)
  then show ?case using xf_state_element [of f out secs n "[]"] by simp
next
  case (FInt n i)
  then show ?case using xf_state_element [of f out secs n "[]"] by simp
next
  case (FString n s attrs)
  then show ?case
    using xf_state_element [of f out secs n "get_attrs_str attrs"] by (simp add: render_elem del: render.simps(2))
next
  case (FFormat n ns quoted s)
  have "ns_str None = []" by (simp add: ns_str_def)
  with FFormat show ?case
    using xf_state_element [of f out secs n "ns_str ns"]
    by (cases ns) (simp_all add: render_elem get_attrs_str_ns del: render.simps(2))
qed

text \<open>C17: Printing trees with the XML formatter never fails its assertion, leaves every section closed and
  outputs exactly the text of the printed documents, in which every element opened is closed in order.
  They are the documents of the trees with every text and attribute value escaped precisely where no
  attribute value, no namespace and no text of an element with a namespace contains a character to
  escape: those three the formatter writes as they are, all other texts it escapes.\<close>

theorem xml_formatter_prints:
  assumes "list_all streams_named ts"
  shows "(\<exists>f. calls xf_call (concat (map fcalls ts)) (new_xml_formatter False) = Some f \<and> xf_sections f = [] \<and>
      fst (xf_flush f) = concat (map (render \<circ> printed_doc) ts)) \<and>
    (map printed_doc ts = map (escape_doc \<circ> xml_doc) ts \<longleftrightarrow> list_all raw_values_ok ts)"
proof
  have "\<exists>f. calls xf_call (concat (map fcalls ts)) (new_xml_formatter False) = Some f \<and>
      xf_state f ([] @ concat (map (render \<circ> printed_doc) ts)) []"
    using assms by (intro xf_calls_concat xf_state_new xf_calls_tree) (auto simp: list_all_iff)
  then obtain f where f: "calls xf_call (concat (map fcalls ts)) (new_xml_formatter False) = Some f"
    "xf_state f (concat (map (render \<circ> printed_doc) ts)) []" by auto
  moreover have "xf_sections f = []" using f(2) by (simp add: xf_state_def)
  ultimately show "\<exists>f. calls xf_call (concat (map fcalls ts)) (new_xml_formatter False) = Some f \<and> xf_sections f = [] \<and>
      fst (xf_flush f) = concat (map (render \<circ> printed_doc) ts)"
    using xf_state_flush by blast
  show "map printed_doc ts = map (escape_doc \<circ> xml_doc) ts \<longleftrightarrow> list_all raw_values_ok ts"
    by (induction ts) (simp_all add: printed_doc_escaped)
qed

theorem xml_formatter_prints_witness:
  "(\<exists>f. calls xf_call [OpenSection ''Owner'' None [] False, DumpString ''ID'' ''a&b'' [(''k'', ''v'')],
        DumpFormat ''Name'' (Some ''http://x/'') True ''a&b'', CloseSection] (new_xml_formatter False) = Some f \<and>
      fst (xf_flush f) = ''<Owner><ID k='' @ [DQUOTE] @ ''v'' @ [DQUOTE] @ ''>a&amp;b</ID><Name xmlns='' @ [DQUOTE] @ ''http://x/'' @
        [DQUOTE] @ ''>a&b</Name></Owner>'') \<and>
   \<not> raw_values_ok (FFormat ''Name'' (Some ''http://x/'') True ''a&b'') \<and> raw_values_ok (FString ''ID'' ''a&b'' [(''k'', ''v'')])"
proof -
  have "escape_xml_str ''a&b'' = ''a&amp;b''" "escape_xml_str ''v'' = ''v''" by code_simp+
  then show ?thesis
    using xml_formatter_prints [of "[FSection ''Owner'' None [] False [FString ''ID'' ''a&b'' [(''k'', ''v'')],
      FFormat ''Name'' (Some ''http://x/'') True ''a&b'']]"]
    by (auto simp: ns_attr_def unescaped_ok_def)
qed

section \<open>JSON\<close>

fun join :: "string list \<Rightarrow> string" where
  "join [] = []"
| "join [x] = x"
| "join (x # y # xs) = x @ '','' @ join (y # xs)"

text \<open>The value of a node: brackets around the members, which are separated by commas and named in
  objects.  Quoted texts print as nothing.\<close>

fun json_name :: "ftree \<Rightarrow> string" where
  "json_name (FSection n ns attrs is_array ts) = (case ns of None \<Rightarrow> n | Some x \<Rightarrow> n @ '' '' @ x)"
| "json_name (FUnsigned n u) = n"
| "json_name (FInt n i) = n"
| "json_name (FString n s attrs) = n"
| "json_name (FStream n ss) = n"
| "json_name (FFormat n ns quoted s) = n"

definition json_member :: "bool \<Rightarrow> string \<Rightarrow> string \<Rightarrow> string" where
  "json_member in_array n v = (if in_array then v else DQUOTE # n @ DQUOTE # '':'' @ v)"

fun json_value :: "ftree \<Rightarrow> string" where
  "json_value (FSection n ns attrs is_array ts) =
     (if is_array then ''['' else ''{'') @ join (map (\<lambda>t. json_member is_array (json_name t) (json_value t)) ts) @
     (if is_array then '']'' else ''}'')"
| "json_value (FUnsigned n u) = dec (unat u)"
| "json_value (FInt n i) = dec_int_str i"
| "json_value (FString n s attrs) = []"
| "json_value (FStream n ss) = []"
| "json_value (FFormat n ns quoted s) = (if quoted then [] else s)"

definition jf_state :: "json_formatter \<Rightarrow> string \<Rightarrow> json_entry list \<Rightarrow> bool" where
  "jf_state f out stack \<longleftrightarrow> \<not> jf_pretty f \<and> jf_stack f = stack \<and> jf_ss f = out"

definition count_member :: "json_entry list \<Rightarrow> json_entry list" where
  "count_member stack = (if stack = [] then [] else butlast stack @ [(last stack)\<lparr>je_size := je_size (last stack) + 1\<rparr>])"

definition member_text :: "json_entry list \<Rightarrow> string \<Rightarrow> string \<Rightarrow> string" where
  "member_text stack n v =
     (if stack = [] then v
      else (if je_size (last stack) = 0 then [] else '','') @ json_member (je_is_array (last stack)) n v)"

lemma jf_finish [simp]:
  "jf_pretty (jf_finish_pending_string f) = jf_pretty f" "jf_stack (jf_finish_pending_string f) = jf_stack f"
  "jf_ss (jf_finish_pending_string f) = jf_ss f"
  by (simp_all add: jf_finish_pending_string_def jf_print_quoted_string_def)

lemma jf_state_name:
  assumes "jf_state f out stack"
  shows "jf_state (jf_print_name n f) (out @ member_text stack n []) (count_member stack)"
  using assms
  by (auto simp: jf_state_def jf_print_name_def Let_def jf_print_comma_def jf_put_def member_text_def count_member_def json_member_def)

lemma member_text_value: "member_text stack n v = member_text stack n [] @ v"
  by (simp add: member_text_def json_member_def)

lemma jf_state_put: "jf_state f out stack \<Longrightarrow> jf_state (jf_put s f) (out @ s) stack"
  by (simp add: jf_state_def jf_put_def)

lemma jf_state_pending [simp]:
  "jf_state (f\<lparr>jf_is_pending := b\<rparr>) out stack = jf_state f out stack" "jf_state (f\<lparr>jf_pending := s\<rparr>) out stack = jf_state f out stack"
  by (simp_all add: jf_state_def)

fun comma_members :: "bool \<Rightarrow> nat \<Rightarrow> ftree list \<Rightarrow> string" where
  "comma_members a k [] = []"
| "comma_members a k (t # ts) =
     (if k = 0 then [] else '','') @ json_member a (json_name t) (json_value t) @ comma_members a (Suc k) ts"

lemma comma_members_join:
  "comma_members a (Suc k) ts =
     (if ts = [] then [] else '','' @ join (map (\<lambda>t. json_member a (json_name t) (json_value t)) ts))"
proof (induction ts arbitrary: k)
  case (Cons t ts)
  then show ?case by (cases ts) auto
qed simp

lemma comma_members_join_0: "comma_members a 0 ts = join (map (\<lambda>t. json_member a (json_name t) (json_value t)) ts)"
proof (cases ts)
  case (Cons t us)
  have "comma_members a 0 (t # us) = json_member a (json_name t) (json_value t) @ comma_members a (Suc 0) us" by simp
  then show ?thesis by (simp only: Cons comma_members_join) (cases us; simp)
qed simp

definition jf_prints :: "ftree \<Rightarrow> bool" where
  "jf_prints t \<longleftrightarrow> (\<forall>f out stack. jf_state f out stack \<longrightarrow>
     (\<exists>f'. calls jf_call (fcalls t) f = Some f' \<and>
        jf_state f' (out @ member_text stack (json_name t) (json_value t)) (count_member stack)))"

lemma jf_printsD:
  assumes "jf_prints t" and "jf_state f out stack"
  obtains f' where "calls jf_call (fcalls t) f = Some f'"
    and "jf_state f' (out @ member_text stack (json_name t) (json_value t)) (count_member stack)"
  using assms unfolding jf_prints_def by blast

lemma jf_calls_members:
  "list_all jf_prints ts \<Longrightarrow> jf_state f out (stack @ [\<lparr>je_size = k, je_is_array = a\<rparr>]) \<Longrightarrow>
     \<exists>f'. calls jf_call (concat (map fcalls ts)) f = Some f' \<and>
       jf_state f' (out @ comma_members a k ts) (stack @ [\<lparr>je_size = k + length ts, je_is_array = a\<rparr>])"
proof (induction ts arbitrary: f out k)
  case (Cons t ts)
  let ?stack = "stack @ [\<lparr>je_size = k, je_is_array = a\<rparr>]"
  obtain f1 where f1: "calls jf_call (fcalls t) f = Some f1"
    "jf_state f1 (out @ member_text ?stack (json_name t) (json_value t)) (count_member ?stack)"
    using jf_printsD [OF _ Cons.prems(2)] Cons.prems(1) by auto
  have "count_member ?stack = stack @ [\<lparr>je_size = Suc k, je_is_array = a\<rparr>]" by (simp add: count_member_def)
  with f1(2) have "jf_state f1 (out @ member_text ?stack (json_name t) (json_value t)) (stack @ [\<lparr>je_size = Suc k, je_is_array = a\<rparr>])"
    by simp
  from Cons.IH [OF _ this] Cons.prems(1) obtain f2
    where "calls jf_call (concat (map fcalls ts)) f1 = Some f2"
      "jf_state f2 ((out @ member_text ?stack (json_name t) (json_value t)) @ comma_members a (Suc k) ts)
        (stack @ [\<lparr>je_size = Suc k + length ts, je_is_array = a\<rparr>])"
    by auto
  with f1(1) show ?case by (auto simp: calls_append member_text_def)
qed simp

lemma jf_state_simple:
  assumes "\<And>f. jf_call c f = Some (jf_put s (jf_print_name n f))" and "jf_state f out stack"
  shows "\<exists>f'. calls jf_call [c] f = Some f' \<and> jf_state f' (out @ member_text stack n s) (count_member stack)"
  using jf_state_put [OF jf_state_name [OF assms(2)], of s n] assms(1) by (simp add: member_text_value [of stack n s])

lemma jf_put_Nil: "jf_put [] f = f"
  by (simp add: jf_put_def)

lemma jf_state_close:
  "jf_state f out (stack @ [e]) \<Longrightarrow>
     \<exists>f'. jf_close_section f = Some f' \<and> jf_state f' (out @ (if je_is_array e then '']'' else ''}'')) stack"
  by (simp add: jf_close_section_def jf_state_def Let_def jf_put_def)

lemma jf_stream_writes: "calls jf_call (map StreamWrite ss) f = Some (f\<lparr>jf_pending := jf_pending f @ concat ss\<rparr>)"
  by (induction ss arbitrary: f) simp_all

lemma jf_prints_tree: "jf_prints t"
proof (induction t)
  case (FSection n ns attrs a ts)
  show ?case unfolding jf_prints_def
  proof (intro allI impI)
    fix f out stack assume f: "jf_state f out stack"
    let ?n = "json_name (FSection n ns attrs a ts)"
    let ?out = "out @ member_text stack ?n [] @ (if a then ''['' else ''{'')"
    have "jf_state (jf_open_section ?n a f) ?out (count_member stack @ [\<lparr>je_size = 0, je_is_array = a\<rparr>])"
      using jf_state_put [OF jf_state_name [OF f]] by (simp add: jf_open_section_def Let_def jf_state_def)
    from jf_calls_members [OF _ this, of ts] FSection obtain f1
      where f1: "calls jf_call (concat (map fcalls ts)) (jf_open_section ?n a f) = Some f1"
        "jf_state f1 (?out @ comma_members a 0 ts) (count_member stack @ [\<lparr>je_size = length ts, je_is_array = a\<rparr>])"
      by (auto simp: list_all_iff)
    from jf_state_close [OF f1(2)] obtain f2 where "jf_close_section f1 = Some f2"
      "jf_state f2 ((?out @ comma_members a 0 ts) @ (if a then '']'' else ''}'')) (count_member stack)" by auto
    with f1(1) show "\<exists>f'. calls jf_call (fcalls (FSection n ns attrs a ts)) f = Some f' \<and>
        jf_state f' (out @ member_text stack ?n (json_value (FSection n ns attrs a ts))) (count_member stack)"
      unfolding member_text_value [of stack ?n "json_value _"]
      by (simp add: calls_append comma_members_join_0 cong: if_cong)
  qed
next
  case (FStream n ss)
  show ?case unfolding jf_prints_def
    by (auto simp: jf_stream_writes dest: jf_state_name [of _ _ _ n])
next
  case (FString n s attrs)
  show ?case unfolding jf_prints_def
    by (auto simp: jf_print_quoted_string_def dest: jf_state_name [of _ _ _ n])
next
  case (FFormat n ns quoted s)
  have "jf_call (DumpFormat n ns quoted s) f = Some (jf_put (if quoted then [] else s) (jf_print_name n f))" for f
    by (simp add: Let_def jf_print_quoted_string_def jf_put_Nil)
  from jf_state_simple [OF this] show ?case unfolding jf_prints_def by simp
qed (auto simp: jf_prints_def intro!: jf_state_simple simp del: calls.simps)

text \<open>C36: The JSON formatter prints a tree as nested brackets with members separated by commas and named in
  objects, and closes every section; but every text value is left out, so a member with a text prints only
  its name.\<close>

theorem json_formatter_prints:
  "\<exists>f. calls jf_call (fcalls t) (new_json_formatter False) = Some f \<and> jf_stack f = [] \<and> fst (jf_flush f) = json_value t"
proof -
  have "jf_state (new_json_formatter False) [] []" by (simp add: jf_state_def new_json_formatter_def)
  from jf_printsD [OF jf_prints_tree this] obtain f where "calls jf_call (fcalls t) (new_json_formatter False) = Some f"
    "jf_state f (json_value t) []" by (auto simp: member_text_def count_member_def)
  then show ?thesis by (auto simp: jf_state_def jf_flush_def Let_def newline_if_def)
qed

end
