(* ===== verification/Req_State.thy ===== *)
theory Req_State
  imports Acl_S3 Formatter
begin

text \<open>
  The state of a request, \<^verbatim>\<open>struct req_state\<close> of \<^verbatim>\<open>src/rgw/porting_common.h\<close>, and the
  permission checks on it from \<^verbatim>\<open>porting_common.cc\<close>.  The record has the fields that the modelled
  operations read or write; pointers that may be null are options.
\<close>

datatype http_op = OP_GET | OP_PUT | OP_DELETE | OP_HEAD | OP_POST | OP_COPY | OP_OPTIONS | OP_UNKNOWN

definition RGW_FORMAT_PLAIN :: int where
  "RGW_FORMAT_PLAIN = 0"

definition RGW_FORMAT_XML :: int where
  "RGW_FORMAT_XML = 1"

definition RGW_FORMAT_JSON :: int where
  "RGW_FORMAT_JSON = 2"

abbreviation (input) ERR_INVALID_BUCKET_NAME :: int where "ERR_INVALID_BUCKET_NAME \<equiv> 2000"
abbreviation (input) ERR_INVALID_OBJECT_NAME :: int where "ERR_INVALID_OBJECT_NAME \<equiv> 2001"
abbreviation (input) ERR_METHOD_NOT_ALLOWED :: int where "ERR_METHOD_NOT_ALLOWED \<equiv> 2003"
abbreviation (input) ERR_SIGNATURE_NO_MATCH :: int where "ERR_SIGNATURE_NO_MATCH \<equiv> 2027"
abbreviation (input) ERR_INVALID_ACCESS_KEY :: int where "ERR_INVALID_ACCESS_KEY \<equiv> 2028"

record req_state =
  rs_op :: http_op
  rs_content_started :: bool
  rs_format :: int
  rs_decoded_uri :: string
  rs_relative_uri :: string
  rs_length :: "string option"
  rs_content_length :: int
  rs_generic_attrs :: "string string_map"
  rs_err :: rgw_err
  rs_expect_cont :: bool
  rs_obj_size :: uint64
  rs_enable_ops_log :: bool
  rs_enable_usage_log :: bool
  rs_defer_to_bucket_acls :: nat
  rs_perm_mask :: "32 word"
  rs_header_time :: int
  rs_bucket :: rgw_bucket
  rs_bucket_name_str :: string
  rs_object :: rgw_obj_key
  rs_src_bucket_name :: string
  rs_src_object :: rgw_obj_key
  rs_bucket_owner :: acl_owner
  rs_owner :: acl_owner
  rs_bucket_info :: bucket_info
  rs_bucket_exists :: bool
  rs_has_bad_meta :: bool
  rs_user :: user_info
  rs_bucket_acl :: "acl_policy option"
  rs_object_acl :: "acl_policy option"
  rs_system_request :: bool
  rs_canned_acl :: string
  rs_has_acl_header :: bool
  rs_copy_source :: "string option"
  rs_http_auth :: "string option"
  rs_prot_flags :: "32 word"
  rs_dialect :: string
  rs_formatter :: "formatter option"
  rs_trans_id :: string
  rs_region_endpoint :: string
  rs_bucket_instance_id :: string
  rs_bucket_attrs :: "string string_map"
  rs_info :: req_info
  rs_env :: rgw_env

definition new_err :: rgw_err where
  "new_err = \<lparr>http_ret = 200, err_ret = 0, s3_code = [], message = []\<rparr>"

definition new_obj_key :: rgw_obj_key where
  "new_obj_key = \<lparr>okey_name = [], okey_instance = []\<rparr>"

text \<open>The constructor.  The members it does not set are those of their own constructors.\<close>

definition new_req_state :: "rgw_env \<Rightarrow> req_state" where
  "new_req_state e =
     \<lparr>rs_op = OP_UNKNOWN, rs_content_started = False, rs_format = 0, rs_decoded_uri = [], rs_relative_uri = [],
      rs_length = None, rs_content_length = 0, rs_generic_attrs = [], rs_err = new_err, rs_expect_cont = False, rs_obj_size = 0,
      rs_enable_ops_log = enable_ops_log (conf e), rs_enable_usage_log = enable_usage_log (conf e),
      rs_defer_to_bucket_acls = defer_to_bucket_acls (conf e), rs_perm_mask = 0, rs_header_time = 0,
      rs_bucket = new_bucket, rs_bucket_name_str = [], rs_object = new_obj_key, rs_src_bucket_name = [],
      rs_src_object = new_obj_key, rs_bucket_owner = new_owner, rs_owner = new_owner,
      rs_bucket_info = new_bucket_info, rs_bucket_exists = False, rs_has_bad_meta = False,
      rs_user = new_user, rs_bucket_acl = None, rs_object_acl = None, rs_system_request = False,
      rs_canned_acl = [], rs_has_acl_header = False, rs_copy_source = None, rs_http_auth = None,
      rs_prot_flags = 0, rs_dialect = [], rs_formatter = None, rs_trans_id = [], rs_region_endpoint = [],
      rs_bucket_instance_id = [], rs_bucket_attrs = [], rs_info = req_info_init e, rs_env = e\<rparr>"

section \<open>Permission checks\<close>

definition verify_requester_payer_permission :: "req_state \<Rightarrow> bool" where
  "verify_requester_payer_permission s =
     (if \<not> bi_requester_pays (rs_bucket_info s) then True
      else if bi_owner (rs_bucket_info s) = user_id (rs_user s) then True
      else case env_get (rs_env s) ''HTTP_X_AMZ_REQUEST_PAYER'' None of
        Some request_payer \<Rightarrow> strcaseeq request_payer ''requester''
      | None \<Rightarrow>
          (case args_get (args (rs_info s)) ''x-amz-request-payer'' of
             (request_payer, exists) \<Rightarrow> if \<not> exists then False else strcaseeq request_payer ''requester''))"

text \<open>The body of this function is disabled by \<^verbatim>\<open>#if 0\<close>.\<close>

definition verify_bucket_permission :: "req_state \<Rightarrow> 32 word \<Rightarrow> bool" where
  "verify_bucket_permission s perm = True"

definition check_deferred_bucket_acl :: "req_state \<Rightarrow> nat \<Rightarrow> 32 word \<Rightarrow> bool" where
  "check_deferred_bucket_acl s deferred_check perm \<longleftrightarrow>
     rs_defer_to_bucket_acls s = deferred_check \<and> verify_bucket_permission s perm"

text \<open>The code after \<^verbatim>\<open>if (1)\<close>, for Swift lists, is not reached.  The policy of an object is one of the base class, whose
  \<^verbatim>\<open>compare_group_name\<close> is false.\<close>

definition verify_object_permission :: "req_state \<Rightarrow> acl_policy option \<Rightarrow> acl_policy option \<Rightarrow> 32 word \<Rightarrow> bool" where
  "verify_object_permission s bucket_acl object_acl perm =
     (if \<not> verify_requester_payer_permission s then False
      else if check_deferred_bucket_acl s RGW_DEFER_TO_BUCKET_ACLS_RECURSE perm \<or>
        check_deferred_bucket_acl s RGW_DEFER_TO_BUCKET_ACLS_FULL_CONTROL RGW_PERM_FULL_CONTROL then True
      else case object_acl of
        None \<Rightarrow> False
      | Some p \<Rightarrow> verify_permission no_group_name p (user_id (rs_user s)) (rs_perm_mask s) perm)"

definition verify_object_permission_req :: "req_state \<Rightarrow> 32 word \<Rightarrow> bool" where
  "verify_object_permission_req s perm = verify_object_permission s (rs_bucket_acl s) (rs_object_acl s) perm"

text \<open>C33: For every request of a gateway whose configuration has been initialised, the object check depends
  only on the requester-pays rule: it grants every permission whatever the access control list of the object
  says, and also when the object has none.\<close>

theorem object_acl_never_consulted:
  assumes "rs_defer_to_bucket_acls s = rs_defer_to_bucket_acls (new_req_state (env_init envp e))"
  shows "verify_object_permission s bucket_acl object_acl perm = verify_requester_payer_permission s"
  using assms
  by (simp add: verify_object_permission_def check_deferred_bucket_acl_def verify_bucket_permission_def
      new_req_state_def env_init_def Let_def conf_init_def)

theorem object_acl_never_consulted_witness:
  "verify_object_permission (new_req_state (env_init [''REQUEST_METHOD=GET''] new_env)) None None RGW_PERM_FULL_CONTROL"
  using object_acl_never_consulted [of "new_req_state (env_init [''REQUEST_METHOD=GET''] new_env)" "[''REQUEST_METHOD=GET'']" new_env]
  by (simp add: verify_requester_payer_permission_def new_req_state_def new_bucket_info_def)

text \<open>Without deferral to the bucket list, an object permission is granted exactly when the requester-pays
  rule allows the request and every permission asked for is in the mask of the user and follows from the
  grants of the object.\<close>

lemma verify_object_permission_iff:
  assumes "rs_defer_to_bucket_acls s = 0" and "rs_object_acl s = Some p" and "acl_inv (pol_acl p)"
  shows "verify_object_permission_req s perm \<longleftrightarrow> verify_requester_payer_permission s \<and>
    (\<forall>n. bit perm n \<longrightarrow> bit (rs_perm_mask s) n \<and> effective no_group_name p (user_id (rs_user s)) n)"
  using assms
  by (simp add: verify_object_permission_req_def verify_object_permission_def check_deferred_bucket_acl_def
      RGW_DEFER_TO_BUCKET_ACLS_RECURSE_def RGW_DEFER_TO_BUCKET_ACLS_FULL_CONTROL_def verify_permission_bits)

end
