(* ===== verification/Conf.thy ===== *)
theory Conf
  imports Req_Info Users
begin

text \<open>
  Configuration and counter files: the global configuration \<^verbatim>\<open>struct globals\<close>
  (\<^verbatim>\<open>src/global/global.cc\<close>, with the defaults of \<^verbatim>\<open>main\<close>), the line parser
  \<^verbatim>\<open>parse_conf\<close> of \<^verbatim>\<open>src/rgw/porting_common.cc\<close>, and \<^verbatim>\<open>sys_info\<close> and the system
  object of a user from \<^verbatim>\<open>src/rgw/porting_tools.cc\<close>.  A file is its content, or \<^term>\<open>None\<close> when
  it cannot be opened.
\<close>

section \<open>Global configuration\<close>

record globals =
  g_hostname :: string
  g_log_file_size :: "32 word"
  g_rgw_thread_pool_size :: int
  g_rgw_list_buckets_max_chunk :: int
  g_rgw_relaxed_s3_bucket_names :: bool
  g_buckets_root :: string
  g_sys_user_bucket_root :: string
  g_rgw_max_chunk_size :: uint64
  g_rgw_max_put_size :: int
  g_server_uid :: "32 word"
  g_user_name :: string
  g_group_name :: string
  g_rgw_s3_auth_use_rados :: bool
  g_rgw_expose_bucket :: bool
  g_rgw_cache_lru_size :: int
  g_rgw_num_rados_handles :: "32 word"
  g_rgw_cache_enabled :: bool
  g_bucket_default_quota_max_objects :: int
  g_bucket_default_quota_max_size :: int
  g_user_default_quota_max_objects :: int
  g_user_default_quota_max_size :: int
  g_rgw_multipart_min_part_size :: uint64
  g_rgw_multipart_part_upload_limit :: int

text \<open>\<^verbatim>\<open>globals::init\<close> on the zero-initialised static object.\<close>

definition globals_init :: globals where
  "globals_init =
     \<lparr>g_hostname = [], g_log_file_size = 0, g_rgw_thread_pool_size = 0, g_rgw_list_buckets_max_chunk = 0,
      g_rgw_relaxed_s3_bucket_names = True, g_buckets_root = [], g_sys_user_bucket_root = [],
      g_rgw_max_chunk_size = 0, g_rgw_max_put_size = 0, g_server_uid = 0, g_user_name = [], g_group_name = [],
      g_rgw_s3_auth_use_rados = False, g_rgw_expose_bucket = True, g_rgw_cache_lru_size = 0,
      g_rgw_num_rados_handles = 0, g_rgw_cache_enabled = False,
      g_bucket_default_quota_max_objects = - 1, g_bucket_default_quota_max_size = - 1,
      g_user_default_quota_max_objects = - 1, g_user_default_quota_max_size = - 1,
      g_rgw_multipart_min_part_size = 0, g_rgw_multipart_part_upload_limit = 0\<rparr>"

text \<open>The defaults that \<^verbatim>\<open>main\<close> sets; the host name is the output of a command.\<close>

definition main_defaults :: "string \<Rightarrow> globals \<Rightarrow> globals" where
  "main_defaults hostname g =
     g\<lparr>g_log_file_size := 104857600, g_hostname := hostname, g_rgw_thread_pool_size := 1,
       g_rgw_list_buckets_max_chunk := 1000, g_buckets_root := ''/fisamba'', g_rgw_max_chunk_size := 4194304,
       g_rgw_max_put_size := 1073741824, g_rgw_cache_lru_size := 10000, g_rgw_num_rados_handles := 1,
       g_rgw_cache_enabled := False, g_sys_user_bucket_root := ''/.sys_user'',
       g_rgw_multipart_min_part_size := 5242880, g_rgw_multipart_part_upload_limit := 10000\<rparr>"

definition set_global_params :: "string \<Rightarrow> string \<Rightarrow> globals \<Rightarrow> globals" where
  "set_global_params name val g =
     (if name = ''buckets_root'' then g\<lparr>g_buckets_root := val\<rparr>
      else if name = ''rgw_max_chunk_size'' then g\<lparr>g_rgw_max_chunk_size := word_of_int (atoi val)\<rparr>
      else if name = ''rgw_max_put_size'' then g\<lparr>g_rgw_max_put_size := atoi val\<rparr>
      else if name = ''rgw_thread_pool_size'' then g\<lparr>g_rgw_thread_pool_size := atoi val\<rparr>
      else if name = ''rgw_list_buckets_max_chunk'' then g\<lparr>g_rgw_list_buckets_max_chunk := atoi val\<rparr>
      else if name = ''logFileSize'' then g\<lparr>g_log_file_size := word_of_int (atoi val)\<rparr>
      else if name = ''server_uid'' then g\<lparr>g_server_uid := word_of_int (atoi val)\<rparr>
      else if name = ''user_name'' then g\<lparr>g_user_name := val\<rparr>
      else if name = ''group_name'' then g\<lparr>g_group_name := val\<rparr>
      else if name = ''rgw_s3_auth_use_rados'' then g\<lparr>g_rgw_s3_auth_use_rados := (atoi val = 1)\<rparr>
      else if name = ''rgw_expose_bucket'' then g\<lparr>g_rgw_expose_bucket := (atoi val = 1)\<rparr>
      else if name = ''rgw_cache_lru_size'' then g\<lparr>g_rgw_cache_lru_size := atoi val\<rparr>
      else if name = ''rgw_num_rados_handles'' then g\<lparr>g_rgw_num_rados_handles := word_of_int (atoi val)\<rparr>
      else if name = ''rgw_cache_enabled'' then g\<lparr>g_rgw_cache_enabled := (atoi val = 1)\<rparr>
      else if name = ''rgw_bucket_default_quota_max_objects'' then g\<lparr>g_bucket_default_quota_max_objects := atoi val\<rparr>
      else if name = ''rgw_bucket_default_quota_max_size'' then g\<lparr>g_bucket_default_quota_max_size := atoi val\<rparr>
      else if name = ''rgw_user_default_quota_max_objects'' then g\<lparr>g_user_default_quota_max_objects := atoi val\<rparr>
      else if name = ''rgw_user_default_quota_max_size'' then g\<lparr>g_user_default_quota_max_size := atoi val\<rparr>
      else if name = ''sys_user_bucket_root'' then g\<lparr>g_sys_user_bucket_root := val\<rparr>
      else if name = ''rgw_multipart_min_part_size'' then g\<lparr>g_rgw_multipart_min_part_size := word_of_int (atoi val)\<rparr>
      else if name = ''rgw_multipart_part_upload_limit'' then g\<lparr>g_rgw_multipart_part_upload_limit := atoi val\<rparr>
      else g)"

section \<open>The line parser\<close>

text \<open>\<^verbatim>\<open>sscanf\<close> with \<^verbatim>\<open>%s\<close>: \<^term>\<open>None\<close> when only white space is left.\<close>

definition scan_word :: "string \<Rightarrow> string option" where
  "scan_word s =
     (let t = takeWhile (\<lambda>c. \<not> isspace c) (dropWhile isspace s) in if t = [] then None else Some t)"

text \<open>\<^verbatim>\<open>sscanf\<close> with \<^verbatim>\<open>%[^d]d%s\<close>: the first field if it matched, and the second one.\<close>

definition scan_pair :: "char \<Rightarrow> string \<Rightarrow> string option \<times> string option" where
  "scan_pair d s =
     (let name = takeWhile (\<lambda>c. c \<noteq> d) s; rest = dropWhile (\<lambda>c. c \<noteq> d) s in
      if name = [] then (None, None)
      else if rest = [] then (Some name, None)
      else (Some name, scan_word (tl rest)))"

definition strip_space :: "string \<Rightarrow> string" where
  "strip_space s = rev (dropWhile (\<lambda>c. c = CHR '' '') (rev s))"

text \<open>The loop over the rest of the file; \<open>var_name\<close> keeps its old content where a scan assigns nothing.
  The buffers have 256 bytes: a longer line overruns them, and a name of nothing but blanks makes
  \<^verbatim>\<open>strip_space\<close> read in front of its string.  Both are \<^term>\<open>None\<close>.\<close>

function conf_loop :: "(string \<Rightarrow> string \<Rightarrow> 'o \<Rightarrow> 'o) \<Rightarrow> char \<Rightarrow> string \<Rightarrow> string \<Rightarrow> 'o \<Rightarrow> (int \<times> 'o) option" where
  "conf_loop cb d file var_name obj =
     (let line = takeWhile (\<lambda>c. c \<noteq> LF) file;
          rest = dropWhile (\<lambda>c. c \<noteq> LF) file;
          buf = c_str line
      in if line = [] then Some (0, obj)
         else if length line \<ge> 256 then None
         else
           let var_name = (case scan_word buf of None \<Rightarrow> var_name | Some w \<Rightarrow> w) in
           if starts_with var_name ''#'' then
             (if rest = [] then Some (- 1, obj) else conf_loop cb d (dropWhile (\<lambda>c. c = LF) rest) var_name obj)
           else
             (case scan_pair d buf of
                (Some name, Some val) \<Rightarrow>
                  if strip_space name = [] then None
                  else conf_loop cb d (dropWhile (\<lambda>c. c = LF) rest) (strip_space name) (cb (strip_space name) val obj)
              | _ \<Rightarrow> Some (- 1, obj)))"
  by pat_completeness auto

lemma rest_of_file_shorter:
  assumes "takeWhile P s \<noteq> []"
  shows "length (dropWhile Q (dropWhile P s)) < length s"
proof -
  have "length (dropWhile Q (dropWhile P s)) \<le> length (dropWhile P s)" by (rule length_dropWhile_le)
  moreover have "length s = length (takeWhile P s) + length (dropWhile P s)"
    by (metis length_append takeWhile_dropWhile_id)
  ultimately show ?thesis using assms by (cases "takeWhile P s") simp_all
qed

termination conf_loop
  by (relation "measure (\<lambda>(cb, d, file, var_name, obj). length file)") (auto simp: rest_of_file_shorter)

declare conf_loop.simps [simp del]

definition parse_conf :: "string option \<Rightarrow> char \<Rightarrow> (string \<Rightarrow> string \<Rightarrow> 'o \<Rightarrow> 'o) \<Rightarrow> 'o \<Rightarrow> (int \<times> 'o) option" where
  "parse_conf file d cb obj = (case file of None \<Rightarrow> Some (- 1, obj) | Some text \<Rightarrow> conf_loop cb d text [] obj)"

definition main_globals :: "string \<Rightarrow> string option \<Rightarrow> globals option" where
  "main_globals hostname conf_file =
     map_option snd (parse_conf conf_file (CHR ''='') set_global_params (main_defaults hostname globals_init))"

section \<open>sys_info\<close>

record sys_info =
  si_file :: string
  si_display_name :: string
  si_user_email :: string
  si_max_buckets :: "32 word"
  si_bucket_max_size_kb :: int
  si_bucket_max_objects :: int
  si_bucket_enabled :: bool
  si_user_max_size_kb :: int
  si_user_max_objects :: int
  si_user_enabled :: bool
  si_total_size :: uint64
  si_total_size_rounded :: uint64
  si_num_entries :: uint64

definition new_sys_info :: sys_info where
  "new_sys_info =
     \<lparr>si_file = [], si_display_name = [], si_user_email = [], si_max_buckets = 0, si_bucket_max_size_kb = 0,
      si_bucket_max_objects = 0, si_bucket_enabled = False, si_user_max_size_kb = 0, si_user_max_objects = 0,
      si_user_enabled = False, si_total_size = 0, si_total_size_rounded = 0, si_num_entries = 0\<rparr>"

definition si_get_params :: "string \<Rightarrow> string \<Rightarrow> sys_info \<Rightarrow> sys_info" where
  "si_get_params name val i =
     (if name = ''display_name'' then i\<lparr>si_display_name := val\<rparr>
      else if name = ''user_email'' then i\<lparr>si_user_email := val\<rparr>
      else if name = ''max_buckets'' then i\<lparr>si_max_buckets := word_of_int (atoi val)\<rparr>
      else if name = ''bucket_max_size_kb'' then i\<lparr>si_bucket_max_size_kb := atoi val\<rparr>
      else if name = ''bucket_max_objects'' then i\<lparr>si_bucket_max_objects := atoi val\<rparr>
      else if name = ''bucket_enabled'' then i\<lparr>si_bucket_enabled := (atoi val = 1)\<rparr>
      else if name = ''user_max_size_kb'' then i\<lparr>si_user_max_size_kb := atoi val\<rparr>
      else if name = ''user_max_objects'' then i\<lparr>si_user_max_objects := atoi val\<rparr>
      else if name = ''user_enabled'' then i\<lparr>si_user_enabled := (atoi val = 1)\<rparr>
      else if name = ''total_size'' then i\<lparr>si_total_size := word_of_int (atoi val)\<rparr>
      else if name = ''total_size_rounded'' then i\<lparr>si_total_size_rounded := word_of_int (atoi val)\<rparr>
      else if name = ''num_entries'' then i\<lparr>si_num_entries := word_of_int (atoi val)\<rparr>
      else i)"

text \<open>What \<^verbatim>\<open>sync_stat\<close> writes when all of the counters are written.\<close>

definition sync_stat :: "sys_info \<Rightarrow> string" where
  "sync_stat i =
     ''total_size:'' @ dec_int_str (sint (si_total_size i)) @ [LF] @
     ''num_entries:'' @ dec_int_str (sint (si_num_entries i)) @ [LF] @
     ''total_size_rounded:'' @ dec_int_str (sint (si_total_size_rounded i)) @ [LF]"

section \<open>The system object of a user\<close>

text \<open>\<^verbatim>\<open>rgw_get_system_obj\<close>: the bytes of the object of user \<open>key\<close>, made from the configuration file of the
  user.  \<open>conf_file\<close> opens a file, \<open>uid_of\<close> is \<^verbatim>\<open>getuid\<close>, and \<open>overrun\<close> is what the object is after a
  parser run that leaves its buffers.\<close>

definition user_conf_path :: "string \<Rightarrow> string \<Rightarrow> string" where
  "user_conf_path root key = root @ ''/.'' @ key @ ''.conf''"

definition user_of_sys_info :: "int \<Rightarrow> sys_info \<Rightarrow> user_info" where
  "user_of_sys_info uid i =
     new_user\<lparr>max_buckets := si_max_buckets i,
       bucket_quota := new_quota\<lparr>quota_enabled := si_bucket_enabled i,
         max_size_kb := word_of_int (si_bucket_max_size_kb i), max_objects := word_of_int (si_bucket_max_objects i)\<rparr>,
       user_quota := new_quota\<lparr>quota_enabled := si_user_enabled i,
         max_size_kb := word_of_int (si_user_max_size_kb i), max_objects := word_of_int (si_user_max_objects i)\<rparr>,
       auid := word_of_int uid\<rparr>"

definition rgw_get_system_obj :: "(string \<Rightarrow> string option) \<Rightarrow> (string \<Rightarrow> int) \<Rightarrow> sys_info \<Rightarrow> string \<Rightarrow> string \<Rightarrow> string result" where
  "rgw_get_system_obj conf_file uid_of overrun root key =
     (let i = (case parse_conf (conf_file (c_str (user_conf_path root key))) (CHR '':'') si_get_params new_sys_info of
                 None \<Rightarrow> overrun | Some (_, i) \<Rightarrow> i)
      in Inr (enc_rgw_uid key @ enc_user_info (user_of_sys_info (uid_of (c_str key)) i)))"

section \<open>Reading back the counters\<close>

definition conf_token :: "string \<Rightarrow> bool" where
  "conf_token s \<longleftrightarrow> s \<noteq> [] \<and> (\<forall>c \<in> set s. \<not> isspace c \<and> c \<noteq> NUL)"

lemma LF_space: "isspace LF"
  by (simp add: isspace_def)

lemma blank_space: "isspace (CHR '' '')"
  by (simp add: isspace_def)

lemma scan_word_token:
  assumes "conf_token s"
  shows "scan_word s = Some s"
proof -
  have "dropWhile isspace s = s" using assms by (cases s) (simp_all add: conf_token_def)
  moreover have "takeWhile (\<lambda>c. \<not> isspace c) s = s" using assms by (simp add: conf_token_def takeWhile_eq_all_conv)
  ultimately have "scan_word s = (if s = [] then None else Some s)" by (simp only: scan_word_def Let_def)
  then show ?thesis using assms by (simp add: conf_token_def)
qed

lemma strip_space_token: "conf_token s \<Longrightarrow> strip_space s = s"
  using blank_space by (cases "rev s") (auto simp: conf_token_def strip_space_def)

lemma conf_token_append: "conf_token s \<Longrightarrow> conf_token t \<Longrightarrow> conf_token (s @ t)"
  by (auto simp: conf_token_def)

lemma conf_loop_line:
  assumes name: "conf_token name" "d \<notin> set name" "hd name \<noteq> CHR ''#''" and val: "conf_token val" and d: "conf_token [d]"
    and len: "length name + length val < 255" and rest: "\<And>r. rest \<noteq> LF # r"
  shows "conf_loop cb d (name @ d # val @ LF # rest) v obj = conf_loop cb d rest name (cb name val obj)"
proof -
  define line where "line = name @ d # val"
  define body where "body = line @ LF # rest"
  have tok: "conf_token line" using conf_token_append [OF name(1) conf_token_append [OF d val]] by (simp add: line_def)
  then have ln: "\<forall>c \<in> set line. c \<noteq> LF \<and> c \<noteq> NUL" using LF_space by (auto simp: conf_token_def)
  then have split: "takeWhile (\<lambda>c. c \<noteq> LF) body = line" "dropWhile (\<lambda>c. c \<noteq> LF) body = LF # rest"
    by (simp_all add: body_def takeWhile_append2 dropWhile_append2)
  have buf: "c_str line = line" using ln by (intro c_str_id) (auto simp: no_nul_def)
  have hash: "\<not> starts_with line ''#''" using name by (cases name) (simp_all add: line_def starts_with_def conf_token_def)
  have "takeWhile (\<lambda>c. c \<noteq> d) line = name" "dropWhile (\<lambda>c. c \<noteq> d) line = d # val"
    unfolding line_def using name(2) by (induction name) auto
  then have pair: "scan_pair d line = (Some name, Some val)"
    using name(1) by (simp add: scan_pair_def scan_word_token [OF val] conf_token_def)
  have rest': "dropWhile (\<lambda>c. c = LF) (LF # rest) = rest" using rest by (cases rest) auto
  have "line \<noteq> []" "\<not> 256 \<le> length line" "name \<noteq> []" using len name(1) by (simp_all add: line_def conf_token_def)
  then have "conf_loop cb d body v obj = conf_loop cb d rest name (cb name val obj)"
    by (subst conf_loop.simps) (simp only: split buf scan_word_token [OF tok] option.case hash pair prod.case
        strip_space_token [OF name(1)] rest' Let_def if_False)
  then show ?thesis by (simp add: body_def line_def)
qed

lemma conf_loop_end: "conf_loop cb d [] v obj = Some (0, obj)"
  by (subst conf_loop.simps) simp

lemma length_dec: "n < 10 ^ k \<Longrightarrow> 0 < k \<Longrightarrow> length (dec n) \<le> k"
proof (induction k arbitrary: n)
  case (Suc k)
  show ?case
  proof (cases "n < 10")
    case True
    then show ?thesis by (subst dec.simps) simp
  next
    case False
    then have "0 < k" using Suc.prems(1) by (cases k) simp_all
    moreover have "n div 10 < 10 ^ k" using Suc.prems(1) by (simp add: less_mult_imp_div_less)
    ultimately have "length (dec (n div 10)) \<le> k" using Suc.IH by blast
    then show ?thesis using False by (subst dec.simps) simp
  qed
qed simp

lemma dec_token: "conf_token (dec n)"
  using dec_digits [of n] by (auto simp: conf_token_def isdigit_def isspace_def)

lemma dec_int_str_token: "conf_token (dec_int_str i)"
  using dec_token conf_token_append [of "''-''", OF _ dec_token] by (simp add: dec_int_str_def conf_token_def isspace_def)

lemma dec_int_str_length:
  fixes u :: uint64
  shows "length (dec_int_str (sint u)) \<le> 21"
proof -
  have "sint u < 2 ^ 63" "- (2 ^ 63) \<le> sint u" using sint_lt [of u] sint_ge [of u] by simp_all
  then have "nat (sint u) < 10 ^ 20" "nat (- sint u) < 10 ^ 20" by simp_all
  then have "length (dec (nat (sint u))) \<le> 20" "length (dec (nat (- sint u))) \<le> 20" by (simp_all add: length_dec)
  then show ?thesis by (simp add: dec_int_str_def)
qed

lemma atoi_dec_int_str:
  fixes u :: uint64
  shows "atoi (dec_int_str (sint u)) = signed_take_bit 31 (sint u)"
proof -
  have b: "sint u < 2 ^ 63" "- (2 ^ 63) \<le> sint u" using sint_lt [of u] sint_ge [of u] by simp_all
  have "fst (strtoll10 (dec_int_str (sint u))) = sint u"
  proof (cases "sint u < 0")
    case True
    have tw: "takeWhile isdigit (dec (nat (- sint u))) = dec (nat (- sint u))"
      using takeWhile_dec [of "[]"] by simp
    have "strtoll10 (''-'' @ dec (nat (- sint u))) = (sint u, [], False)"
      using True b by (simp add: strtoll10_def strtoll_sign_def Let_def isspace_def tw)
    then show ?thesis using True by (simp add: dec_int_str_def)
  next
    case False
    then show ?thesis using b strtoll10_dec [of "[]" "nat (sint u)"] by (simp add: dec_int_str_def)
  qed
  then show ?thesis by (simp add: atoi_def)
qed

definition atoi_counter :: "uint64 \<Rightarrow> uint64" where
  "atoi_counter u = word_of_int (signed_take_bit 31 (sint u))"

lemma atoi_counter_eq_iff: "atoi_counter u = u \<longleftrightarrow> sint u \<in> {- (2 ^ 31) ..< 2 ^ 31}"
proof -
  have "atoi_counter u = u \<longleftrightarrow> sint (word_of_int (signed_take_bit 31 (sint u)) :: uint64) = sint u"
    by (simp add: atoi_counter_def signed_word_eqI word_eq_iff_signed)
  also have "sint (word_of_int (signed_take_bit 31 (sint u)) :: uint64) = signed_take_bit 31 (sint u)"
    by (simp add: sint_sbintrunc' signed_take_bit_signed_take_bit)
  also have "signed_take_bit 31 (sint u) = sint u \<longleftrightarrow> sint u \<in> {- (2 ^ 31) ..< 2 ^ 31}"
    by (simp add: signed_take_bit_int_eq_self_iff)
  finally show ?thesis .
qed

lemma parse_sync_stat:
  "parse_conf (Some (sync_stat i)) (CHR '':'') si_get_params j =
     Some (0, j\<lparr>si_total_size := atoi_counter (si_total_size i), si_num_entries := atoi_counter (si_num_entries i),
        si_total_size_rounded := atoi_counter (si_total_size_rounded i)\<rparr>)"
proof -
  have line: "conf_loop si_get_params (CHR '':'') (name @ CHR '':'' # dec_int_str (sint u) @ LF # rest) v obj =
      conf_loop si_get_params (CHR '':'') rest name (si_get_params name (dec_int_str (sint u)) obj)"
    if "name \<in> {''total_size'', ''num_entries'', ''total_size_rounded''}" "\<And>r. rest \<noteq> LF # r"
    for name rest v obj and u :: uint64
  proof (rule conf_loop_line)
    show "length name + length (dec_int_str (sint u)) < 255"
      using that(1) dec_int_str_length [of u] by auto
    show "conf_token (dec_int_str (sint u))" by (rule dec_int_str_token)
  qed (use that in \<open>auto simp: conf_token_def isspace_def\<close>)
  let ?rest2 = "''total_size_rounded'' @ CHR '':'' # dec_int_str (sint (si_total_size_rounded i)) @ LF # []"
  let ?rest1 = "''num_entries'' @ CHR '':'' # dec_int_str (sint (si_num_entries i)) @ LF # ?rest2"
  have st: "sync_stat i = ''total_size'' @ CHR '':'' # dec_int_str (sint (si_total_size i)) @ LF # ?rest1"
    by (simp add: sync_stat_def)
  show ?thesis
    unfolding parse_conf_def st option.case
    by (subst line, simp, simp, subst line, simp, simp, subst line, simp, simp)
      (simp add: conf_loop_end si_get_params_def atoi_dec_int_str atoi_counter_def)
qed

text \<open>C37: The counters of a bucket that were written to its statistics file are read back by the parser of that
  file, each one unchanged exactly when it lies in the range of a 32-bit integer: the parser reads them with
  \<^verbatim>\<open>atoi\<close>, so that the size of a bucket of two gigabytes or more is lost.\<close>

theorem stat_file_roundtrip:
  "\<exists>j. parse_conf (Some (sync_stat i)) (CHR '':'') si_get_params new_sys_info = Some (0, j) \<and>
     (si_total_size j = si_total_size i \<longleftrightarrow> sint (si_total_size i) \<in> {- (2 ^ 31) ..< 2 ^ 31}) \<and>
     (si_num_entries j = si_num_entries i \<longleftrightarrow> sint (si_num_entries i) \<in> {- (2 ^ 31) ..< 2 ^ 31}) \<and>
     (si_total_size_rounded j = si_total_size_rounded i \<longleftrightarrow> sint (si_total_size_rounded i) \<in> {- (2 ^ 31) ..< 2 ^ 31})"
  by (simp add: parse_sync_stat atoi_counter_eq_iff del: atLeastLessThan_iff)

section \<open>The user that a configuration file describes\<close>

lemma user_of_sys_info_ok: "user_ok (user_of_sys_info uid i)"
  by (simp add: user_ok_def user_of_sys_info_def new_user_def short_def key_map_ok_def entries_ok_def caps_ok_def)

lemma length_enc_user_of_sys_info: "length (enc_user_info (user_of_sys_info uid i)) < size_limit"
  by (simp add: enc_user_info_def user_of_sys_info_def new_user_def length_encode_struct enc_string_def enc_map_def
      enc_list_def first_key_def enc_user_caps_def enc_quota_info_def)

lemma rgw_get_user_info_encoded:
  assumes "short key" and "get_obj key = Inr (enc_rgw_uid key @ enc_user_info (user_of_sys_info uid i))"
  shows "rgw_get_user_info_by_uid get_obj key new_user = Inr (user_of_sys_info uid i)"
proof -
  let ?u = "user_of_sys_info uid i"
  have uid: "dec_rgw_uid (enc_rgw_uid key @ bl) = Some (key, bl)" for bl
    using assms(1) by (simp add: dec_rgw_uid_def enc_rgw_uid_def)
  have info: "dec_user_info new_user (enc_user_info ?u) = Some (?u, [])"
    using dec_user_info_encoded [OF user_of_sys_info_ok length_enc_user_of_sys_info, of new_user uid i "[]"]
    by (simp add: keep_soft_def user_of_sys_info_def new_user_def new_quota_def)
  have "enc_user_info ?u \<noteq> []" using info by (auto simp: enc_user_info_def encode_struct_def)
  then show ?thesis
    by (simp add: rgw_get_user_info_by_uid_def assms(2) uid info)
qed

lemma rgw_get_user_info_by_conf:
  assumes "short key"
    and "parse_conf (conf_file (c_str (user_conf_path root key))) (CHR '':'') si_get_params new_sys_info = Some (r, i)"
  shows "rgw_get_user_info_by_uid (rgw_get_system_obj conf_file uid_of overrun root) key new_user =
    Inr (user_of_sys_info (uid_of (c_str key)) i)"
  using assms by (intro rgw_get_user_info_encoded) (simp_all add: rgw_get_system_obj_def)

text \<open>Every user id has a record, with or without a configuration file.\<close>

lemma rgw_get_user_info_exists:
  "short key \<Longrightarrow> \<exists>i. rgw_get_user_info_by_uid (rgw_get_system_obj conf_file uid_of overrun root) key new_user =
    Inr (user_of_sys_info (uid_of (c_str key)) i)"
  by (rule exI, rule rgw_get_user_info_encoded) (auto simp: rgw_get_system_obj_def Let_def)

end
