(* ===== verification/Rgw_Time.thy ===== *)
theory Rgw_Time
  imports Conf
begin

text \<open>
  Dates: the parsers of HTTP dates of \<^verbatim>\<open>src/rgw/porting_common.cc\<close>, and the date formats that
  \<^verbatim>\<open>porting_rest.cc\<close> writes.  The C library's calendar functions are modelled for the conversions that occur:
  \<^verbatim>\<open>strptime\<close> and \<^verbatim>\<open>strftime\<close> in the C locale as in glibc, \<^verbatim>\<open>gmtime\<close> and \<^verbatim>\<open>timegm\<close> in the proleptic Gregorian
  calendar.  The lemmas show that a date written in the format of HTTP headers is read back as the same time.
\<close>

record tm =
  tm_sec :: int
  tm_min :: int
  tm_hour :: int
  tm_mday :: int
  tm_mon :: int
  tm_year :: int
  tm_wday :: int

definition zero_tm :: tm where
  "zero_tm = \<lparr>tm_sec = 0, tm_min = 0, tm_hour = 0, tm_mday = 0, tm_mon = 0, tm_year = 0, tm_wday = 0\<rparr>"

section \<open>strptime\<close>

definition weekday_names :: "string list" where
  "weekday_names = [''Sunday'', ''Monday'', ''Tuesday'', ''Wednesday'', ''Thursday'', ''Friday'', ''Saturday'']"

definition month_names :: "string list" where
  "month_names = [''January'', ''February'', ''March'', ''April'', ''May'', ''June'', ''July'', ''August'',
     ''September'', ''October'', ''November'', ''December'']"

text \<open>A decimal number of at most \<open>n\<close> digits; a digit is taken only while the value may stay within the upper bound.\<close>

fun digits_loop :: "int \<Rightarrow> nat \<Rightarrow> int \<Rightarrow> string \<Rightarrow> int \<times> string" where
  "digits_loop hi (Suc n) val (c # s) =
     (if isdigit c \<and> val * 10 \<le> hi then digits_loop hi n (val * 10 + int (digit_val c)) s else (val, c # s))"
| "digits_loop hi n val s = (val, s)"

definition get_number :: "int \<Rightarrow> int \<Rightarrow> nat \<Rightarrow> string \<Rightarrow> (int \<times> string) option" where
  "get_number lo hi n s =
     (let s = dropWhile (\<lambda>c. c = CHR '' '') s in
      if s = [] \<or> \<not> isdigit (hd s) then None
      else let (val, s) = digits_loop hi n 0 s in if val < lo \<or> val > hi then None else Some (val, s))"

definition match_string :: "string \<Rightarrow> string \<Rightarrow> string option" where
  "match_string cs s = (if map tolower (take (length cs) s) = map tolower cs then Some (drop (length cs) s) else None)"

text \<open>The first name that the text starts with, in full or in three letters.\<close>

fun match_name :: "int \<Rightarrow> string list \<Rightarrow> string \<Rightarrow> (int \<times> string) option" where
  "match_name i [] s = None"
| "match_name i (n # names) s =
     (case match_string n s of
        Some s \<Rightarrow> Some (i, s)
      | None \<Rightarrow> (case match_string (take 3 n) s of Some s \<Rightarrow> Some (i, s) | None \<Rightarrow> match_name (i + 1) names s))"

text \<open>A time zone: the letter Z, or a sign and hours with or without minutes.  \<^verbatim>\<open>timegm\<close> does not use its value.\<close>

fun zone_digits :: "nat \<Rightarrow> nat \<Rightarrow> string \<Rightarrow> nat \<times> nat \<times> string" where
  "zone_digits n val (c # s) =
     (if n < 4 \<and> isdigit c then
        (case s of
           d # e # s' \<Rightarrow> if d = CHR '':'' \<and> n = 1 \<and> isdigit e then zone_digits 2 (val * 10 + digit_val c) (e # s')
                         else zone_digits (n + 1) (val * 10 + digit_val c) s
         | _ \<Rightarrow> zone_digits (n + 1) (val * 10 + digit_val c) s)
      else (n, val, c # s))"
| "zone_digits n val [] = (n, val, [])"

definition get_zone :: "string \<Rightarrow> string option" where
  "get_zone s =
     (case dropWhile isspace s of
        [] \<Rightarrow> None
      | c # s \<Rightarrow>
          if c = CHR ''Z'' then Some s
          else if c \<noteq> CHR ''+'' \<and> c \<noteq> CHR ''-'' then None
          else let (n, val, s) = zone_digits 0 0 s in
            if n = 2 then Some s else if n \<noteq> 4 then None else if val mod 100 \<ge> 60 then None else Some s)"

definition convert_field :: "char \<Rightarrow> string \<Rightarrow> tm \<Rightarrow> (string \<times> tm) option" where
  "convert_field d s t =
     (let number = (\<lambda>lo hi n upd. map_option (\<lambda>(v, s). (s, upd v)) (get_number lo hi n s)) in
      if d = CHR ''a'' \<or> d = CHR ''A'' then map_option (\<lambda>(v, s). (s, t\<lparr>tm_wday := v\<rparr>)) (match_name 0 weekday_names s)
      else if d = CHR ''b'' then map_option (\<lambda>(v, s). (s, t\<lparr>tm_mon := v\<rparr>)) (match_name 0 month_names s)
      else if d = CHR ''d'' then number 1 31 2 (\<lambda>v. t\<lparr>tm_mday := v\<rparr>)
      else if d = CHR ''H'' then number 0 23 2 (\<lambda>v. t\<lparr>tm_hour := v\<rparr>)
      else if d = CHR ''M'' then number 0 59 2 (\<lambda>v. t\<lparr>tm_min := v\<rparr>)
      else if d = CHR ''S'' then number 0 61 2 (\<lambda>v. t\<lparr>tm_sec := v\<rparr>)
      else if d = CHR ''Y'' then number 0 9999 4 (\<lambda>v. t\<lparr>tm_year := v - 1900\<rparr>)
      else if d = CHR ''y'' then number 0 99 2 (\<lambda>v. t\<lparr>tm_year := (if v \<ge> 69 then v else v + 100)\<rparr>)
      else if d = CHR ''z'' then map_option (\<lambda>s. (s, t)) (get_zone s)
      else None)"

fun strptime_loop :: "string \<Rightarrow> string \<Rightarrow> tm \<Rightarrow> (string \<times> tm) option" where
  "strptime_loop [] s t = Some (s, t)"
| "strptime_loop (f # fmt) s t =
     (if isspace f then strptime_loop fmt (dropWhile isspace s) t
      else if f \<noteq> CHR ''%'' then (case s of [] \<Rightarrow> None | c # s \<Rightarrow> if c = f then strptime_loop fmt s t else None)
      else case fmt of
        [] \<Rightarrow> None
      | d # fmt \<Rightarrow> (case convert_field d s t of None \<Rightarrow> None | Some (s, t) \<Rightarrow> strptime_loop fmt s t))"

definition strptime :: "string \<Rightarrow> string \<Rightarrow> (string \<times> tm) option" where
  "strptime s fmt = strptime_loop fmt s zero_tm"

section \<open>HTTP dates\<close>

definition check_gmt_end :: "string \<Rightarrow> bool" where
  "check_gmt_end s \<longleftrightarrow>
     s \<noteq> [] \<and> (let s = dropWhile isspace s in starts_with s ''GMT'' \<or> starts_with s ''UTC'')"

definition check_str_end :: "string \<Rightarrow> bool" where
  "check_str_end s \<longleftrightarrow> list_all isspace s"

definition parse_date_as :: "(string \<Rightarrow> bool) \<Rightarrow> string \<Rightarrow> string \<Rightarrow> tm option" where
  "parse_date_as check fmt s =
     (case strptime s fmt of None \<Rightarrow> None | Some (rest, t) \<Rightarrow> if check rest then Some t else None)"

definition parse_rfc850 :: "string \<Rightarrow> tm option" where
  "parse_rfc850 s = parse_date_as check_gmt_end ''%A, %d-%b-%y %H:%M:%S '' s"

definition parse_asctime :: "string \<Rightarrow> tm option" where
  "parse_asctime s = parse_date_as check_str_end ''%a %b %d %H:%M:%S %Y'' s"

definition parse_rfc1123 :: "string \<Rightarrow> tm option" where
  "parse_rfc1123 s = parse_date_as check_gmt_end ''%a, %d %b %Y %H:%M:%S '' s"

definition parse_rfc1123_alt :: "string \<Rightarrow> tm option" where
  "parse_rfc1123_alt s = parse_date_as check_str_end ''%a, %d %b %Y %H:%M:%S %z'' s"

definition parse_rfc2616 :: "string \<Rightarrow> tm option" where
  "parse_rfc2616 s =
     (case parse_rfc850 s of
        Some t \<Rightarrow> Some t
      | None \<Rightarrow>
          (case parse_asctime s of
             Some t \<Rightarrow> Some t
           | None \<Rightarrow> (case parse_rfc1123 s of Some t \<Rightarrow> Some t | None \<Rightarrow> parse_rfc1123_alt s)))"

text \<open>\<^verbatim>\<open>timegm\<close> of the C library.\<close>

definition timegm :: "tm \<Rightarrow> int" where
  "timegm t =
     (let y = tm_year t + 1900 + tm_mon t div 12; m = tm_mon t mod 12;
          y' = (if m < 2 then y - 1 else y);
          doy = (153 * ((m + 10) mod 12) + 2) div 5 + tm_mday t - 1;
          days = 365 * y' + y' div 4 - y' div 100 + y' div 400 + doy - 719468
      in ((days * 24 + tm_hour t) * 60 + tm_min t) * 60 + tm_sec t)"

definition parse_time :: "string \<Rightarrow> int result" where
  "parse_time s = (case parse_rfc2616 s of None \<Rightarrow> Inl (- EINVAL) | Some t \<Rightarrow> Inr (timegm t))"

section \<open>Printed dates\<close>

text \<open>A day counted from March 1 of year 0 as a year that starts in March and a day of it: the days are split
  into periods of 400, 100, 4 and 1 years.\<close>

definition civil :: "int \<Rightarrow> int \<times> int" where
  "civil z =
     (let e = z div 146097; r = z mod 146097;
          a = min 3 (r div 36524); r = r - 36524 * a;
          b = r div 1461; r = r mod 1461;
          c = min 3 (r div 365)
      in (400 * e + 100 * a + 4 * b + c, r - 365 * c))"

text \<open>\<^verbatim>\<open>gmtime_r\<close> fails where the year is no \<^verbatim>\<open>int\<close>.\<close>

definition gmtime :: "int \<Rightarrow> tm option" where
  "gmtime t =
     (let days = t div 86400; secs = t mod 86400;
          (y, doy) = civil (days + 719468);
          mp = (5 * doy + 2) div 153;
          y = y + (if mp < 10 then 0 else 1) - 1900
      in if y < INT_MIN \<or> y > INT_MAX then None
         else Some \<lparr>tm_sec = secs mod 60, tm_min = secs div 60 mod 60, tm_hour = secs div 3600,
                    tm_mday = doy - (153 * mp + 2) div 5 + 1, tm_mon = (mp + 2) mod 12, tm_year = y,
                    tm_wday = (days + 4) mod 7\<rparr>)"

definition two_digits :: "int \<Rightarrow> string" where
  "two_digits n = [char_of (48 + nat n div 10), char_of (48 + nat n mod 10)]"

definition day_time :: "tm \<Rightarrow> string" where
  "day_time t = two_digits (tm_hour t) @ '':'' @ two_digits (tm_min t) @ '':'' @ two_digits (tm_sec t)"

text \<open>The formats \<^verbatim>\<open>%a, %d %b %Y %H:%M:%S %Z\<close> and \<^verbatim>\<open>%Y-%m-%dT%T.000Z\<close> of \<^verbatim>\<open>strftime\<close>.\<close>

definition http_date :: "tm \<Rightarrow> string" where
  "http_date t =
     take 3 (weekday_names ! nat (tm_wday t)) @ '', '' @ two_digits (tm_mday t) @ '' '' @ take 3 (month_names ! nat (tm_mon t)) @ '' '' @
     dec_int_str (tm_year t + 1900) @ '' '' @ day_time t @ '' GMT''"

definition iso_date :: "tm \<Rightarrow> string" where
  "iso_date t =
     dec_int_str (tm_year t + 1900) @ ''-'' @ two_digits (tm_mon t + 1) @ ''-'' @ two_digits (tm_mday t) @ ''T'' @ day_time t @ ''.000Z''"

section \<open>Printed dates are read back\<close>

text \<open>A period of \<open>4\<close> or \<open>400\<close> years that ends with a day more than its equal parts.\<close>

lemma min_div_bounds:
  fixes r n :: int
  assumes "0 \<le> r" and "r \<le> 4 * n" and "0 < n"
  shows "0 \<le> min 3 (r div n)" "min 3 (r div n) \<le> 3" "0 \<le> r - n * min 3 (r div n)" "r - n * min 3 (r div n) \<le> n"
proof -
  have d: "n * (r div n) + r mod n = r" "0 \<le> r mod n" "r mod n < n" "0 \<le> r div n"
    using assms by (simp_all add: pos_imp_zdiv_nonneg_iff)
  show "0 \<le> min 3 (r div n)" "min 3 (r div n) \<le> 3" using d(4) by simp_all
  show "0 \<le> r - n * min 3 (r div n)" "r - n * min 3 (r div n) \<le> n"
  proof (atomize (full), cases "r div n \<le> 3")
    case True
    then have "r - n * min 3 (r div n) = r mod n" using d(1) by (simp add: min_def minus_mult_div_eq_mod)
    then show "0 \<le> r - n * min 3 (r div n) \<and> r - n * min 3 (r div n) \<le> n" using d by simp
  next
    case False
    then have "n * 4 \<le> n * (r div n)" using assms(3) by (intro mult_left_mono) simp_all
    then have "r = 4 * n" using d(1,2) assms(2) by linarith
    then show "0 \<le> r - n * min 3 (r div n) \<and> r - n * min 3 (r div n) \<le> n" using False assms(3) by (simp add: min_def)
  qed
qed

lemma div_eq_quotient: "0 \<le> r \<Longrightarrow> r < n \<Longrightarrow> m = n * q + r \<Longrightarrow> m div n = (q :: int)"
  by simp

lemma div_bounds: "0 < n \<Longrightarrow> n * (m div n) \<le> m \<and> m < n * (m div n) + (n :: int)"
  using mult_div_mod_eq [of n m] pos_mod_sign [of n m] pos_mod_bound [of n m] by linarith

lemma div_mod_bounds:
  assumes "1 < (n :: int)"
  shows "0 \<le> m mod n" "m mod n \<le> n - 1" "m = n * (m div n) + m mod n"
  using mult_div_mod_eq [of n m] pos_mod_sign [of n m] pos_mod_bound [of n m] assms by linarith+

lemma period_divs:
  fixes e a b c :: int
  assumes "0 \<le> a" "a \<le> 3" "0 \<le> b" "b \<le> 24" "0 \<le> c" "c \<le> 3"
  shows "(400 * e + 100 * a + 4 * b + c) div 4 = 100 * e + 25 * a + b"
    "(400 * e + 100 * a + 4 * b + c) div 100 = 4 * e + a"
    "(400 * e + 100 * a + 4 * b + c) div 400 = e"
proof -
  show "(400 * e + 100 * a + 4 * b + c) div 4 = 100 * e + 25 * a + b" using assms by (intro div_eq_quotient [of c]) simp_all
  show "(400 * e + 100 * a + 4 * b + c) div 100 = 4 * e + a" using assms by (intro div_eq_quotient [of "4 * b + c"]) simp_all
  show "(400 * e + 100 * a + 4 * b + c) div 400 = e" using assms by (intro div_eq_quotient [of "100 * a + 4 * b + c"]) simp_all
qed

text \<open>The month \<open>mp\<close> of a day, both counted from March 1.\<close>

lemma month_of_day:
  fixes doy :: int
  assumes "0 \<le> doy" and "doy \<le> 365"
  shows "0 \<le> (5 * doy + 2) div 153" "(5 * doy + 2) div 153 \<le> 11"
    "1 \<le> doy - (153 * ((5 * doy + 2) div 153) + 2) div 5 + 1" "doy - (153 * ((5 * doy + 2) div 153) + 2) div 5 + 1 \<le> 31"
proof -
  let ?m = "(5 * doy + 2) div 153" and ?d = "(153 * ((5 * doy + 2) div 153) + 2) div 5"
  have m: "153 * ?m \<le> 5 * doy + 2 \<and> 5 * doy + 2 < 153 * ?m + 153" by (rule div_bounds) simp
  have d: "5 * ?d \<le> 153 * ?m + 2 \<and> 153 * ?m + 2 < 5 * ?d + 5" by (rule div_bounds) simp
  from m assms show "0 \<le> ?m" "?m \<le> 11" by linarith+
  from m d show "1 \<le> doy - ?d + 1" "doy - ?d + 1 \<le> 31" by linarith+
qed

lemma seconds_of_day:
  fixes s :: int
  assumes "0 \<le> s" and "s < 86400"
  shows "0 \<le> s div 3600" "s div 3600 \<le> 23" "((s div 3600) * 60 + s div 60 mod 60) * 60 + s mod 60 = s"
proof -
  have h: "s div 3600 = s div 60 div 60" using zdiv_zmult2_eq [of 60 s 60] by simp
  show "0 \<le> s div 3600" using assms by (simp add: pos_imp_zdiv_nonneg_iff)
  show "s div 3600 \<le> 23" using assms by linarith
  have "(s div 3600) * 60 + s div 60 mod 60 = s div 60" unfolding h by (rule div_mult_mod_eq)
  then show "((s div 3600) * 60 + s div 60 mod 60) * 60 + s mod 60 = s" by (simp add: div_mult_mod_eq)
qed

text \<open>The days from January 1, 1970 to December 31, 9999 are in the years 1970 to 9999.\<close>

lemma year_bounds:
  fixes y doy z :: int
  assumes "36524 * y - 72 \<le> 100 * (z - doy) \<and> 4 * (z - doy) \<le> 1461 * y"
    and "365 * y + y div 4 - y div 100 + y div 400 + doy = z" and "0 \<le> doy" "doy \<le> 365"
    and "719468 \<le> z" "z < 3652365"
  shows "1970 \<le> y + (if (5 * doy + 2) div 153 < 10 then 0 else 1)" "y + (if (5 * doy + 2) div 153 < 10 then 0 else 1) \<le> 9999"
proof -
  have y: "1969 \<le> y" "y \<le> 9999" using assms by linarith+
  show "1970 \<le> y + (if (5 * doy + 2) div 153 < 10 then 0 else 1)"
  proof (cases "y = 1969")
    case True
    then have "306 \<le> doy" using assms(2,5) by simp
    then have "10 \<le> (5 * doy + 2) div 153" by linarith
    then show ?thesis using True by simp
  qed (use y in auto)
  show "y + (if (5 * doy + 2) div 153 < 10 then 0 else 1) \<le> 9999"
  proof (cases "y = 9999")
    case True
    then have "doy < 306" using assms(2,6) by simp
    then have "(5 * doy + 2) div 153 < 10" by linarith
    then show ?thesis using True by simp
  qed (use y in auto)
qed

lemma day_seconds: "((d * 24 + h) * 60 + m) * 60 + s = d * 86400 + ((h * 60 + m) * 60 + (s :: int))"
  by simp

lemma month_from_march:
  fixes mp :: int
  assumes "0 \<le> mp" and "mp \<le> 11"
  shows "0 \<le> (mp + 2) mod 12 \<and> (mp + 2) mod 12 \<le> 11 \<and> ((mp + 2) mod 12 < 2 \<longleftrightarrow> \<not> mp < 10) \<and>
    ((mp + 2) mod 12 + 10) mod 12 = mp \<and> (mp + 2) mod 12 div 12 = 0"
proof (cases "mp < 10")
  case True
  then show ?thesis using assms by (simp add: mod_pos_pos_trivial)
next
  case False
  then have "mp = 10 \<or> mp = 11" using assms by linarith
  then show ?thesis by auto
qed

lemma civil_days:
  assumes "civil z = (y, doy)" and "719468 \<le> z" "z < 3652365"
  shows "365 * y + y div 4 - y div 100 + y div 400 + doy = z" "0 \<le> doy" "doy \<le> 365"
    "1970 \<le> y + (if (5 * doy + 2) div 153 < 10 then 0 else 1)" "y + (if (5 * doy + 2) div 153 < 10 then 0 else 1) \<le> 9999"
proof -
  define e r where "e = z div 146097" and "r = z mod 146097"
  define a where "a = min 3 (r div 36524)"
  define r1 where "r1 = r - 36524 * a"
  define b r2 where "b = r1 div 1461" and "r2 = r1 mod 1461"
  define c where "c = min 3 (r2 div 365)"
  have y: "y = 400 * e + 100 * a + 4 * b + c" "doy = r2 - 365 * c"
    using assms(1) unfolding civil_def Let_def e_def r_def a_def r1_def b_def r2_def c_def prod.inject by blast+
  have r: "0 \<le> r" "r \<le> 4 * 36524" "z = 146097 * e + r"
    unfolding r_def e_def using div_mod_bounds [of 146097 z] by simp_all
  have a: "0 \<le> a" "a \<le> 3" "0 \<le> r1" "r1 \<le> 36524" 
    using min_div_bounds [OF r(1,2), folded a_def, folded r1_def] by simp_all
  have b: "0 \<le> b" "b \<le> 24" "r1 = 1461 * b + r2" "0 \<le> r2" "r2 \<le> 4 * 365"
  proof -
    have d: "0 \<le> r2" "r2 \<le> 1460" "r1 = 1461 * b + r2" unfolding b_def r2_def using div_mod_bounds [of 1461 r1] by simp_all
    then show "0 \<le> b" "b \<le> 24" "r1 = 1461 * b + r2" "0 \<le> r2" "r2 \<le> 4 * 365" using a(3,4) by linarith+
  qed
  have c: "0 \<le> c" "c \<le> 3" "0 \<le> doy" "doy \<le> 365" 
    using min_div_bounds [OF b(4,5), folded c_def, folded y(2)] by simp_all
  show "0 \<le> doy" "doy \<le> 365" by (fact c)+
  show days: "365 * y + y div 4 - y div 100 + y div 400 + doy = z"
    unfolding period_divs [OF a(1,2) b(1,2) c(1,2), of e, folded y(1)] using r(3) b(3) y r1_def by linarith
  have "0 \<le> e" using assms(2) r by linarith
  moreover have zd: "z - doy = 146097 * e + 36524 * a + 1461 * b + 365 * c" using r(3) b(3) y r1_def by linarith
  ultimately have "36524 * y - 72 \<le> 100 * (z - doy) \<and> 4 * (z - doy) \<le> 1461 * y"
    using a(1,2) b(1,2) c(1,2) unfolding y(1) zd by (simp add: algebra_simps)
  from year_bounds [OF this days c(3,4) assms(2,3)]
  show "1970 \<le> y + (if (5 * doy + 2) div 153 < 10 then 0 else 1)" "y + (if (5 * doy + 2) div 153 < 10 then 0 else 1) \<le> 9999" .
qed

lemma mod_bounds: "x mod 7 \<le> (6 :: int)" "x mod 60 \<le> (59 :: int)"
  by presburger+

definition date_fields :: "tm \<Rightarrow> bool" where
  "date_fields d \<longleftrightarrow> 70 \<le> tm_year d \<and> tm_year d \<le> 8099 \<and> 0 \<le> tm_mon d \<and> tm_mon d \<le> 11 \<and> 1 \<le> tm_mday d \<and> tm_mday d \<le> 31 \<and>
    0 \<le> tm_wday d \<and> tm_wday d \<le> 6 \<and> 0 \<le> tm_hour d \<and> tm_hour d \<le> 23 \<and> 0 \<le> tm_min d \<and> tm_min d \<le> 59 \<and>
    0 \<le> tm_sec d \<and> tm_sec d \<le> 59"

lemma gmtime_timegm:
  assumes "0 \<le> t" and "t < 253402300800"
  shows "\<exists>d. gmtime t = Some d \<and> timegm d = t \<and> date_fields d"
proof -
  obtain y doy where civil: "civil (t div 86400 + 719468) = (y, doy)" by force
  have z: "719468 \<le> t div 86400 + 719468" "t div 86400 + 719468 < 3652365" using assms by (simp_all add: pos_imp_zdiv_nonneg_iff)
  note days = civil_days [OF civil z]
  define mp mon where "mp = (5 * doy + 2) div 153" and "mon = (mp + 2) mod 12"
  define Y where "Y = y + (if mp < 10 then 0 else 1)"
  have Y: "1970 \<le> Y" "Y \<le> 9999" using days(4,5) by (simp_all add: Y_def mp_def)
  note m = month_of_day [OF days(2,3), folded mp_def]
  have mon: "0 \<le> mon" "mon \<le> 11" "mon < 2 \<longleftrightarrow> \<not> mp < 10" "(mon + 10) mod 12 = mp" "mon div 12 = 0" "mon mod 12 = mon"
    using month_from_march [OF m(1,2)] unfolding mon_def by simp_all
  define d where "d = \<lparr>tm_sec = (t mod 86400) mod 60, tm_min = (t mod 86400) div 60 mod 60, tm_hour = (t mod 86400) div 3600,
    tm_mday = doy - (153 * mp + 2) div 5 + 1, tm_mon = mon, tm_year = Y - 1900, tm_wday = (t div 86400 + 4) mod 7\<rparr>"
  have "gmtime t = Some d"
    using Y unfolding gmtime_def Let_def d_def mon_def civil
    by (simp add: mp_def [symmetric] Y_def [symmetric])
  moreover have "timegm d = t"
  proof -
    have yr: "(if mon < 2 then Y - 1 else Y) = y" using mon(3) by (simp add: Y_def)
    have yr2: "Y - 1900 + 1900 + 0 = Y" by simp
    have "365 * y + y div 4 - y div 100 + y div 400 + ((153 * mp + 2) div 5 + (doy - (153 * mp + 2) div 5 + 1) - 1) - 719468 = t div 86400"
      using days(1) by linarith
    then have "timegm d = ((t div 86400 * 24 + t mod 86400 div 3600) * 60 + t mod 86400 div 60 mod 60) * 60 + t mod 86400 mod 60"
      unfolding timegm_def d_def Let_def tm.simps mon(4-6) yr2 yr by (simp only: add_diff_eq)
    also have "\<dots> = (t div 86400) * 86400 + t mod 86400"
      unfolding day_seconds by (subst seconds_of_day(3)) simp_all
    finally show ?thesis by simp
  qed
  moreover have "date_fields d"
  proof -
    have "70 \<le> Y - 1900" "Y - 1900 \<le> 8099" using Y by linarith+
    then show ?thesis unfolding date_fields_def d_def tm.simps
      by (intro conjI mon(1,2) m(3,4) seconds_of_day(1,2) mod_bounds) simp_all
  qed
  ultimately show ?thesis by blast
qed

text \<open>Reading a field back.\<close>

lemma two_digits_isdigit:
  assumes "0 \<le> n" and "n \<le> 99"
  shows "nat n div 10 < 10" "nat n mod 10 < 10" "int (nat n div 10) * 10 + int (nat n mod 10) = n" "int (nat n div 10) * 10 \<le> n"
proof -
  have n: "int (nat n) = n" using assms by simp
  show "nat n div 10 < 10" "nat n mod 10 < 10" using assms by (simp_all add: nat_less_iff less_mult_imp_div_less)
  have "nat n div 10 * 10 + nat n mod 10 = nat n" by simp
  then show eq: "int (nat n div 10) * 10 + int (nat n mod 10) = n"
    using n by (metis of_nat_add of_nat_mult of_nat_numeral)
  show "int (nat n div 10) * 10 \<le> n" using eq by linarith
qed

lemma digit_no_space: "isdigit c \<Longrightarrow> c \<noteq> CHR '' '' \<and> \<not> isspace c"
  by (auto simp: isdigit_def isspace_def)

lemma get_number_two_digits:
  assumes "0 \<le> lo" and "lo \<le> n" and "n \<le> hi" and "hi \<le> 99"
  shows "get_number lo hi 2 (two_digits n @ s) = Some (n, s)"
proof -
  have n: "0 \<le> n" "n \<le> 99" using assms by linarith+
  note d = two_digits_isdigit [OF n]
  have "digits_loop hi (Suc (Suc 0)) 0 (two_digits n @ s) = (n, s)"
    using d assms by (simp add: two_digits_def digit_char del: of_nat_div of_nat_mod)
  moreover have "isdigit (char_of (48 + nat n div 10))" using d by (simp add: digit_char)
  ultimately show ?thesis using assms digit_no_space by (simp add: get_number_def two_digits_def numeral_2_eq_2 Let_def)
qed

lemma digits_loop_digits:
  assumes "\<forall>c \<in> set ds. isdigit c" and "0 \<le> v"
    and "foldl (\<lambda>n c. n * 10 + int (digit_val c)) v ds \<le> hi"
  shows "digits_loop hi (length ds) v (ds @ s) = (foldl (\<lambda>n c. n * 10 + int (digit_val c)) v ds, s)"
  using assms
proof (induction ds arbitrary: v)
  case (Cons c ds)
  let ?f = "\<lambda>n c. n * 10 + int (digit_val c)"
  have mono: "w \<le> foldl ?f w ds" if "0 \<le> w" for w
    using that
  proof (induction ds arbitrary: w)
    case (Cons d ds)
    show ?case using Cons.IH [of "?f w d"] Cons.prems by simp
  qed simp
  have "v * 10 \<le> hi" using mono [of "?f v c"] Cons.prems by simp
  then show ?case using Cons by simp
qed simp

lemma foldl_int_digits: "foldl (\<lambda>n c. n * 10 + int (digit_val c)) (int v) ds = int (foldl (\<lambda>n c. n * 10 + digit_val c) v ds)"
proof (induction ds arbitrary: v)
  case (Cons c ds)
  show ?case using Cons [of "v * 10 + digit_val c"] by simp
qed simp

lemma length_dec_step: "length (dec n) = (if n < 10 then 1 else Suc (length (dec (n div 10))))"
  by (subst dec.simps) simp

lemma length_dec_4:
  assumes "1000 \<le> n" and "n \<le> 9999"
  shows "length (dec n) = 4"
proof -
  define a b c where "a = n div 10" and "b = a div 10" and "c = b div 10"
  have "\<not> n < 10" "\<not> a < 10" "\<not> b < 10" "c < 10" using assms by (simp_all add: a_def b_def c_def)
  then show ?thesis
    by (simp only: length_dec_step [of n] length_dec_step [of a] length_dec_step [of b] length_dec_step [of c] a_def [symmetric] b_def [symmetric]
        c_def [symmetric] if_True if_False)
qed

lemma get_number_year:
  assumes "1000 \<le> y" and "y \<le> 9999"
  shows "get_number 0 9999 4 (dec_int_str y @ s) = Some (y, s)"
proof -
  let ?ds = "dec (nat y)"
  have len: "length ?ds = 4" using assms by (intro length_dec_4) simp_all
  have val: "foldl (\<lambda>n c. n * 10 + int (digit_val c)) 0 ?ds = y"
    using foldl_int_digits [of 0 ?ds] dec_val_dec [of "nat y"] assms by (simp add: dec_val_def)
  have "digits_loop 9999 (length ?ds) 0 (?ds @ s) = (y, s)"
    using digits_loop_digits [OF dec_digits, of 0 "nat y" 9999 s] val assms by simp
  moreover obtain c ds where ds: "?ds = c # ds" using dec_not_Nil by (cases ?ds) auto
  moreover from ds have "isdigit c" using dec_digits [of "nat y"] by auto
  ultimately show ?thesis using assms len digit_no_space [of c]
    by (simp add: get_number_def dec_int_str_def Let_def del: digits_loop.simps)
qed

lemma dropWhile_digits:
  "0 \<le> n \<Longrightarrow> n \<le> 99 \<Longrightarrow> dropWhile isspace (two_digits n @ s) = two_digits n @ s"
  "0 \<le> y \<Longrightarrow> dropWhile isspace (dec_int_str y @ s) = dec_int_str y @ s"
proof -
  assume "0 \<le> n" "n \<le> 99"
  from two_digits_isdigit(1) [OF this] have "isdigit (char_of (48 + nat n div 10))" by (rule digit_char)
  then show "dropWhile isspace (two_digits n @ s) = two_digits n @ s" by (simp add: two_digits_def digit_no_space)
next
  assume "0 \<le> y"
  then show "dropWhile isspace (dec_int_str y @ s) = dec_int_str y @ s" by (simp add: dec_int_str_def dec_head)
qed

lemma match_weekday:
  assumes "0 \<le> n" and "n \<le> 6"
  shows "match_name 0 weekday_names (take 3 (weekday_names ! nat n) @ CHR '','' # s) = Some (n, CHR '','' # s)"
proof -
  have "n = 6 \<or> n = 5 \<or> n = 4 \<or> n = 3 \<or> n = 2 \<or> n = 1 \<or> n = 0"
    using assms by presburger
  then show ?thesis
    by (elim disjE) (simp_all add: weekday_names_def match_string_def tolower_def isupper_def)
qed

lemma match_month:
  assumes "0 \<le> n" and "n \<le> 11"
  shows "dropWhile isspace (take 3 (month_names ! nat n) @ CHR '' '' # s) = take 3 (month_names ! nat n) @ CHR '' '' # s \<and>
    match_name 0 month_names (take 3 (month_names ! nat n) @ CHR '' '' # s) = Some (n, CHR '' '' # s)"
proof -
  have "n = 11 \<or> n = 10 \<or> n = 9 \<or> n = 8 \<or> n = 7 \<or> n = 6 \<or> n = 5 \<or> n = 4 \<or> n = 3 \<or> n = 2 \<or> n = 1 \<or> n = 0"
    using assms by presburger
  then show ?thesis
    by (elim disjE) (simp_all add: month_names_def isspace_def match_string_def tolower_def isupper_def)
qed

lemmas strptime_steps = strptime_loop.simps convert_field_def isspace_def Let_def

lemma date_fieldsD:
  assumes "date_fields d"
  shows "0 \<le> tm_hour d" "tm_hour d \<le> 23" "0 \<le> tm_min d" "tm_min d \<le> 59" "0 \<le> tm_sec d" "tm_sec d \<le> 59"
    "0 \<le> tm_wday d" "tm_wday d \<le> 6" "0 \<le> tm_mon d" "tm_mon d \<le> 11" "1 \<le> tm_mday d" "0 \<le> tm_mday d" "tm_mday d \<le> 31" "tm_mday d \<le> 99"
    "1000 \<le> tm_year d + 1900" "0 \<le> tm_year d + 1900" "tm_year d + 1900 \<le> 9999"
  using assms by (simp_all add: date_fields_def)

lemma match_name_None:
  "list_all (\<lambda>n. n \<noteq> [] \<and> tolower (hd n) \<noteq> tolower c) names \<Longrightarrow> match_name i names (c # s) = None"
proof (induction names arbitrary: i)
  case (Cons n names)
  then obtain a n' where "n = a # n'" by (cases n) auto
  then show ?case using Cons by (auto simp: match_string_def take_Cons')
qed simp

lemma no_month_at_comma: "match_name 0 month_names (CHR '','' # s) = None"
proof (rule match_name_None)
  show "list_all (\<lambda>n. n \<noteq> [] \<and> tolower (hd n) \<noteq> tolower (CHR '','')) month_names" by code_simp
qed

lemma parse_rfc850_http_date: "date_fields d \<Longrightarrow> parse_rfc850 (http_date d) = None"
  by (simp add: parse_rfc850_def parse_date_as_def strptime_def http_date_def date_fieldsD match_weekday strptime_steps
      dropWhile_digits get_number_two_digits)

lemma parse_asctime_http_date: "date_fields d \<Longrightarrow> parse_asctime (http_date d) = None"
  by (simp add: parse_asctime_def parse_date_as_def strptime_def http_date_def date_fieldsD match_weekday strptime_steps
      no_month_at_comma)

lemma strptime_http_date:
  assumes "date_fields d"
  shows "strptime (http_date d) ''%a, %d %b %Y %H:%M:%S '' = Some (''GMT'', d)"
  using date_fieldsD [OF assms]
  by (simp add: strptime_def http_date_def day_time_def match_weekday strptime_steps
      dropWhile_digits get_number_two_digits get_number_year match_month zero_tm_def)

text \<open>Reading a date that was written as an HTTP header.\<close>

lemma parse_time_http_date:
  assumes "0 \<le> t" and "t < 253402300800"
  shows "\<exists>d. gmtime t = Some d \<and> parse_time (http_date d) = Inr t"
proof -
  obtain d where d: "gmtime t = Some d" "timegm d = t" "date_fields d" using gmtime_timegm [OF assms] by blast
  have "parse_rfc1123 (http_date d) = Some d"
    by (simp add: parse_rfc1123_def parse_date_as_def strptime_http_date [OF d(3)] check_gmt_end_def isspace_def starts_with_def)
  then show ?thesis
    using d by (simp add: parse_time_def parse_rfc2616_def parse_rfc850_http_date parse_asctime_http_date)
qed

end
