(* ===== verification/Auth_S3.thy ===== *)
theory Auth_S3
  imports Req_State Armor Rgw_Time
begin

text \<open>
  Authentication of S3 requests: the string to sign and its digest (\<^verbatim>\<open>src/rgw/rgw_auth_s3.cc\<close>),
  the user of an access key (\<^verbatim>\<open>porting_user.cc\<close>) and
  \<^verbatim>\<open>RGW_Auth_S3::authorize\<close> (\<^verbatim>\<open>porting_rest_s3.cc\<close>), as compiled without \<^verbatim>\<open>FICS\<close>.
  What lies outside of the sources is a field of the record \<open>auth_world\<close>: the clock, the keyed hash of the
  crypto library, the password and shadow databases, the
  configuration files of the users, and what is left of a file's data when the parser overruns its buffers.
\<close>

section \<open>The outside world\<close>

record auth_world =
  w_now :: int
  w_hmac_sha1 :: "string \<Rightarrow> string \<Rightarrow> string"
  w_getpwnam :: "string \<Rightarrow> int option"
  w_getspnam :: "string \<Rightarrow> bool"
  w_user_name :: string
  w_use_rados :: bool
  w_sys_user_root :: string
  w_conf_file :: "string \<Rightarrow> string option"
  w_overrun :: sys_info
  w_cached :: "string \<Rightarrow> user_info option"

section \<open>The string to sign\<close>

definition signed_subresources :: "string list" where
  "signed_subresources =
     [''acl'', ''cors'', ''delete'', ''lifecycle'', ''location'', ''logging'', ''notification'', ''partNumber'',
      ''policy'', ''requestPayment'', ''response-cache-control'', ''response-content-disposition'',
      ''response-content-encoding'', ''response-content-language'', ''response-content-type'', ''response-expires'',
      ''torrent'', ''uploadId'', ''uploads'', ''versionId'', ''versioning'', ''versions'', ''website'']"

definition get_canon_amz_hdr :: "string string_map \<Rightarrow> string" where
  "get_canon_amz_hdr meta_map = concat (map (\<lambda>(k, v). k @ '':'' @ v @ [LF]) meta_map)"

definition canon_step :: "string string_map \<Rightarrow> string \<Rightarrow> string \<Rightarrow> string" where
  "canon_step sub p append_str =
     (case smap_get sub p of
        None \<Rightarrow> append_str
      | Some v \<Rightarrow> append_str @ (if append_str = [] then ''?'' else ''&'') @ p @ (if v \<noteq> [] then ''='' @ v else []))"

definition get_canon_resource :: "string option \<Rightarrow> string string_map \<Rightarrow> string" where
  "get_canon_resource uri sub =
     (case uri of None \<Rightarrow> [] | Some u \<Rightarrow> u) @ fold (canon_step sub) signed_subresources []"

definition opt_str :: "string option \<Rightarrow> string" where
  "opt_str s = (case s of None \<Rightarrow> [] | Some v \<Rightarrow> v)"

definition create_canonical_header :: "string option \<Rightarrow> string option \<Rightarrow> string option \<Rightarrow> string option \<Rightarrow>
    string string_map \<Rightarrow> string option \<Rightarrow> string string_map \<Rightarrow> string" where
  "create_canonical_header http_verb content_md5 content_type date meta_map uri sub =
     opt_str http_verb @ [LF] @ opt_str content_md5 @ [LF] @ opt_str content_type @ [LF] @ opt_str date @ [LF] @
     get_canon_amz_hdr meta_map @ get_canon_resource uri sub"

definition is_base64_for_content_md5 :: "char \<Rightarrow> bool" where
  "is_base64_for_content_md5 c \<longleftrightarrow> isalnum c \<or> isspace c \<or> c = CHR ''+'' \<or> c = CHR ''/'' \<or> c = CHR ''=''"

text \<open>The date of the request: the string to sign has none when only \<^verbatim>\<open>X-Amz-Date\<close> is sent, which is
  then among the signed headers.  The second component is the time that is stored.\<close>

definition request_date :: "rgw_env \<Rightarrow> req_info \<Rightarrow> bool \<Rightarrow> (string \<times> int option) option" where
  "request_date env i qsr =
     (if qsr then Some (fst (args_get (args i) ''Expires''), None)
      else
        let check = (\<lambda>date req_date.
          case parse_rfc2616 req_date of
            None \<Rightarrow> None
          | Some t \<Rightarrow> if tm_year t < 70 then None else Some (date, Some (timegm t)))
        in case env_get env ''HTTP_DATE'' None of
          Some d \<Rightarrow> check d d
        | None \<Rightarrow> (case env_get env ''HTTP_X_AMZ_DATE'' None of None \<Rightarrow> None | Some d \<Rightarrow> check [] d))"

definition rgw_create_s3_canonical_header :: "rgw_env \<Rightarrow> req_info \<Rightarrow> bool \<Rightarrow> (string \<times> int option) option" where
  "rgw_create_s3_canonical_header env i qsr =
     (let content_md5 = env_get env ''HTTP_CONTENT_MD5'' None in
      if \<not> list_all is_base64_for_content_md5 (opt_str content_md5) then None
      else
        let content_type = env_get env ''CONTENT_TYPE'' None in
        case request_date env i qsr of
          None \<Rightarrow> None
        | Some (date, time) \<Rightarrow>
            let uri = (if effective_uri i = [] then request_uri i else effective_uri i)
            in Some (create_canonical_header (Some (req_method i)) content_md5 content_type (Some (c_str date))
                 (x_meta_map i) (Some (c_str uri)) (sub_resources (args i)), time))"

definition rgw_get_s3_header_digest :: "auth_world \<Rightarrow> string \<Rightarrow> string \<Rightarrow> string result" where
  "rgw_get_s3_header_digest w auth_hdr key =
     (if key = [] then Inl (- EINVAL)
      else bind_res (ceph_armor 64 (w_hmac_sha1 w key auth_hdr)) (\<lambda>(n, b64). Inr (take n b64)))"

section \<open>The user of an access key\<close>

definition getuid :: "auth_world \<Rightarrow> string \<Rightarrow> int" where
  "getuid w suffix_name =
     (let n = (if suffix_name = [] then w_user_name w else suffix_name)
      in case w_getpwnam w n of None \<Rightarrow> - 1 | Some uid \<Rightarrow> uid)"

definition system_obj :: "auth_world \<Rightarrow> string \<Rightarrow> string result" where
  "system_obj w = rgw_get_system_obj (w_conf_file w) (getuid w) (w_overrun w) (w_sys_user_root w)"

text \<open>The result, and the entry that is put into the cache.\<close>

definition rgw_get_user_info_from_index :: "auth_world \<Rightarrow> string \<Rightarrow> user_info result \<times> user_info option" where
  "rgw_get_user_info_from_index w key =
     (case w_cached w key of
        Some info \<Rightarrow> (Inr info, None)
      | None \<Rightarrow>
          (case system_obj w key of
             Inl e \<Rightarrow> (Inl e, None)
           | Inr bl \<Rightarrow>
               (case dec_rgw_uid bl of
                  None \<Rightarrow> (Inl (- EIO), None)
                | Some (uid, _) \<Rightarrow>
                    (case rgw_get_user_info_by_uid (system_obj w) uid new_user of
                       Inl e \<Rightarrow> (Inl e, None)
                     | Inr info \<Rightarrow> (Inr info, Some info)))))"

definition rgw_get_user_info_by_access_key :: "auth_world \<Rightarrow> string \<Rightarrow> user_info \<Rightarrow> int \<times> user_info" where
  "rgw_get_user_info_by_access_key w access_key info =
     (let uid = getuid w (c_str access_key) in
      if uid < 0 then (- 1, info)
      else
        let info = info\<lparr>auid := of_int uid, display_name := access_key, user_id := access_key\<rparr>;
            named = (\<lambda>info. info\<lparr>display_name := access_key, user_id := access_key\<rparr>)
        in case fst (rgw_get_user_info_from_index w access_key) of
          Inl e \<Rightarrow> (e, named info)
        | Inr info' \<Rightarrow> (0, named info'))"

lemma system_obj_uid:
  assumes "short key"
  shows "\<exists>bl. system_obj w key = Inr bl \<and> (\<exists>bl'. dec_rgw_uid bl = Some (key, bl'))"
  using assms by (auto simp: system_obj_def rgw_get_system_obj_def dec_rgw_uid_def enc_rgw_uid_def Let_def split: option.splits)


section \<open>Authorization\<close>

definition init_anon_user :: "req_state \<Rightarrow> req_state" where
  "init_anon_user s = s\<lparr>rs_perm_mask := RGW_PERM_FULL_CONTROL\<rparr>"

text \<open>The credentials of the request: None for an anonymous one, else key id, signature and whether they are
  in the query string.\<close>

definition credentials :: "auth_world \<Rightarrow> req_state \<Rightarrow> (string \<times> string \<times> bool) option result" where
  "credentials w s =
     (if opt_str (rs_http_auth s) = [] then
        let a = args (rs_info s); auth_id = fst (args_get a ''AWSAccessKeyId'') in
        if auth_id \<noteq> [] then
          if w_now w \<ge> atoll (c_str (fst (args_get a ''Expires''))) then Inl (- EPERM)
          else Inr (Some (auth_id, fst (args_get a ''Signature''), True))
        else Inr None
      else
        let http_auth = opt_str (rs_http_auth s) in
        if \<not> starts_with http_auth ''AWS '' then Inl (- EINVAL)
        else
          let auth_str = drop 4 http_auth in
          case find_last (\<lambda>c. c = CHR '':'') auth_str of
            None \<Rightarrow> Inl (- EINVAL)
          | Some pos \<Rightarrow> Inr (Some (take pos auth_str, drop (pos + 1) auth_str, False)))"

definition secret_key :: string where
  "secret_key = ''8888''"

definition become_effective_user :: "req_state \<Rightarrow> req_state" where
  "become_effective_user s =
     (if system_user (rs_user s) \<noteq> 0 then
        let s = s\<lparr>rs_system_request := True, rs_info := (rs_info s)\<lparr>args := set_system (args (rs_info s))\<rparr>\<rparr>;
            effective_uid = fst (args_get (args (rs_info s)) (RGW_SYS_PARAM_PREFIX @ ''uid''))
        in if effective_uid \<noteq> [] then s\<lparr>rs_user := new_user\<rparr> else s
      else s)"

text \<open>The key record is a fresh one, so it names no subuser and the mask is full control.\<close>

definition authorize :: "auth_world \<Rightarrow> req_state \<Rightarrow> int \<times> req_state" where
  "authorize w s =
     (if rs_op s = OP_OPTIONS then (0, init_anon_user s)
      else case credentials w s of
        Inl e \<Rightarrow> (e, s)
      | Inr None \<Rightarrow> (0, init_anon_user s)
      | Inr (Some (auth_id, auth_sign, qsr)) \<Rightarrow>
          if \<not> w_use_rados w then (- EINVAL, s)
          else
            let (r, u) = rgw_get_user_info_by_access_key w auth_id (rs_user s);
                s = s\<lparr>rs_user := u\<rparr>
            in if r < 0 then (- ERR_INVALID_ACCESS_KEY, s)
            else case rgw_create_s3_canonical_header (rs_env s) (rs_info s) qsr of
              None \<Rightarrow> (- EPERM, s)
            | Some (auth_hdr, time) \<Rightarrow>
                let s = s\<lparr>rs_header_time := (case time of None \<Rightarrow> rs_header_time s | Some t \<Rightarrow> t)\<rparr> in
                if \<not> w_getspnam w (c_str auth_id) then (- EPERM, s)
                else
                  let s = s\<lparr>rs_perm_mask := RGW_PERM_FULL_CONTROL\<rparr> in
                  (case rgw_get_s3_header_digest w auth_hdr secret_key of
                     Inl _ \<Rightarrow> (- EPERM, s)
                   | Inr digest \<Rightarrow>
                       if auth_sign \<noteq> digest then (- ERR_SIGNATURE_NO_MATCH, s)
                       else (0, become_effective_user s)))"

section \<open>Which requests are accepted\<close>

lemma header_digest_eq:
  assumes "length (w_hmac_sha1 w key hdr) = 20" and "key \<noteq> []"
  shows "rgw_get_s3_header_digest w hdr key = Inr (armored 0 0 (w_hmac_sha1 w key hdr))"
proof -
  have "length (armored 0 0 (w_hmac_sha1 w key hdr)) = 28"
    using assms(1) by (simp add: length_armored_0)
  then show ?thesis
    using assms
    by (simp add: rgw_get_s3_header_digest_def ceph_armor_def ceph_armor_line_break_def armor_loop_eq bind_res_def)
qed

text \<open>A request of user joe on a sample gateway.\<close>

definition sample_world :: auth_world where
  "sample_world =
     \<lparr>w_now = 0, w_hmac_sha1 = (\<lambda>_ _. replicate 20 CHR ''A''),
      w_getpwnam = (\<lambda>n. Some 1000), w_getspnam = (\<lambda>n. True), w_user_name = ''root'', w_use_rados = True,
      w_sys_user_root = ''/.sys_user'',
      w_conf_file = (\<lambda>_. None), w_overrun = new_sys_info, w_cached = (\<lambda>_. Some new_user)\<rparr>"

text \<open>The sample gateway with an empty cache and a configuration file for joe.\<close>

definition conf_world :: auth_world where
  "conf_world = sample_world\<lparr>w_cached := (\<lambda>_. None),
     w_conf_file := (\<lambda>p. if p = ''/.sys_user/.joe.conf'' then Some (''max_buckets:5'' @ [LF] @ ''user_enabled:1'' @ [LF] @ ''user_max_objects:20'' @ [LF]) else None)\<rparr>"


definition sample_env :: rgw_env where
  "sample_env = env_init [''REQUEST_METHOD=GET'', ''HTTP_DATE=Fri Jan  1 00:00:00 2016''] new_env"

definition sample_request :: req_state where
  "sample_request = (new_req_state sample_env)\<lparr>rs_http_auth := Some ''AWS joe:QUFBQUFBQUFBQUFBQUFBQUFBQUE=''\<rparr>"

lemma sample_credentials:
  "credentials sample_world sample_request = Inr (Some (''joe'', ''QUFBQUFBQUFBQUFBQUFBQUFBQUE='', False))"
  by code_simp

lemma sample_date: "env_get sample_env ''HTTP_DATE'' None = Some ''Fri Jan  1 00:00:00 2016''"
  "env_get sample_env ''HTTP_CONTENT_MD5'' None = None"
  "parse_rfc2616 ''Fri Jan  1 00:00:00 2016'' =
     Some \<lparr>tm_sec = 0, tm_min = 0, tm_hour = 0, tm_mday = 1, tm_mon = 0, tm_year = 116, tm_wday = 5\<rparr>"
  by code_simp+

lemma sample_digest: "armored 0 0 (replicate 20 CHR ''A'') = ''QUFBQUFBQUFBQUFBQUFBQUFBQUE=''"
  by code_simp

text \<open>C2: A request with credentials is accepted exactly when user lookup is enabled, the access key names a
  known user with a shadow entry, the string to sign can be built, and the signature is the base64 text of
  its keyed hash under the key 8888, which is the same for all users.\<close>

theorem authorize_signed_iff:
  assumes "\<And>k m. length (w_hmac_sha1 w k m) = 20"
    and "rs_op s \<noteq> OP_OPTIONS" and "credentials w s = Inr (Some (auth_id, auth_sign, qsr))"
  shows "fst (authorize w s) = 0 \<longleftrightarrow>
    w_use_rados w \<and> 0 \<le> fst (rgw_get_user_info_by_access_key w auth_id (rs_user s)) \<and> w_getspnam w (c_str auth_id) \<and>
    (\<exists>auth_hdr time. rgw_create_s3_canonical_header (rs_env s) (rs_info s) qsr = Some (auth_hdr, time) \<and>
       auth_sign = armored 0 0 (w_hmac_sha1 w ''8888'' auth_hdr))"
  using assms(2,3)
  by (auto simp: authorize_def Let_def header_digest_eq [OF assms(1)] secret_key_def split: prod.splits option.splits)

theorem authorize_signed_iff_witness: "fst (authorize sample_world sample_request) = 0"
proof -
  have "length (w_hmac_sha1 sample_world k m) = 20" for k m by (simp add: sample_world_def)
  note accepted = authorize_signed_iff [OF this _ sample_credentials]
  have "rs_op sample_request \<noteq> OP_OPTIONS" "rs_env sample_request = sample_env"
    by (simp_all add: sample_request_def new_req_state_def)
  moreover have "\<exists>hdr time. rgw_create_s3_canonical_header sample_env (rs_info sample_request) False = Some (hdr, time)"
    by (simp add: rgw_create_s3_canonical_header_def request_date_def sample_date Let_def opt_str_def)
  moreover have "fst (rgw_get_user_info_by_access_key sample_world ''joe'' u) = 0" for u
    by (simp add: rgw_get_user_info_by_access_key_def getuid_def sample_world_def rgw_get_user_info_from_index_def Let_def c_str_def)
  ultimately show ?thesis
    using accepted by (auto simp: sample_world_def [THEN arg_cong] sample_digest)
qed

text \<open>C34: The acceptance of a request that is signed in its header does not depend on the time: a recorded
  request can be sent again at any later moment.\<close>

theorem signed_header_never_expires:
  assumes "opt_str (rs_http_auth s) \<noteq> []"
  shows "authorize (w\<lparr>w_now := t\<rparr>) s = authorize w s"
proof -
  have fields: "w_cached (w\<lparr>w_now := t\<rparr>) = w_cached w" "w_conf_file (w\<lparr>w_now := t\<rparr>) = w_conf_file w"
    "w_overrun (w\<lparr>w_now := t\<rparr>) = w_overrun w" "w_sys_user_root (w\<lparr>w_now := t\<rparr>) = w_sys_user_root w" "w_user_name (w\<lparr>w_now := t\<rparr>) = w_user_name w"
    "w_getpwnam (w\<lparr>w_now := t\<rparr>) = w_getpwnam w" "w_getspnam (w\<lparr>w_now := t\<rparr>) = w_getspnam w"
    "w_use_rados (w\<lparr>w_now := t\<rparr>) = w_use_rados w" by simp_all
  have "credentials (w\<lparr>w_now := t\<rparr>) s = credentials w s"
    using assms by (simp add: credentials_def)
  moreover have uid: "getuid (w\<lparr>w_now := t\<rparr>) = getuid w"
    by (intro ext) (simp only: getuid_def fields)
  moreover have "rgw_get_user_info_from_index (w\<lparr>w_now := t\<rparr>) = rgw_get_user_info_from_index w"
    by (intro ext) (simp only: rgw_get_user_info_from_index_def system_obj_def uid fields)
  then have "rgw_get_user_info_by_access_key (w\<lparr>w_now := t\<rparr>) = rgw_get_user_info_by_access_key w"
    by (intro ext) (simp only: rgw_get_user_info_by_access_key_def uid)
  moreover have "rgw_get_s3_header_digest (w\<lparr>w_now := t\<rparr>) = rgw_get_s3_header_digest w"
    by (intro ext) (simp add: rgw_get_s3_header_digest_def)
  ultimately show ?thesis by (simp only: authorize_def fields)
qed

theorem signed_header_never_expires_witness:
  "authorize (sample_world\<lparr>w_now := 4102444800\<rparr>) sample_request = authorize sample_world sample_request"
  by (rule signed_header_never_expires) (simp add: sample_request_def opt_str_def)

text \<open>C35: A new request without credentials is accepted with full control, and the user it runs as counts as
  an authenticated one.\<close>

theorem unsigned_request_authenticated:
  assumes "rs_http_auth s = None" and "fst (args_get (args (rs_info s)) ''AWSAccessKeyId'') = []"
    and "rs_user s = rs_user (new_req_state e)"
  shows "\<exists>s'. authorize w s = (0, s') \<and> rs_perm_mask s' = RGW_PERM_FULL_CONTROL \<and> rgw_user_is_authenticated (rs_user s')"
  using assms
  by (simp add: authorize_def credentials_def opt_str_def init_anon_user_def rgw_user_is_authenticated_def
      new_req_state_def new_user_def RGW_USER_ANON_ID_def)

theorem unsigned_request_authenticated_witness:
  "\<exists>s'. authorize sample_world (new_req_state new_env) = (0, s') \<and> rs_perm_mask s' = RGW_PERM_FULL_CONTROL \<and>
     rgw_user_is_authenticated (rs_user s')"
  by (rule unsigned_request_authenticated [OF _ _ refl])
    (simp_all add: new_req_state_def req_info_init_def Let_def args_get_def new_args_def split: option.splits)

section \<open>The string to sign determines the request\<close>

lemma append_sep_eq:
  "c \<notin> set xs \<Longrightarrow> c \<notin> set ys \<Longrightarrow> xs @ c # us = ys @ c # vs \<longleftrightarrow> xs = ys \<and> us = vs"
proof (induction xs arbitrary: ys)
  case Nil
  then show ?case by (cases ys) auto
next
  case (Cons x xs)
  then show ?case by (cases ys) auto
qed

definition meta_line_ok :: "string \<times> string \<Rightarrow> bool" where
  "meta_line_ok kv \<longleftrightarrow> fst kv \<noteq> [] \<and> hd (fst kv) = CHR ''x'' \<and> CHR '':'' \<notin> set (fst kv) \<and> LF \<notin> set (snd kv)"

lemma amz_hdr_not_slash: "meta_line_ok kv \<Longrightarrow> get_canon_amz_hdr (kv # m) @ s \<noteq> CHR ''/'' # r"
  by (cases kv, cases "fst kv") (auto simp: get_canon_amz_hdr_def meta_line_ok_def)

lemma get_canon_amz_hdr_inj:
  "list_all meta_line_ok m \<Longrightarrow> list_all meta_line_ok m' \<Longrightarrow>
     get_canon_amz_hdr m @ CHR ''/'' # r = get_canon_amz_hdr m' @ CHR ''/'' # r' \<Longrightarrow> m = m' \<and> r = r'"
proof (induction m arbitrary: m')
  case Nil
  have "get_canon_amz_hdr [] = []" by (simp add: get_canon_amz_hdr_def)
  with Nil show ?case
    using amz_hdr_not_slash by (cases m') (simp_all, metis)
next
  case (Cons kv m)
  obtain k v where kv: "kv = (k, v)" by (cases kv)
  show ?case
  proof (cases m')
    case Nil
    then show ?thesis using Cons.prems amz_hdr_not_slash [of kv m] by (simp add: get_canon_amz_hdr_def)
  next
    case (Cons kv' n)
    obtain k' v' where kv': "kv' = (k', v')" by (cases kv')
    let ?rest = "\<lambda>m r. get_canon_amz_hdr m @ CHR ''/'' # r"
    have "k @ CHR '':'' # v @ LF # ?rest m r = k' @ CHR '':'' # v' @ LF # ?rest n r'"
      using Cons.prems(3) by (simp add: Cons kv kv' get_canon_amz_hdr_def)
    moreover have ok: "CHR '':'' \<notin> set k" "CHR '':'' \<notin> set k'" "LF \<notin> set v" "LF \<notin> set v'"
      using Cons.prems(1,2) by (simp_all add: Cons kv kv' meta_line_ok_def)
    ultimately have "k = k'" "v = v'" "?rest m r = ?rest n r'"
      by (simp_all add: append_sep_eq)
    then show ?thesis using Cons.IH [of n] Cons.prems(1,2) by (simp add: Cons kv kv')
  qed
qed

text \<open>C3: Two requests with the same string to sign have the same verb, content hash, content type and date,
  the same signed headers in the same order, and the same resource, as long as no field contains a line
  break and the paths start with a slash: a signature cannot be moved to a different request.\<close>

theorem canonical_header_injective:
  assumes "create_canonical_header a1 b1 c1 d1 m1 (Some (CHR ''/'' # u1)) q1 =
      create_canonical_header a2 b2 c2 d2 m2 (Some (CHR ''/'' # u2)) q2"
    and "\<And>x. x \<in> {a1, b1, c1, d1, a2, b2, c2, d2} \<Longrightarrow> LF \<notin> set (opt_str x)"
    and "list_all meta_line_ok m1" and "list_all meta_line_ok m2"
  shows "opt_str a1 = opt_str a2 \<and> opt_str b1 = opt_str b2 \<and> opt_str c1 = opt_str c2 \<and> opt_str d1 = opt_str d2 \<and>
    m1 = m2 \<and> get_canon_resource (Some (CHR ''/'' # u1)) q1 = get_canon_resource (Some (CHR ''/'' # u2)) q2"
proof -
  have no_lf: "LF \<notin> set (opt_str a1)" "LF \<notin> set (opt_str b1)" "LF \<notin> set (opt_str c1)" "LF \<notin> set (opt_str d1)"
    "LF \<notin> set (opt_str a2)" "LF \<notin> set (opt_str b2)" "LF \<notin> set (opt_str c2)" "LF \<notin> set (opt_str d2)"
    by (rule assms(2), simp)+
  let ?res = "\<lambda>u q. u @ fold (canon_step q) signed_subresources []"
  have "opt_str a1 = opt_str a2 \<and> opt_str b1 = opt_str b2 \<and> opt_str c1 = opt_str c2 \<and> opt_str d1 = opt_str d2 \<and>
    get_canon_amz_hdr m1 @ CHR ''/'' # ?res u1 q1 = get_canon_amz_hdr m2 @ CHR ''/'' # ?res u2 q2"
    using assms(1) by (simp add: create_canonical_header_def get_canon_resource_def append_sep_eq no_lf)
  then show ?thesis
    using get_canon_amz_hdr_inj [OF assms(3,4), of "?res u1 q1" "?res u2 q2"] by (simp add: get_canon_resource_def)
qed

theorem canonical_header_injective_witness:
  "get_canon_resource (Some ''/b/o'') [(''acl'', [])] = get_canon_resource (Some ''/b/o'') [(''acl'', []), (''marker'', ''x'')]"
  using canonical_header_injective [of "Some ''GET''" None None "Some ''Fri''" "[(''x-amz-a'', ''1'')]" "''b/o''" "[(''acl'', [])]"
      "Some ''GET''" None None "Some ''Fri''" "[(''x-amz-a'', ''1'')]" "''b/o''" "[(''acl'', []), (''marker'', ''x'')]"]
  by (auto simp: create_canonical_header_def get_canon_resource_def signed_subresources_def canon_step_def opt_str_def
      meta_line_ok_def)

end
