(* ===== verification/Rest.thy ===== *)
theory Rest
  imports Auth_S3 Utf8 Obj_Name
begin

text \<open>
  The front of a request: attribute names, the validation of bucket and object names, the tree of resource
  managers, \<^verbatim>\<open>RGWREST::preprocess\<close>, the split of the address into bucket and object, and the choice of
  handler and operation.  \<^verbatim>\<open>src/rgw/porting_rest.cc\<close>, \<^verbatim>\<open>porting_rest_s3.cc\<close>, the parser of copy
  sources in \<^verbatim>\<open>porting_op.cc\<close> and the registration in \<^verbatim>\<open>rgw_main.cc\<close>.
\<close>

section \<open>Attribute names\<close>

definition lowercase_underscore_http_attr :: "string \<Rightarrow> string" where
  "lowercase_underscore_http_attr orig = c_str (map (\<lambda>c. if c = CHR ''-'' then CHR ''_'' else tolower c) orig)"

definition uppercase_underscore_http_attr :: "string \<Rightarrow> string" where
  "uppercase_underscore_http_attr orig = c_str (map (\<lambda>c. if c = CHR ''-'' then CHR ''_'' else toupper c) orig)"

fun camelcase_loop :: "bool \<Rightarrow> string \<Rightarrow> string" where
  "camelcase_loop last_sep [] = []"
| "camelcase_loop last_sep (c # s) =
     (if c = CHR ''_'' \<or> c = CHR ''-'' then CHR ''-'' # camelcase_loop True s
      else (if last_sep then toupper c else tolower c) # camelcase_loop False s)"

definition camelcase_dash_http_attr :: "string \<Rightarrow> string" where
  "camelcase_dash_http_attr orig = c_str (camelcase_loop True orig)"

definition RGW_ATTR_PREFIX :: string where
  "RGW_ATTR_PREFIX = ''user.rgw.''"

definition base_rgw_to_http_attrs :: "(string \<times> string) list" where
  "base_rgw_to_http_attrs =
     [(RGW_ATTR_PREFIX @ ''content_language'', ''Content-Language''), (RGW_ATTR_PREFIX @ ''expires'', ''Expires''),
      (RGW_ATTR_PREFIX @ ''cache_control'', ''Cache-Control''),
      (RGW_ATTR_PREFIX @ ''content_disposition'', ''Content-Disposition''),
      (RGW_ATTR_PREFIX @ ''content_encoding'', ''Content-Encoding''),
      (RGW_ATTR_PREFIX @ ''user_manifest'', ''X-Object-Manifest'')]"

definition generic_attrs :: "(string \<times> string) list" where
  "generic_attrs =
     [(''CONTENT_TYPE'', RGW_ATTR_PREFIX @ ''content_type''),
      (''HTTP_CONTENT_LANGUAGE'', RGW_ATTR_PREFIX @ ''content_language''),
      (''HTTP_EXPIRES'', RGW_ATTR_PREFIX @ ''expires''),
      (''HTTP_CACHE_CONTROL'', RGW_ATTR_PREFIX @ ''cache_control''),
      (''HTTP_CONTENT_DISPOSITION'', RGW_ATTR_PREFIX @ ''content_disposition''),
      (''HTTP_CONTENT_ENCODING'', RGW_ATTR_PREFIX @ ''content_encoding'')]"

definition http_codes :: "(int \<times> string) list" where
  "http_codes =
     [(100, ''Continue''), (200, ''OK''), (201, ''Created''), (202, ''Accepted''), (204, ''No Content''),
      (205, ''Reset Content''), (206, ''Partial Content''), (207, ''Multi Status''), (208, ''Already Reported''),
      (300, ''Multiple Choices''), (302, ''Found''), (303, ''See Other''), (304, ''Not Modified''),
      (305, ''User Proxy''), (306, ''Switch Proxy''), (307, ''Temporary Redirect''), (308, ''Permanent Redirect''),
      (400, ''Bad Request''), (401, ''Unauthorized''), (402, ''Payment Required''), (403, ''Forbidden''),
      (404, ''Not Found''), (405, ''Method Not Allowed''), (406, ''Not Acceptable''),
      (407, ''Proxy Authentication Required''), (408, ''Request Timeout''), (409, ''Conflict''), (410, ''Gone''),
      (411, ''Length Required''), (412, ''Precondition Failed''), (413, ''Request Entity Too Large''),
      (414, ''Request-URI Too Long''), (415, ''Unsupported Media Type''),
      (416, ''Requested Range Not Satisfiable''), (417, ''Expectation Failed''), (422, ''Unprocessable Entity''),
      (500, ''Internal Server Error''), (501, ''Not Implemented'')]"

text \<open>The static tables of \<^verbatim>\<open>porting_rest.cc\<close>; \<^verbatim>\<open>hostnames_set\<close> is an ordered list.\<close>

record rest_tables =
  rt_rgw_to_http_attrs :: "string string_map"
  rt_generic_attrs_map :: "string string_map"
  rt_http_status_names :: "(int \<times> string) list"
  rt_hostnames_set :: "string list"

definition extended_attr :: "string \<Rightarrow> rest_tables \<Rightarrow> rest_tables" where
  "extended_attr attr t =
     (let rgw_attr = RGW_ATTR_PREFIX @ lowercase_underscore_http_attr attr in
      t\<lparr>rt_rgw_to_http_attrs := smap_set rgw_attr (camelcase_dash_http_attr attr) (rt_rgw_to_http_attrs t),
        rt_generic_attrs_map := smap_set (''HTTP_'' @ uppercase_underscore_http_attr attr) rgw_attr (rt_generic_attrs_map t)\<rparr>)"

text \<open>\<^verbatim>\<open>rgw_rest_init\<close>: the list of extended attributes stays empty, since the call that fills it is commented
  out, and nothing is added to the host names.\<close>

definition rgw_rest_init :: rest_tables where
  "rgw_rest_init =
     (let t = \<lparr>rt_rgw_to_http_attrs = fold (\<lambda>(a, h). smap_set a h) base_rgw_to_http_attrs [],
               rt_generic_attrs_map = fold (\<lambda>(h, a). smap_set h a) generic_attrs [],
               rt_http_status_names = [], rt_hostnames_set = []\<rparr>;
          extended_http_attrs = [];
          t = fold extended_attr extended_http_attrs t
      in t\<lparr>rt_http_status_names := fold (\<lambda>(c, n). map_set plain c n) http_codes []\<rparr>)"

section \<open>Bucket and object names\<close>

definition validate_object_name :: "string \<Rightarrow> int" where
  "validate_object_name obj =
     (if length obj > 1024 then - ERR_INVALID_OBJECT_NAME
      else if check_utf8 obj \<noteq> 0 then - ERR_INVALID_OBJECT_NAME
      else 0)"

definition validate_bucket_name :: "string \<Rightarrow> int" where
  "validate_bucket_name bucket =
     (if length bucket < 3 then (if length bucket = 0 then 0 else - ERR_INVALID_BUCKET_NAME)
      else if length bucket > 255 then - ERR_INVALID_BUCKET_NAME
      else 0)"

fun ip_loop :: "nat \<Rightarrow> bool \<Rightarrow> string \<Rightarrow> bool" where
  "ip_loop num_periods expect_period [] = (num_periods = 3)"
| "ip_loop num_periods expect_period (c # s) =
     (if c = CHR ''.'' then
        if \<not> expect_period then False
        else if num_periods + 1 > 3 then False
        else ip_loop (num_periods + 1) False s
      else if isdigit c then ip_loop num_periods True s
      else False)"

definition looks_like_ip_address :: "string \<Rightarrow> bool" where
  "looks_like_ip_address bucket = ip_loop 0 False (c_str bucket)"

definition bucket_char :: "char \<Rightarrow> bool" where
  "bucket_char c \<longleftrightarrow> isdigit c \<or> c = CHR ''.'' \<or> isalpha c \<or> c = CHR ''-'' \<or> c = CHR ''_''"

definition s3_validate_bucket_name :: "string \<Rightarrow> bool \<Rightarrow> int" where
  "s3_validate_bucket_name bucket relaxed_names =
     (let ret = validate_bucket_name bucket; c = char_at bucket 0 in
      if ret < 0 then ret
      else if length bucket = 0 then 0
      else if \<not> (isalpha c \<or> isdigit c) \<and>
              (\<not> relaxed_names \<or> \<not> (c = CHR ''_'' \<or> c = CHR ''.'' \<or> c = CHR ''-'')) then - ERR_INVALID_BUCKET_NAME
      else if \<not> list_all bucket_char (c_str bucket) then - ERR_INVALID_BUCKET_NAME
      else if looks_like_ip_address bucket then - ERR_INVALID_BUCKET_NAME
      else 0)"

section \<open>Output format\<close>

definition accept_type :: "string \<Rightarrow> string" where
  "accept_type accept = take 63 (takeWhile (\<lambda>c. c \<noteq> CHR '';'') (c_str accept))"

text \<open>Only the XML formatter is allocated; for the other formats the lines are commented out.\<close>

definition allocate_formatter :: "req_state \<Rightarrow> int \<Rightarrow> bool \<Rightarrow> int \<times> req_state" where
  "allocate_formatter s default_type configurable =
     (let format =
        (if configurable then
           let format_str = fst (args_get (args (rs_info s)) ''format'') in
           if format_str = ''xml'' then RGW_FORMAT_XML
           else if format_str = ''json'' then RGW_FORMAT_JSON
           else case env_get (rs_env s) ''HTTP_ACCEPT'' None of
             None \<Rightarrow> default_type
           | Some accept \<Rightarrow>
               let buf = accept_type accept in
               if buf = ''text/xml'' \<or> buf = ''application/xml'' then RGW_FORMAT_XML
               else if buf = ''application/json'' then RGW_FORMAT_JSON
               else default_type
         else default_type);
          s = s\<lparr>rs_format := format\<rparr>
      in if format = RGW_FORMAT_PLAIN then (0, s)
         else if format = RGW_FORMAT_XML then (0, s\<lparr>rs_formatter := Some (FXml (new_xml_formatter False))\<rparr>)
         else if format = RGW_FORMAT_JSON then (0, s)
         else (- EINVAL, s))"

section \<open>Resource managers\<close>

text \<open>A manager is an object of one of four classes, with the managers below it, the registered entry points by
  length, and a default manager.\<close>

datatype mgr_class = MBase | MS3 | MAdmin | MBucket

datatype rest_mgr = Mgr (mgr_class: mgr_class) (should_log: bool) (resource_mgrs: "(string \<times> rest_mgr) list")
  (resources_by_size: "(nat \<times> string) list") (default_mgr: "rest_mgr option")

definition new_mgr :: "mgr_class \<Rightarrow> rest_mgr" where
  "new_mgr c = Mgr c False [] [] None"

definition set_logging :: "rest_mgr \<Rightarrow> rest_mgr" where
  "set_logging m = Mgr (mgr_class m) True (resource_mgrs m) (resources_by_size m) (default_mgr m)"

definition register_default_mgr :: "rest_mgr \<Rightarrow> rest_mgr \<Rightarrow> rest_mgr" where
  "register_default_mgr d m = Mgr (mgr_class m) (should_log m) (resource_mgrs m) (resources_by_size m) (Some d)"

definition put_resource :: "string \<Rightarrow> rest_mgr \<Rightarrow> rest_mgr \<Rightarrow> rest_mgr" where
  "put_resource r sub m =
     Mgr (mgr_class m) (should_log m) (smap_set r sub (resource_mgrs m))
       (multimap_insert plain (length r) r (resources_by_size m)) (default_mgr m)"

text \<open>The loop that registers default managers for the paths above an entry point.\<close>

function register_paths :: "string \<Rightarrow> nat \<Rightarrow> rest_mgr \<Rightarrow> rest_mgr" where
  "register_paths r pos m =
     (case find_from (\<lambda>c. c = CHR ''/'') r pos of
        None \<Rightarrow> m
      | Some p \<Rightarrow>
          if p = length r - 1 then m
          else
            let s = take p r in
            register_paths r (p + 1) (if smap_get (resource_mgrs m) s = None then put_resource s (new_mgr MBase) m else m))"
  by pat_completeness auto

termination register_paths
proof (relation "measure (\<lambda>(r, pos, m). length r - pos)")
  fix r m p s and pos :: nat
  assume "find_from (\<lambda>c. c = CHR ''/'') r pos = Some p"
  from find_from_Some(1,2) [OF this]
  show "((r, p + 1, if smap_get (resource_mgrs m) s = None then put_resource s (new_mgr MBase) m else m), r, pos, m)
    \<in> measure (\<lambda>(r, pos, m). length r - pos)" by auto
qed simp

declare register_paths.simps [simp del]

definition mgr_register_resource :: "string \<Rightarrow> rest_mgr \<Rightarrow> rest_mgr \<Rightarrow> rest_mgr" where
  "mgr_register_resource resource sub m =
     (let r = CHR ''/'' # resource in register_paths r 1 (put_resource r sub m))"

definition rest_register_resource :: "string \<Rightarrow> rest_mgr \<Rightarrow> bool \<Rightarrow> rest_mgr \<Rightarrow> rest_mgr" where
  "rest_register_resource resource sub register_empty m =
     (if \<not> register_empty \<and> resource = [] then m else mgr_register_resource resource sub m)"

text \<open>The reverse iteration over the entry points; an entry point without a manager would be a null pointer.\<close>

fun match_resource :: "string \<Rightarrow> (nat \<times> string) list \<Rightarrow> string option" where
  "match_resource uri [] = None"
| "match_resource uri ((n, resource) # rs) =
     (if take n uri = resource \<and> (length uri = n \<or> char_at uri n = CHR ''/'') then Some resource
      else match_resource uri rs)"

lemma map_get_size:
  assumes "map_get f m k = Some v"
  shows "size v < Suc (size_list (size_prod (\<lambda>_. 0) size) m)"
proof -
  obtain j where "(j, v) \<in> set m"
    using assms unfolding map_get_def by (auto simp: find_Some_iff) (metis nth_mem)
  then have "size_prod (\<lambda>_. 0) size (j, v) \<le> size_list (size_prod (\<lambda>_. 0) size) m"
    by (rule size_list_estimation') simp
  then show ?thesis by simp
qed

function get_resource_mgr :: "rest_mgr \<Rightarrow> string \<Rightarrow> (rest_mgr \<times> string) option" where
  "get_resource_mgr m uri =
     (if resources_by_size m = [] then Some (m, uri)
      else case match_resource uri (rev (resources_by_size m)) of
        Some resource \<Rightarrow>
          (case smap_get (resource_mgrs m) resource of
             None \<Rightarrow> None
           | Some sub \<Rightarrow> get_resource_mgr sub (drop (length resource) uri))
      | None \<Rightarrow> (case default_mgr m of Some d \<Rightarrow> Some (d, uri) | None \<Rightarrow> Some (m, uri)))"
  by pat_completeness auto

termination get_resource_mgr
proof (relation "measure (\<lambda>(m, uri). size m)")
  fix m uri resource sub
  assume "smap_get (resource_mgrs m) resource = Some sub"
  then show "((sub, drop (length resource) uri), (m, uri)) \<in> measure (\<lambda>(m, uri). size m)"
    by (cases m) (auto dest: map_get_size)
qed simp

declare get_resource_mgr.simps [simp del]

text \<open>The tree that \<^verbatim>\<open>main\<close> registers.\<close>

definition gateway_mgr :: rest_mgr where
  "gateway_mgr =
     (let m = register_default_mgr (set_logging (new_mgr MS3)) (new_mgr MBase);
          admin_resource = mgr_register_resource ''bucket'' (new_mgr MBucket) (new_mgr MAdmin)
      in rest_register_resource ''admin'' admin_resource False m)"

section \<open>Host names and preprocessing\<close>

text \<open>The position is set also when the end does not match.\<close>

definition str_ends_with :: "string \<Rightarrow> string \<Rightarrow> bool \<times> nat option" where
  "str_ends_with s suffix =
     (if length suffix > length s then (False, None)
      else let p = length s - length suffix in (drop p s = suffix, Some p))"

fun rgw_find_host_in_domains :: "string list \<Rightarrow> string \<Rightarrow> (string \<times> string) option" where
  "rgw_find_host_in_domains [] h = None"
| "rgw_find_host_in_domains (d # ds) h =
     (case str_ends_with h d of
        (True, Some pos) \<Rightarrow>
          if pos = 0 then Some (h, [])
          else if h ! (pos - 1) \<noteq> CHR ''.'' then rgw_find_host_in_domains ds h
          else Some (drop pos h, take (pos - 1) h)
      | _ \<Rightarrow> rgw_find_host_in_domains ds h)"

definition parse_content_length :: "string \<Rightarrow> int" where
  "parse_content_length content_length =
     (if content_length = [] then 0
      else let (len, err) = strict_strtoll content_length in if err \<noteq> [] then - 1 else len)"

definition op_from_method :: "string \<Rightarrow> http_op" where
  "op_from_method m =
     (if m = ''GET'' then OP_GET
      else if m = ''PUT'' then OP_PUT
      else if m = ''DELETE'' then OP_DELETE
      else if m = ''HEAD'' then OP_HEAD
      else if m = ''POST'' then OP_POST
      else if m = ''COPY'' then OP_COPY
      else if m = ''OPTIONS'' then OP_OPTIONS
      else OP_UNKNOWN)"

text \<open>The bucket in the host name.  The variable \<^verbatim>\<open>found\<close> is not initialised and the resolver call is commented
  out, so that its value is a parameter and the canonical name is empty.\<close>

definition hosted_bucket :: "bool \<Rightarrow> rest_tables \<Rightarrow> req_info \<Rightarrow> req_info" where
  "hosted_bucket found t i =
     (if host i = [] then i
      else
        let res = (case rgw_find_host_in_domains (rt_hostnames_set t) (host i) of
                     Some r \<Rightarrow> Some r
                   | None \<Rightarrow> if found then rgw_find_host_in_domains (rt_hostnames_set t) [] else None)
        in case res of
          None \<Rightarrow> i
        | Some (dmn, subdomain) \<Rightarrow>
            let i = (if subdomain \<noteq> [] then
                       i\<lparr>request_uri := ''/'' @ subdomain @
                          (if \<not> head_is (CHR ''/'') (request_uri i) then ''/'' @ [CHR 0x27] else []) @ request_uri i\<rparr>
                     else i)
            in if dmn \<noteq> [] then i\<lparr>domain := dmn\<rparr> else i)"

definition choose_length :: "string option \<Rightarrow> string option \<Rightarrow> string option" where
  "choose_length content_length http_content_length =
     (case (content_length, http_content_length) of
        (Some c, Some h) \<Rightarrow>
          let ci = parse_content_length c; hi = parse_content_length h in
          Some (if hi < 0 then c else if ci < 0 then h else if ci < hi then h else c)
      | (Some c, None) \<Rightarrow> Some c
      | (None, Some h) \<Rightarrow> Some h
      | (None, None) \<Rightarrow> None)"

definition collect_generic_attrs :: "rgw_env \<Rightarrow> string string_map \<Rightarrow> string string_map \<Rightarrow> string string_map" where
  "collect_generic_attrs env gmap attrs =
     fold (\<lambda>(h, a) m. case env_get env h None of None \<Rightarrow> m | Some v \<Rightarrow> smap_set a v m) gmap attrs"

definition preprocess :: "(char \<Rightarrow> int) \<Rightarrow> bool \<Rightarrow> rest_tables \<Rightarrow> req_state \<Rightarrow> int \<times> req_state" where
  "preprocess oob found t s =
     (let env = rs_env s;
          i = hosted_bucket found t (rs_info s);
          i = (if domain i = [] then i\<lparr>domain := ''bwcpn''\<rparr> else i);
          s = s\<lparr>rs_info := i, rs_decoded_uri := snd (url_decode oob (request_uri i) (rs_decoded_uri s) False),
                rs_length := choose_length (env_get env ''CONTENT_LENGTH'' None) (env_get env ''HTTP_CONTENT_LENGTH'' None)\<rparr>;
          (bad, cl) = (case rs_length s of
                         None \<Rightarrow> (False, rs_content_length s)
                       | Some l \<Rightarrow> if l = [] then (False, 0) else (let (v, err) = strict_strtoll l in (err \<noteq> [], v)));
          s = s\<lparr>rs_content_length := cl\<rparr>
      in if bad then (- EINVAL, s)
         else if cl < 0 then (- EINVAL, s)
         else
           let (bad_meta, i) = init_meta_info env (rs_has_bad_meta s) i in
           (0, s\<lparr>rs_generic_attrs := collect_generic_attrs env (rt_generic_attrs_map t) (rs_generic_attrs s),
                 rs_http_auth := env_get env ''HTTP_AUTHORIZATION'' None,
                 rs_op := op_from_method (req_method i), rs_has_bad_meta := bad_meta, rs_info := i\<rparr>))"

section \<open>Bucket and object of a request\<close>

definition init_from_header :: "(char \<Rightarrow> int) \<Rightarrow> req_state \<Rightarrow> int \<Rightarrow> bool \<Rightarrow> int \<times> req_state" where
  "init_from_header oob s default_formatter configurable_format =
     (let req_name = c_str (rs_relative_uri s);
          p = (if head_is (CHR ''?'') req_name then req_name else c_str (request_params (rs_info s)));
          s = s\<lparr>rs_info := (rs_info s)\<lparr>args := args_parse oob (args_set p (args (rs_info s)))\<rparr>\<rparr>;
          (ret, s) = allocate_formatter s default_formatter configurable_format
      in if ret < 0 then (ret, s)
         else if \<not> head_is (CHR ''/'') req_name then (0, s)
         else
           let req = tl req_name; version = fst (args_get (args (rs_info s)) ''versionId'') in
           if req = [] then (0, s)
           else
             let pos = find_from (\<lambda>c. c = CHR ''/'') req 0;
                 first = (case pos of Some p \<Rightarrow> take p req | None \<Rightarrow> req)
             in if rs_bucket_name_str s = [] then
                  let s = s\<lparr>rs_bucket_name_str := first\<rparr> in
                  (0, case pos of
                        Some p \<Rightarrow> s\<lparr>rs_object := \<lparr>okey_name = drop (p + 1) req, okey_instance = version\<rparr>\<rparr>
                      | None \<Rightarrow> s)
                else (0, s\<lparr>rs_object := \<lparr>okey_name = req, okey_instance = version\<rparr>\<rparr>))"

text \<open>\<^verbatim>\<open>RGWCopyObj::parse_copy_location\<close>: bucket, object and version, where only what was assigned changes.\<close>

definition parse_copy_location :: "(char \<Rightarrow> int) \<Rightarrow> string \<Rightarrow> string \<times> rgw_obj_key \<Rightarrow> bool \<times> string \<times> rgw_obj_key" where
  "parse_copy_location oob url_src = (\<lambda>(bucket_name, key).
     let (name_str, params_str) =
           (case find_from (\<lambda>c. c = CHR ''?'') url_src 0 of
              None \<Rightarrow> (url_src, [])
            | Some pos \<Rightarrow> (take pos url_src, drop (pos + 1) url_src));
         dec_src = snd (url_decode oob name_str [] False);
         str = (if head_is (CHR ''/'') dec_src then tl dec_src else dec_src)
     in case find_from (\<lambda>c. c = CHR ''/'') str 0 of
          None \<Rightarrow> (False, bucket_name, key)
        | Some pos \<Rightarrow>
            if pos = 0 then (False, bucket_name, key)
            else
              let bucket_name = take pos str; key = key\<lparr>okey_name := drop (pos + 1) str\<rparr> in
              if okey_name key = [] then (False, bucket_name, key)
              else if params_str \<noteq> [] then
                (True, bucket_name, key\<lparr>okey_instance := fst (args_get (args_parse oob (args_set params_str new_args)) ''versionId'')\<rparr>)
              else (True, bucket_name, key))"

definition obj_key_empty :: "rgw_obj_key \<Rightarrow> bool" where
  "obj_key_empty k \<longleftrightarrow> okey_name k = []"

section \<open>Handlers and operations\<close>

datatype rest_handler = HService | HBucket | HObject | HAdminBucket

definition mgr_get_handler :: "(char \<Rightarrow> int) \<Rightarrow> rest_mgr \<Rightarrow> req_state \<Rightarrow> rest_handler option \<times> req_state" where
  "mgr_get_handler oob m s =
     (case mgr_class m of
        MBase \<Rightarrow> (None, s)
      | MAdmin \<Rightarrow> (None, s)
      | MBucket \<Rightarrow> (Some HAdminBucket, s)
      | MS3 \<Rightarrow>
          let (ret, s) = init_from_header oob s RGW_FORMAT_XML False in
          (if ret < 0 then None
           else if rs_bucket_name_str s = [] then Some HService
           else if obj_key_empty (rs_object s) then Some HBucket
           else Some HObject, s))"

definition s3_handler_init :: "(char \<Rightarrow> int) \<Rightarrow> globals \<Rightarrow> req_state \<Rightarrow> int \<times> req_state" where
  "s3_handler_init oob g s =
     (let ret = s3_validate_bucket_name (rs_bucket_name_str s) (g_rgw_relaxed_s3_bucket_names g) in
      if ret \<noteq> 0 then (ret, s)
      else
        let ret = validate_object_name (okey_name (rs_object s)) in
        if ret \<noteq> 0 then (ret, s)
        else
          let s = (case env_get (rs_env s) ''HTTP_X_AMZ_ACL'' None of None \<Rightarrow> s | Some cacl \<Rightarrow> s\<lparr>rs_canned_acl := cacl\<rparr>);
              s = s\<lparr>rs_has_acl_header := env_exists_prefix (rs_env s) ''HTTP_X_AMZ_GRANT'',
                    rs_copy_source := env_get (rs_env s) ''HTTP_X_AMZ_COPY_SOURCE'' None\<rparr>
          in case rs_copy_source s of
               None \<Rightarrow> (0, s\<lparr>rs_dialect := ''s3''\<rparr>)
             | Some src \<Rightarrow>
                 let (ok, b, k) = parse_copy_location oob src (rs_src_bucket_name s, rs_src_object s);
                     s = s\<lparr>rs_src_bucket_name := b, rs_src_object := k\<rparr>
                 in if \<not> ok then (- EINVAL, s) else (0, s\<lparr>rs_dialect := ''s3''\<rparr>))"

definition handler_init :: "(char \<Rightarrow> int) \<Rightarrow> globals \<Rightarrow> rest_handler \<Rightarrow> req_state \<Rightarrow> int \<times> req_state" where
  "handler_init oob g h s =
     (if h = HAdminBucket then
        let (ret, s) = init_from_header oob s RGW_FORMAT_JSON True in if ret < 0 then (ret, s) else (0, s)
      else s3_handler_init oob g s)"

text \<open>\<^verbatim>\<open>RGWREST::get_handler\<close>: the handler, its manager and the error code.\<close>

definition get_handler :: "(char \<Rightarrow> int) \<Rightarrow> bool \<Rightarrow> globals \<Rightarrow> rest_tables \<Rightarrow> rest_mgr \<Rightarrow> req_state \<Rightarrow>
    ((rest_handler \<times> rest_mgr) option \<times> int \<times> req_state) option" where
  "get_handler oob found g t root s =
     (let (init_error, s) = preprocess oob found t s in
      if init_error < 0 then Some (None, init_error, s)
      else case get_resource_mgr root (rs_decoded_uri s) of
        None \<Rightarrow> None
      | Some (m, relative_uri) \<Rightarrow>
          let s = s\<lparr>rs_relative_uri := relative_uri\<rparr> in
          (case mgr_get_handler oob m s of
             (None, s) \<Rightarrow> Some (None, - ERR_METHOD_NOT_ALLOWED, s)
           | (Some h, s) \<Rightarrow>
               let (init_error, s) = handler_init oob g h s in
               Some (if init_error < 0 then None else Some (h, m), init_error, s)))"

datatype rgw_op = ListBuckets | ListBucket | StatBucket | CreateBucket | GetBucketLocation | GetACLs
  | GetObj bool | PutObj | CopyObj | DeleteObj | InitMultipart | CompleteMultipart

definition is_acl_op :: "req_state \<Rightarrow> bool" where
  "is_acl_op s = args_exists (args (rs_info s)) ''acl''"

definition is_cors_op :: "req_state \<Rightarrow> bool" where
  "is_cors_op s = args_exists (args (rs_info s)) ''cors''"

definition is_request_payment_op :: "req_state \<Rightarrow> bool" where
  "is_request_payment_op s = args_exists (args (rs_info s)) ''requestPayment''"

definition is_obj_update_op :: "rest_handler \<Rightarrow> req_state \<Rightarrow> bool" where
  "is_obj_update_op h s =
     (case h of HObject \<Rightarrow> is_acl_op s | HBucket \<Rightarrow> is_acl_op s \<or> is_cors_op s | _ \<Rightarrow> False)"

definition service_op :: "http_op \<Rightarrow> rgw_op option" where
  "service_op m = (if m = OP_GET then Some ListBuckets else None)"

definition object_get_obj_op :: "req_state \<Rightarrow> bool \<Rightarrow> rgw_op" where
  "object_get_obj_op s get_data = (if is_acl_op s then GetACLs else GetObj get_data)"

definition object_op :: "http_op \<Rightarrow> req_state \<Rightarrow> rgw_op option" where
  "object_op m s =
     (let a = args (rs_info s) in
      case m of
        OP_GET \<Rightarrow> if is_acl_op s then Some GetACLs else if args_exists a ''uploadId'' then None else Some (object_get_obj_op s True)
      | OP_HEAD \<Rightarrow> if is_acl_op s then Some GetACLs else if args_exists a ''uploadId'' then None else Some (object_get_obj_op s False)
      | OP_PUT \<Rightarrow> if is_acl_op s then None else if rs_copy_source s = None then Some PutObj else Some CopyObj
      | OP_DELETE \<Rightarrow> if fst (args_get a ''uploadId'') = [] then Some DeleteObj else None
      | OP_POST \<Rightarrow> if args_exists a ''uploadId'' then Some CompleteMultipart
                   else if args_exists a ''uploads'' then Some InitMultipart else None
      | _ \<Rightarrow> None)"

definition bucket_get_obj_op :: "bool \<Rightarrow> rgw_op" where
  "bucket_get_obj_op get_data = (if get_data then ListBucket else StatBucket)"

definition bucket_op :: "http_op \<Rightarrow> req_state \<Rightarrow> rgw_op option" where
  "bucket_op m s =
     (let a = args (rs_info s) in
      case m of
        OP_GET \<Rightarrow>
          if sub_resource_exists a ''logging'' then None
          else if sub_resource_exists a ''location'' then Some GetBucketLocation
          else if sub_resource_exists a ''versioning'' then None
          else if is_acl_op s then Some GetACLs
          else if is_cors_op s then None
          else if is_request_payment_op s then None
          else if args_exists a ''uploads'' then None
          else Some (bucket_get_obj_op True)
      | OP_HEAD \<Rightarrow> if is_acl_op s then Some GetACLs else if args_exists a ''uploads'' then None else Some (bucket_get_obj_op False)
      | OP_PUT \<Rightarrow>
          if sub_resource_exists a ''logging'' then None
          else if sub_resource_exists a ''versioning'' then None
          else if is_acl_op s then None
          else if is_cors_op s then None
          else if is_request_payment_op s then None
          else Some CreateBucket
      | _ \<Rightarrow> None)"

definition get_op :: "rest_handler \<Rightarrow> req_state \<Rightarrow> rgw_op option" where
  "get_op h s =
     (case h of
        HService \<Rightarrow> service_op (rs_op s)
      | HBucket \<Rightarrow> bucket_op (rs_op s) s
      | HObject \<Rightarrow> object_op (rs_op s) s
      | HAdminBucket \<Rightarrow> None)"

section \<open>Which bucket names are accepted\<close>

abbreviation is_dot :: "char \<Rightarrow> bool" where "is_dot c \<equiv> c = CHR ''.''"

lemma split_dots_Cons:
  "split_by P (c # s) = (if P c then [] # split_by P s else (c # hd (split_by P s)) # tl (split_by P s))"
  by simp

lemma ip_loop_split:
  "ip_loop n e s \<longleftrightarrow>
     (let ps = split_by is_dot s in n + length ps = 4 \<and> (\<forall>p \<in> set ps. list_all isdigit p) \<and>
        (\<forall>p \<in> set (butlast (tl ps)). p \<noteq> []) \<and> (length ps = 1 \<or> e \<or> hd ps \<noteq> []))"
proof (induction s arbitrary: n e)
  case (Cons c s)
  obtain p ps where ps: "split_by is_dot s = p # ps" by (cases "split_by is_dot s") simp_all
  have dot: "\<not> isdigit (CHR ''.'')" by (simp add: isdigit_def)
  show ?case
  proof (cases "is_dot c")
    case True
    show ?thesis
    proof (cases ps)
      case Nil
      then show ?thesis using True Cons.IH ps by (auto simp: Let_def)
    next
      case (Cons q qs)
      then show ?thesis using True Cons.IH ps by (auto simp: Let_def)
    qed
  next
    case False
    then show ?thesis using Cons.IH ps dot by (auto simp: Let_def)
  qed
qed (simp add: Let_def)

lemma looks_like_ip_address_iff:
  "looks_like_ip_address b \<longleftrightarrow>
     (\<exists>p1 p2 p3 p4. split_by is_dot (c_str b) = [p1, p2, p3, p4] \<and> p1 \<noteq> [] \<and> p2 \<noteq> [] \<and> p3 \<noteq> [] \<and>
        list_all isdigit (p1 @ p2 @ p3 @ p4))"
proof -
  have four: "length ps = 4 \<longleftrightarrow> (\<exists>p1 p2 p3 p4. ps = [p1, p2, p3, p4])" for ps :: "string list"
    by (auto simp: numeral_eq_Suc length_Suc_conv)
  show ?thesis
    unfolding looks_like_ip_address_def ip_loop_split Let_def by (auto simp: four)
qed

text \<open>C39: A bucket name is accepted exactly when it is empty or has 3 to 255 characters, of which those up to the
  first NUL are letters, digits, dots, dashes and underscores, begins with a letter or digit (or, with relaxed
  names, with one of the three other characters), and is not made of four fields of digits between dots, of
  which only the last one may be empty.  The comment in the code allows a leading underscore in every case
  and a leading dot or dash in none; the code refuses the underscore unless names are relaxed, and accepts
  all three when they are.\<close>

theorem s3_validate_bucket_name_iff:
  "s3_validate_bucket_name b relaxed = 0 \<longleftrightarrow>
     b = [] \<or>
     3 \<le> length b \<and> length b \<le> 255 \<and> list_all (\<lambda>c. isalpha c \<or> isdigit c \<or> c \<in> set ''._-'') (c_str b) \<and>
     (isalpha (hd b) \<or> isdigit (hd b) \<or> relaxed \<and> hd b \<in> set ''._-'') \<and>
     \<not> (\<exists>p1 p2 p3 p4. split_by is_dot (c_str b) = [p1, p2, p3, p4] \<and> p1 \<noteq> [] \<and> p2 \<noteq> [] \<and> p3 \<noteq> [] \<and>
          list_all isdigit (p1 @ p2 @ p3 @ p4))"
proof (cases b)
  case (Cons c t)
  have ok: "list_all bucket_char (c_str b) \<longleftrightarrow> list_all (\<lambda>c. isalpha c \<or> isdigit c \<or> c \<in> set ''._-'') (c_str b)"
    by (auto simp: list_all_iff bucket_char_def)
  have first: "char_at b 0 = hd b" using Cons by (simp add: char_at_def)
  show ?thesis
    unfolding looks_like_ip_address_iff [symmetric] ok [symmetric]
    using Cons first by (auto simp: s3_validate_bucket_name_def validate_bucket_name_def Let_def)
qed (simp add: s3_validate_bucket_name_def validate_bucket_name_def Let_def)

section \<open>Routing picks the longest registered entry point\<close>

definition path_prefix :: "string \<Rightarrow> string \<Rightarrow> bool" where
  "path_prefix r uri \<longleftrightarrow> (\<exists>t. uri = r @ t \<and> (t = [] \<or> hd t = CHR ''/''))"

definition entry_points :: "rest_mgr \<Rightarrow> string set" where
  "entry_points m = snd ` set (resources_by_size m)"

definition longest_entry :: "rest_mgr \<Rightarrow> string \<Rightarrow> string \<Rightarrow> bool" where
  "longest_entry m uri r \<longleftrightarrow>
     r \<in> entry_points m \<and> path_prefix r uri \<and> (\<forall>r' \<in> entry_points m. path_prefix r' uri \<longrightarrow> length r' \<le> length r)"

text \<open>The specification of routing: go down along the longest entry point that is a path prefix; where none is,
  stay with the default manager, or with the manager itself if it has none or has no entry points.\<close>

inductive route :: "rest_mgr \<Rightarrow> string \<Rightarrow> rest_mgr \<Rightarrow> string \<Rightarrow> bool" where
  route_leaf: "entry_points m = {} \<Longrightarrow> route m uri m uri"
| route_down: "longest_entry m uri r \<Longrightarrow> smap_get (resource_mgrs m) r = Some sub \<Longrightarrow>
     route sub (drop (length r) uri) m' uri' \<Longrightarrow> route m uri m' uri'"
| route_default: "entry_points m \<noteq> {} \<Longrightarrow> \<not> (\<exists>r. longest_entry m uri r) \<Longrightarrow> default_mgr m = Some d \<Longrightarrow> route m uri d uri"
| route_self: "entry_points m \<noteq> {} \<Longrightarrow> \<not> (\<exists>r. longest_entry m uri r) \<Longrightarrow> default_mgr m = None \<Longrightarrow> route m uri m uri"

inductive mgr_ok :: "rest_mgr \<Rightarrow> bool" where
  "ordered_map plain (resource_mgrs m) \<Longrightarrow> ordered_multimap plain (resources_by_size m) \<Longrightarrow>
   \<forall>(n, r) \<in> set (resources_by_size m). n = length r \<and> smap_get (resource_mgrs m) r \<noteq> None \<Longrightarrow>
   \<forall>p \<in> set (resource_mgrs m). mgr_ok (snd p) \<Longrightarrow> mgr_ok m"

lemma path_prefix_iff:
  "path_prefix r uri \<longleftrightarrow> take (length r) uri = r \<and> (length uri = length r \<or> char_at uri (length r) = CHR ''/'')"
proof
  assume "path_prefix r uri"
  then obtain t where "uri = r @ t" "t = [] \<or> hd t = CHR ''/''" by (auto simp: path_prefix_def)
  then show "take (length r) uri = r \<and> (length uri = length r \<or> char_at uri (length r) = CHR ''/'')"
    by (cases t) (auto simp: char_at_def nth_append)
next
  assume *: "take (length r) uri = r \<and> (length uri = length r \<or> char_at uri (length r) = CHR ''/'')"
  then obtain t where t: "uri = r @ t" by (metis append_take_drop_id)
  with * show "path_prefix r uri"
    by (cases t) (auto simp: path_prefix_def char_at_def nth_append)
qed

lemma match_resource_iff:
  assumes "\<forall>(n, r) \<in> set rs. n = length r" and "sorted (map fst (rev rs))"
  shows "match_resource uri rs = Some r \<longleftrightarrow>
    r \<in> snd ` set rs \<and> path_prefix r uri \<and> (\<forall>r' \<in> snd ` set rs. path_prefix r' uri \<longrightarrow> length r' \<le> length r)"
  using assms
proof (induction rs)
  case (Cons p rs)
  obtain n q where p: "p = (n, q)" by force
  have n: "n = length q" using Cons.prems(1) p by simp
  have below: "\<forall>r' \<in> snd ` set rs. length r' \<le> length q"
    using Cons.prems p by (force simp: sorted_append)
  have uniq: "path_prefix q uri \<Longrightarrow> path_prefix r uri \<Longrightarrow> length q = length r \<Longrightarrow> r = q"
    by (auto simp: path_prefix_def)
  show ?case
  proof (cases "path_prefix q uri")
    case True
    then have "match_resource uri (p # rs) = Some q" using p n by (simp add: path_prefix_iff)
    then show ?thesis using True uniq below p by fastforce
  next
    case False
    then have "match_resource uri (p # rs) = match_resource uri rs" using p n by (auto simp: path_prefix_iff)
    then show ?thesis using False Cons p by (auto simp: sorted_append)
  qed
qed simp

lemma mgr_match:
  assumes "mgr_ok m"
  shows "match_resource uri (rev (resources_by_size m)) = Some r \<longleftrightarrow> longest_entry m uri r"
  using assms
proof (cases rule: mgr_ok.cases)
  case 1
  then have "sorted (map fst (resources_by_size m))" by (simp add: ordered_multimap_def plain_def comp_def)
  with 1 show ?thesis
    by (subst match_resource_iff) (auto simp: longest_entry_def entry_points_def)
qed

lemma mgr_ok_sub: "mgr_ok m \<Longrightarrow> smap_get (resource_mgrs m) r = Some sub \<Longrightarrow> mgr_ok sub"
  by (erule mgr_ok.cases) (auto simp: map_get_def find_Some_iff, metis nth_mem snd_conv)

lemma mgr_ok_entry: "mgr_ok m \<Longrightarrow> longest_entry m uri r \<Longrightarrow> smap_get (resource_mgrs m) r \<noteq> None"
  by (erule mgr_ok.cases) (auto simp: longest_entry_def entry_points_def)

lemma route_iff:
  assumes "mgr_ok m"
  shows "get_resource_mgr m uri = Some (m', uri') \<longleftrightarrow> route m uri m' uri'"
  using assms
proof (induction m uri rule: get_resource_mgr.induct)
  case (1 m uri)
  note match = mgr_match [OF 1(2)]
  have empty: "resources_by_size m = [] \<longleftrightarrow> entry_points m = {}" by (simp add: entry_points_def)
  show ?case
  proof (cases "\<exists>r. longest_entry m uri r")
    case True
    then obtain r where r: "longest_entry m uri r" by blast
    then obtain sub where sub: "smap_get (resource_mgrs m) r = Some sub" using mgr_ok_entry [OF 1(2)] by blast
    have ne: "entry_points m \<noteq> {}" using r by (auto simp: longest_entry_def)
    have unique: "longest_entry m uri r' \<Longrightarrow> r' = r" for r' using r match by (metis option.inject)
    have "get_resource_mgr m uri = get_resource_mgr sub (drop (length r) uri)"
      by (subst get_resource_mgr.simps) (simp add: ne empty match r sub iffD2 [OF match r])
    also have "\<dots> = Some (m', uri') \<longleftrightarrow> route sub (drop (length r) uri) m' uri'"
      using 1(1) [OF _ iffD2 [OF match r] sub] ne empty mgr_ok_sub [OF 1(2) sub] by simp
    also have "\<dots> \<longleftrightarrow> route m uri m' uri'"
    proof
      assume "route sub (drop (length r) uri) m' uri'"
      with r sub show "route m uri m' uri'" by (rule route_down)
    next
      assume "route m uri m' uri'"
      then show "route sub (drop (length r) uri) m' uri'"
        by cases (use ne True unique sub in auto)
    qed
    finally show ?thesis .
  next
    case False
    then have none: "match_resource uri (rev (resources_by_size m)) = None" using match by (metis not_None_eq)
    show ?thesis
    proof
      assume "get_resource_mgr m uri = Some (m', uri')"
      then show "route m uri m' uri'"
        by (subst (asm) get_resource_mgr.simps)
          (use False in \<open>auto simp: none empty split: if_splits option.splits intro: route.intros(1,3,4)\<close>)
    next
      assume "route m uri m' uri'"
      then show "get_resource_mgr m uri = Some (m', uri')"
        by cases (use False in \<open>auto simp: get_resource_mgr.simps none empty\<close>)
    qed
  qed
qed

lemma get_resource_mgr_total:
  assumes "mgr_ok m"
  shows "\<exists>m' uri'. get_resource_mgr m uri = Some (m', uri')"
  using assms
proof (induction m uri rule: get_resource_mgr.induct)
  case (1 m uri)
  show ?case
  proof (cases "match_resource uri (rev (resources_by_size m))")
    case None
    then show ?thesis by (subst get_resource_mgr.simps) (simp split: option.splits)
  next
    case (Some r)
    then have r: "longest_entry m uri r" using mgr_match [OF 1(2)] by simp
    then have "resources_by_size m \<noteq> []" by (auto simp: longest_entry_def entry_points_def)
    moreover obtain sub where "smap_get (resource_mgrs m) r = Some sub" using mgr_ok_entry [OF 1(2) r] by blast
    ultimately show ?thesis
      using 1(1) [OF _ Some] mgr_ok_sub [OF 1(2)] Some by (subst get_resource_mgr.simps) simp
  qed
qed

lemma mgr_ok_new [simp]: "mgr_ok (new_mgr c)"
  by (rule mgr_ok.intros) (simp_all add: new_mgr_def ordered_multimap_def ordered_map_def)

lemma mgr_ok_set_logging: "mgr_ok m \<Longrightarrow> mgr_ok (set_logging m)"
  by (erule mgr_ok.cases, rule mgr_ok.intros) (simp_all add: set_logging_def)

lemma mgr_ok_register_default: "mgr_ok m \<Longrightarrow> mgr_ok (register_default_mgr d m)"
  by (erule mgr_ok.cases, rule mgr_ok.intros) (simp_all add: register_default_mgr_def)

lemma map_set_values: "p \<in> set (map_set f k v m) \<Longrightarrow> snd p = v \<or> p \<in> set m"
  by (induction m) (auto split: if_splits)

lemma mgr_ok_put_resource: "mgr_ok m \<Longrightarrow> mgr_ok sub \<Longrightarrow> mgr_ok (put_resource r sub m)"
proof (erule mgr_ok.cases, rule mgr_ok.intros)
  fix ma
  assume *: "m = ma" "ordered_multimap plain (resources_by_size ma)" "mgr_ok sub"
    "\<forall>(n, r) \<in> set (resources_by_size ma). n = length r \<and> smap_get (resource_mgrs ma) r \<noteq> None"
    "\<forall>p \<in> set (resource_mgrs ma). mgr_ok (snd p)" "ordered_map plain (resource_mgrs ma)"
  show "ordered_map plain (resource_mgrs (put_resource r sub m))"
    using *(1,6) by (simp add: put_resource_def ordered_map_set)
  show "ordered_multimap plain (resources_by_size (put_resource r sub m))"
    using *(1,2) by (simp add: put_resource_def ordered_multimap_insert)
  show "\<forall>(n, q) \<in> set (resources_by_size (put_resource r sub m)).
      n = length q \<and> smap_get (resource_mgrs (put_resource r sub m)) q \<noteq> None"
    using *(1,4,6) by (auto simp: put_resource_def map_get_map_set)
  show "\<forall>p \<in> set (resource_mgrs (put_resource r sub m)). mgr_ok (snd p)"
    using *(1,3,5) by (auto simp: put_resource_def dest: map_set_values)
qed

lemma mgr_ok_register_paths: "mgr_ok m \<Longrightarrow> mgr_ok (register_paths r pos m)"
proof (induction r pos m rule: register_paths.induct)
  case (1 r pos m)
  then show ?case
    by (subst register_paths.simps) (auto split: option.splits simp: Let_def mgr_ok_put_resource)
qed

lemma mgr_ok_register: "mgr_ok m \<Longrightarrow> mgr_ok sub \<Longrightarrow> mgr_ok (mgr_register_resource r sub m)"
  by (simp add: mgr_register_resource_def mgr_ok_register_paths mgr_ok_put_resource Let_def)

lemma mgr_ok_gateway: "mgr_ok gateway_mgr"
  by (simp add: gateway_mgr_def rest_register_resource_def mgr_ok_register mgr_ok_register_default Let_def)

text \<open>C13: In a tree of managers that was built by registering entry points, routing finds a manager for every
  address without following a null pointer, and it is the one of the specification: at each manager the
  longest entry point that is a path prefix of the address, and otherwise its default manager.\<close>

theorem get_resource_mgr_routes:
  assumes "mgr_ok m"
  shows "(\<exists>m' uri'. get_resource_mgr m uri = Some (m', uri')) \<and>
    (get_resource_mgr m uri = Some (m', uri') \<longleftrightarrow> route m uri m' uri')"
  using get_resource_mgr_total [OF assms] route_iff [OF assms] by blast

theorem get_resource_mgr_routes_witness:
  "route gateway_mgr ''/admin/bucket/x'' (new_mgr MBucket) ''/x'' \<and>
   route gateway_mgr ''/administrator/x'' (set_logging (new_mgr MS3)) ''/administrator/x''"
proof
  have "get_resource_mgr gateway_mgr ''/admin/bucket/x'' = Some (new_mgr MBucket, ''/x'')" by code_simp
  then show "route gateway_mgr ''/admin/bucket/x'' (new_mgr MBucket) ''/x''"
    using get_resource_mgr_routes [OF mgr_ok_gateway] by blast
  have "get_resource_mgr gateway_mgr ''/administrator/x'' = Some (set_logging (new_mgr MS3), ''/administrator/x'')" by code_simp
  then show "route gateway_mgr ''/administrator/x'' (set_logging (new_mgr MS3)) ''/administrator/x''"
    using get_resource_mgr_routes [OF mgr_ok_gateway] by blast
qed

section \<open>The address of a request\<close>

lemma gateway_mgr_eq:
  "gateway_mgr = Mgr MBase False [(''/admin'', Mgr MAdmin False [(''/bucket'', new_mgr MBucket)] [(7, ''/bucket'')] None)]
     [(6, ''/admin'')] (Some (set_logging (new_mgr MS3)))"
  by code_simp

lemma route_to_s3:
  assumes "CHR ''/'' \<notin> set b" and "b \<noteq> ''admin''"
  shows "get_resource_mgr gateway_mgr (CHR ''/'' # b @ CHR ''/'' # k) = Some (set_logging (new_mgr MS3), CHR ''/'' # b @ CHR ''/'' # k)"
proof -
  let ?uri = "CHR ''/'' # b @ CHR ''/'' # k"
  have "\<not> path_prefix ''/admin'' ?uri"
  proof
    assume "path_prefix ''/admin'' ?uri"
    then obtain t where t: "b @ CHR ''/'' # k = ''admin'' @ t" "t = [] \<or> hd t = CHR ''/''" by (auto simp: path_prefix_def)
    have "takeWhile (\<lambda>c. c \<noteq> CHR ''/'') (b @ CHR ''/'' # k) = b" using assms(1) by (induction b) auto
    moreover have "takeWhile (\<lambda>c. c \<noteq> CHR ''/'') (''admin'' @ t) = ''admin''" using t(2) by (cases t) auto
    ultimately show False using t(1) assms(2) by simp
  qed
  then have "match_resource ?uri [(length ''/admin'', ''/admin'')] = None"
    by (simp only: match_resource.simps path_prefix_iff if_False not_False_eq_True)
  moreover have "length ''/admin'' = 6" by simp
  ultimately have no_admin: "match_resource ?uri [(6, ''/admin'')] = None" by (simp only:)
  show ?thesis unfolding gateway_mgr_eq
    by (subst get_resource_mgr.simps) (simp only: rest_mgr.sel rev.simps append.simps no_admin option.case list.distinct if_False)
qed

lemma decoded_address:
  assumes "no_nul b" and "no_nul k"
  shows "url_decode oob (''/'' @ url_encode b [] @ ''/'' @ url_encode k []) dst False = (True, CHR ''/'' # b @ CHR ''/'' # k)"
proof -
  have "no_nul (''/'' @ url_encode b [] @ ''/'' @ url_encode k [])"
    using no_nul_url_encode [OF assms(1)] no_nul_url_encode [OF assms(2)] by (simp add: no_nul_def)
  moreover have "no_nul (CHR ''/'' # b @ CHR ''/'' # k)" using assms by (simp add: no_nul_def)
  moreover have "url_decode_loop oob False (''/'' @ url_encode b [] @ ''/'' @ url_encode k []) = Some (CHR ''/'' # b @ CHR ''/'' # k)"
    using url_decode_loop_encode [of oob False k "[]"] by (simp add: url_decode_loop_encode)
  ultimately show ?thesis by (simp only: url_decode_def c_str_id option.case)
qed

lemma hosted_bucket_init: "hosted_bucket found rgw_rest_init i = i"
  by (simp add: hosted_bucket_def rgw_rest_init_def Let_def)

lemma preprocess_address:
  assumes "preprocess oob found rgw_rest_init s = (0, s')"
  shows "rs_decoded_uri s' = snd (url_decode oob (request_uri (rs_info s)) (rs_decoded_uri s) False)"
    and "rs_bucket_name_str s' = rs_bucket_name_str s" and "rs_env s' = rs_env s"
  using assms by (auto simp: preprocess_def hosted_bucket_init Let_def split: prod.splits if_splits)

lemma allocate_xml_formatter:
  "allocate_formatter s RGW_FORMAT_XML False =
     (0, s\<lparr>rs_format := RGW_FORMAT_XML, rs_formatter := Some (FXml (new_xml_formatter False))\<rparr>)"
  by (simp add: allocate_formatter_def RGW_FORMAT_XML_def RGW_FORMAT_PLAIN_def)

lemma s3_address:
  assumes "rs_relative_uri s = CHR ''/'' # b @ CHR ''/'' # k" and "no_nul b" and "no_nul k" and "b \<noteq> []"
    and "CHR ''/'' \<notin> set b" and "rs_bucket_name_str s = []"
  shows "\<exists>s'. mgr_get_handler oob (set_logging (new_mgr MS3)) s = (Some (if k = [] then HBucket else HObject), s') \<and>
    rs_bucket_name_str s' = b \<and> okey_name (rs_object s') = k \<and> rs_env s' = rs_env s"
proof -
  have "c_str (rs_relative_uri s) = CHR ''/'' # b @ CHR ''/'' # k"
    using assms(1-3) by (simp add: no_nul_def)
  moreover have "find_from (\<lambda>c. c = CHR ''/'') (b @ CHR ''/'' # k) 0 = Some (length b)"
    using assms(5) by (intro find_from_field) auto
  ultimately show ?thesis
    using assms(4,6)
    by (simp add: mgr_get_handler_def set_logging_def new_mgr_def init_from_header_def allocate_xml_formatter obj_key_empty_def head_is_def Let_def)
qed

lemma handler_init_keeps_address:
  "handler_init oob g h s = (e, s') \<Longrightarrow> h \<noteq> HAdminBucket \<Longrightarrow> rs_bucket_name_str s' = rs_bucket_name_str s \<and> rs_object s' = rs_object s"
  by (auto simp: handler_init_def s3_handler_init_def Let_def split: prod.splits if_splits option.splits)

text \<open>A request that names a source to copy from must name it well.\<close>

definition copy_source_ok :: "(char \<Rightarrow> int) \<Rightarrow> rgw_env \<Rightarrow> bool" where
  "copy_source_ok oob env =
     (case env_get env ''HTTP_X_AMZ_COPY_SOURCE'' None of
        None \<Rightarrow> True
      | Some src \<Rightarrow> fst (parse_copy_location oob src ([], \<lparr>okey_name = [], okey_instance = []\<rparr>)))"

lemma parse_copy_location_verdict: "fst (parse_copy_location oob src x) = fst (parse_copy_location oob src y)"
  by (auto simp: parse_copy_location_def Let_def split: prod.splits option.splits)

lemma handler_init_verdict:
  assumes "handler_init oob g h s = (e, s')" and "h \<noteq> HAdminBucket"
  shows "e \<le> 0 \<and> (e = 0 \<longleftrightarrow> s3_validate_bucket_name (rs_bucket_name_str s) (g_rgw_relaxed_s3_bucket_names g) = 0 \<and>
    validate_object_name (okey_name (rs_object s)) = 0 \<and> copy_source_ok oob (rs_env s))"
proof -
  have b: "s3_validate_bucket_name x y \<le> 0" for x y
    by (simp add: s3_validate_bucket_name_def validate_bucket_name_def Let_def)
  have k: "validate_object_name x \<le> 0" for x by (simp add: validate_object_name_def)
  have run: "s3_handler_init oob g s = (e, s')" using assms by (simp add: handler_init_def)
  show ?thesis
  proof (cases "env_get (rs_env s) ''HTTP_X_AMZ_COPY_SOURCE'' None")
    case None
    with run b k show ?thesis by (auto simp: s3_handler_init_def copy_source_ok_def Let_def split: if_splits option.splits)
  next
    case (Some src)
    with run b k parse_copy_location_verdict [of oob src "([], \<lparr>okey_name = [], okey_instance = []\<rparr>)"] show ?thesis
      by (auto simp: s3_handler_init_def copy_source_ok_def Let_def split: if_splits option.splits prod.splits) (metis fst_conv)+
  qed
qed

lemma preprocess_without_length:
  assumes "env_get (rs_env s) ''CONTENT_LENGTH'' None = None" and "env_get (rs_env s) ''HTTP_CONTENT_LENGTH'' None = None"
    and "0 \<le> rs_content_length s"
  shows "fst (preprocess oob found t s) = 0"
  using assms by (simp add: preprocess_def choose_length_def Let_def split: prod.splits)

definition sample_address :: req_state where
  "sample_address = (let s = new_req_state new_env in
     s\<lparr>rs_info := (rs_info s)\<lparr>request_uri := ''/'' @ url_encode ''my-bucket'' [] @ ''/'' @ url_encode ''a/b?c'' []\<rparr>\<rparr>)"

lemma request_uri_update: "request_uri (i\<lparr>request_uri := u\<rparr>) = u"
  by simp

lemma sample_address_fields:
  "rs_env sample_address = new_env" "rs_content_length sample_address = 0" "rs_bucket_name_str sample_address = []"
  "request_uri (rs_info sample_address) = ''/'' @ url_encode ''my-bucket'' [] @ ''/'' @ url_encode ''a/b?c'' []"
  by (simp_all only: sample_address_def new_req_state_def Let_def req_state.simps request_uri_update)

lemma sample_names_valid:
  "s3_validate_bucket_name ''my-bucket'' r = 0" "validate_object_name ''a/b?c'' = 0"
proof -
  show "s3_validate_bucket_name ''my-bucket'' r = 0"
    by (simp add: s3_validate_bucket_name_def validate_bucket_name_def looks_like_ip_address_def bucket_char_def Let_def
        isalpha_def isupper_def islower_def isdigit_def c_str_def)
  show "validate_object_name ''a/b?c'' = 0" by (simp add: validate_object_name_def check_utf8_def utf8_flush_def)
qed

text \<open>C8: A request for the percent-encoded path of a bucket and an object is handled with exactly this bucket
  and this object name, whatever characters they have besides NUL and, in the bucket, the slash; only
  the bucket name \<^verbatim>\<open>admin\<close> is taken by the administration interface.  The request gets its S3 handler
  exactly when both names are valid and a source to copy from, if one is given, can be parsed;
  otherwise it gets none and an error.\<close>

theorem request_address_roundtrip:
  assumes "request_uri (rs_info s) = ''/'' @ url_encode b [] @ ''/'' @ url_encode k []"
    and "no_nul b" and "no_nul k" and "b \<noteq> []" and "CHR ''/'' \<notin> set b" and "b \<noteq> ''admin''"
    and "rs_bucket_name_str s = []" and "fst (preprocess oob found rgw_rest_init s) = 0"
  shows "\<exists>h e s'. get_handler oob found g rgw_rest_init gateway_mgr s = Some (h, e, s') \<and>
    rs_bucket_name_str s' = b \<and> okey_name (rs_object s') = k \<and>
    (if s3_validate_bucket_name b (g_rgw_relaxed_s3_bucket_names g) = 0 \<and> validate_object_name k = 0 \<and> copy_source_ok oob (rs_env s)
     then e = 0 \<and> h = Some (if k = [] then HBucket else HObject, set_logging (new_mgr MS3))
     else e < 0 \<and> h = None)"
proof -
  obtain s1 where s1: "preprocess oob found rgw_rest_init s = (0, s1)" using assms(8) by (cases "preprocess oob found rgw_rest_init s") simp
  let ?uri = "CHR ''/'' # b @ CHR ''/'' # k"
  let ?s2 = "s1\<lparr>rs_relative_uri := ?uri\<rparr>"
  have uri: "rs_decoded_uri s1 = ?uri"
    by (simp only: preprocess_address(1) [OF s1] assms(1) decoded_address [OF assms(2,3)] snd_conv)
  obtain s3 where s3: "mgr_get_handler oob (set_logging (new_mgr MS3)) ?s2 = (Some (if k = [] then HBucket else HObject), s3)"
    "rs_bucket_name_str s3 = b" "okey_name (rs_object s3) = k" "rs_env s3 = rs_env s"
    using s3_address [of ?s2 b k oob] assms(2-5,7) preprocess_address(2,3) [OF s1] by auto
  define h where "h = (if k = [] then HBucket else HObject)"
  obtain e s4 where s4: "handler_init oob g h s3 = (e, s4)" by force
  have h: "h \<noteq> HAdminBucket" by (simp add: h_def)
  then have "rs_bucket_name_str s4 = b" "okey_name (rs_object s4) = k"
    using handler_init_keeps_address [OF s4] s3(2,3) by simp_all
  moreover have "get_handler oob found g rgw_rest_init gateway_mgr s =
      Some (if e < 0 then None else Some (h, set_logging (new_mgr MS3)), e, s4)"
    by (simp only: get_handler_def s1 uri route_to_s3 [OF assms(5,6)] s3(1) [folded h_def] s4 prod.case option.case Let_def
        less_irrefl if_False)
  moreover have "if s3_validate_bucket_name b (g_rgw_relaxed_s3_bucket_names g) = 0 \<and> validate_object_name k = 0 \<and> copy_source_ok oob (rs_env s)
     then e = 0 \<and> (if e < 0 then None else Some (h, set_logging (new_mgr MS3))) = Some (h, set_logging (new_mgr MS3))
     else e < 0 \<and> (if e < 0 then None else Some (h, set_logging (new_mgr MS3))) = None"
    using handler_init_verdict [OF s4 h] unfolding s3(2-4) by (cases "e = 0") simp_all
  ultimately show ?thesis unfolding h_def by blast
qed

theorem request_address_roundtrip_witness:
  "\<exists>s'. get_handler (\<lambda>c. 7) False globals_init rgw_rest_init gateway_mgr sample_address =
      Some (Some (HObject, set_logging (new_mgr MS3)), 0, s') \<and>
    rs_bucket_name_str s' = ''my-bucket'' \<and> okey_name (rs_object s') = ''a/b?c''"
proof -
  have "fst (preprocess (\<lambda>c. 7) False rgw_rest_init sample_address) = 0"
    by (intro preprocess_without_length) (simp_all only: sample_address_fields, simp_all add: new_env_def env_get_def)
  then have "\<exists>h e s'. get_handler (\<lambda>c. 7) False globals_init rgw_rest_init gateway_mgr sample_address = Some (h, e, s') \<and>
    rs_bucket_name_str s' = ''my-bucket'' \<and> okey_name (rs_object s') = ''a/b?c'' \<and>
    (if s3_validate_bucket_name ''my-bucket'' (g_rgw_relaxed_s3_bucket_names globals_init) = 0 \<and> validate_object_name ''a/b?c'' = 0 \<and>
       copy_source_ok (\<lambda>c. 7) (rs_env sample_address)
     then e = 0 \<and> h = Some (if ''a/b?c'' = [] then HBucket else HObject, set_logging (new_mgr MS3))
     else e < 0 \<and> h = None)"
    by (intro request_address_roundtrip) (simp_all add: sample_address_fields no_nul_def)
  moreover have "s3_validate_bucket_name ''my-bucket'' (g_rgw_relaxed_s3_bucket_names globals_init) = 0"
    "validate_object_name ''a/b?c'' = 0"
    by (rule sample_names_valid)+
  moreover have "copy_source_ok (\<lambda>c. 7) (rs_env sample_address)"
    by (simp only: sample_address_fields) (simp add: copy_source_ok_def new_env_def env_get_def)
  ultimately show ?thesis by auto
qed

end
