(* ===== verification/Client_Io.thy ===== *)
theory Client_Io
  imports Rest
begin

text \<open>
  The connection to the web server: \<^verbatim>\<open>RGWClientIO\<close> (\<^verbatim>\<open>src/rgw/rgw_client_io.cc\<close>) with its FastCGI
  implementation \<^verbatim>\<open>RGWFCGX\<close> (\<^verbatim>\<open>src/rgw/rgw_fcgi.cc\<close>), and the readers of a request body of
  \<^verbatim>\<open>porting_rest.cc\<close>.  The FastCGI library is the parameter \<open>fcgx_lib\<close>: \<^verbatim>\<open>FCGX_PutStr\<close> maps the
  bytes to write and what was sent so far to its result and what is sent then, \<^verbatim>\<open>FCGX_GetStr\<close> maps the
  size of the buffer and the rest of the input to the bytes it stores and the rest of the input then.  The theorems show that
  formatted output always leaves the loop that grows its buffer, and that reading a body of unknown length
  ends, never writes behind its buffer and returns the whole body up to the given limit.
\<close>

section \<open>RGWClientIO and RGWFCGX\<close>

record fcgx_lib =
  fcgx_put_str :: "string \<Rightarrow> string \<Rightarrow> int \<times> string"
  fcgx_get_str :: "nat \<Rightarrow> string \<Rightarrow> string \<times> string"

record client_io =
  cio_account :: bool
  cio_bytes_sent :: uint64
  cio_bytes_received :: uint64
  cio_in :: string
  cio_out :: string

definition new_client_io :: "string \<Rightarrow> client_io" where
  "new_client_io input =
     \<lparr>cio_account = False, cio_bytes_sent = 0, cio_bytes_received = 0, cio_in = input, cio_out = []\<rparr>"

text \<open>The documented behaviour of the library on a connection that stays open: \<^verbatim>\<open>FCGX_PutStr\<close> writes all
  bytes, \<^verbatim>\<open>FCGX_GetStr\<close> fills the buffer unless the input ends.\<close>

definition fcgx_writes :: "fcgx_lib \<Rightarrow> bool" where
  "fcgx_writes lib \<longleftrightarrow> (\<forall>buf out. fcgx_put_str lib buf out = (int (length buf), out @ buf))"

definition fcgx_reads :: "fcgx_lib \<Rightarrow> bool" where
  "fcgx_reads lib \<longleftrightarrow> (\<forall>n input. fcgx_get_str lib n input = (take n input, drop n input))"

definition write_data :: "fcgx_lib \<Rightarrow> string \<Rightarrow> client_io \<Rightarrow> int \<times> client_io" where
  "write_data lib buf io = (let (r, out) = fcgx_put_str lib buf (cio_out io) in (r, io\<lparr>cio_out := out\<rparr>))"

definition read_data :: "fcgx_lib \<Rightarrow> nat \<Rightarrow> client_io \<Rightarrow> string \<times> client_io" where
  "read_data lib len io = (let (buf, rest) = fcgx_get_str lib len (cio_in io) in (buf, io\<lparr>cio_in := rest\<rparr>))"

text \<open>The length is an \<^verbatim>\<open>int\<close> in the code, the length of the buffer for those below 2 GB.\<close>

definition cio_write :: "fcgx_lib \<Rightarrow> string \<Rightarrow> client_io \<Rightarrow> int \<times> client_io" where
  "cio_write lib buf io =
     (let (ret, io) = write_data lib buf io in
      if ret < 0 then (ret, io)
      else
        let io = (if cio_account io then io\<lparr>cio_bytes_sent := cio_bytes_sent io + of_int ret\<rparr> else io) in
        if ret < int (length buf) then (- EIO, io) else (0, io))"

text \<open>\<^verbatim>\<open>read\<close> stores at most \<open>max\<close> bytes, so \<^verbatim>\<open>read_data\<close> is never negative and the result is 0.\<close>

definition cio_read :: "fcgx_lib \<Rightarrow> nat \<Rightarrow> client_io \<Rightarrow> string \<times> client_io" where
  "cio_read lib mx io =
     (let (buf, io) = read_data lib mx io in
      (buf, io\<lparr>cio_bytes_received := cio_bytes_received io + of_nat (length buf)\<rparr>))"

text \<open>\<^verbatim>\<open>vsnprintf\<close> with the text the arguments give: the length of the text, or a negative number where
  it is no \<^verbatim>\<open>int\<close>, and what the buffer holds then.\<close>

definition vsnprintf :: "int \<Rightarrow> string \<Rightarrow> int \<times> string" where
  "vsnprintf n s = (if int (length s) > INT_MAX then - 1 else int (length s), take (nat n - 1) s)"

text \<open>The loop of \<^verbatim>\<open>print\<close>.  The size is an unbounded number here: the source's \<^verbatim>\<open>int\<close> overflows only for a
  text of \<^verbatim>\<open>INT_MAX\<close> bytes or more, which the theorem excludes.\<close>

partial_function (option) print_loop :: "fcgx_lib \<Rightarrow> string \<Rightarrow> int \<Rightarrow> client_io \<Rightarrow> (int \<times> client_io) option" where
  "print_loop lib s n io =
     (let (ret, buf) = vsnprintf n s in
      if ret \<ge> 0 \<and> ret < n then Some (cio_write lib (take (nat ret) buf) io)
      else print_loop lib s (if ret \<ge> 0 then ret + 1 else n * 2) io)"

definition cio_print :: "fcgx_lib \<Rightarrow> string \<Rightarrow> client_io \<Rightarrow> (int \<times> client_io) option" where
  "cio_print lib s io = print_loop lib s 128 io"

definition send_status :: "fcgx_lib \<Rightarrow> string \<Rightarrow> string \<Rightarrow> client_io \<Rightarrow> (int \<times> client_io) option" where
  "send_status lib status status_name io = cio_print lib (''Status: '' @ status @ '' '' @ status_name @ [CR, LF]) io"

text \<open>\<^verbatim>\<open>flush\<close> hands over bytes that were written already; it adds none.\<close>

definition send_100_continue :: "fcgx_lib \<Rightarrow> client_io \<Rightarrow> (int \<times> client_io) option" where
  "send_100_continue lib io = send_status lib ''100'' ''Continue'' io"

definition send_content_length :: "fcgx_lib \<Rightarrow> uint64 \<Rightarrow> client_io \<Rightarrow> (int \<times> client_io) option" where
  "send_content_length lib len io = cio_print lib (''Content-Length: '' @ dec (unat len) @ [CR, LF]) io"

definition complete_header :: "fcgx_lib \<Rightarrow> client_io \<Rightarrow> (int \<times> client_io) option" where
  "complete_header lib io = cio_print lib [CR, LF] io"

section \<open>Reading a body\<close>

text \<open>The loop of \<^verbatim>\<open>read_all_chunked_input\<close> with the bytes stored so far, the size of the next read and the
  allocated size (without the byte for the terminator).  \<open>mem\<close> says whether the allocator can give a
  size.  The result is \<open>None\<close> where a read would go beyond the allocated memory and where the loop runs on.
  The sizes are of type \<^verbatim>\<open>int\<close> in the code; they stay below the limit and two chunks, so they do not overflow for the limit of
  the caller, \<^verbatim>\<open>COMPLETE_MULTIPART_MAX_LEN\<close>.\<close>

abbreviation (input) ENOMEM :: int where "ENOMEM \<equiv> 12"
abbreviation (input) ERR_LENGTH_REQUIRED :: int where "ERR_LENGTH_REQUIRED \<equiv> 2011"

definition READ_CHUNK :: nat where
  "READ_CHUNK = 4096"

definition MAX_READ_CHUNK :: nat where
  "MAX_READ_CHUNK = 128 * 1024"

partial_function (option) chunked_loop ::
    "fcgx_lib \<Rightarrow> (nat \<Rightarrow> bool) \<Rightarrow> nat \<Rightarrow> string \<Rightarrow> nat \<Rightarrow> nat \<Rightarrow> client_io \<Rightarrow> (string result \<times> client_io) option" where
  "chunked_loop lib mem max_read data need_to_read alloc io =
     (if length data + need_to_read > alloc then None
      else
        let (buf, io) = cio_read lib need_to_read io; data = data @ buf in
        if length buf = need_to_read then
          let need_to_read = (if need_to_read < MAX_READ_CHUNK then need_to_read * 2 else need_to_read) in
          if alloc > max_read then Some (Inl (- ERANGE), io)
          else if \<not> mem (alloc + need_to_read + 1) then Some (Inl (- ENOMEM), io)
          else chunked_loop lib mem max_read data need_to_read (alloc + need_to_read) io
        else Some (Inr data, io))"

definition read_all_chunked_input :: "fcgx_lib \<Rightarrow> (nat \<Rightarrow> bool) \<Rightarrow> nat \<Rightarrow> client_io \<Rightarrow> (string result \<times> client_io) option" where
  "read_all_chunked_input lib mem max_read io =
     (if \<not> mem (READ_CHUNK + 1) then Some (Inl (- ENOMEM), io)
      else chunked_loop lib mem max_read [] READ_CHUNK READ_CHUNK io)"

text \<open>\<^verbatim>\<open>rgw_rest_read_all_input\<close>; a body of length 0 leaves the data a null pointer, here the empty string.\<close>

definition rgw_rest_read_all_input ::
    "fcgx_lib \<Rightarrow> (nat \<Rightarrow> bool) \<Rightarrow> nat \<Rightarrow> req_state \<Rightarrow> client_io \<Rightarrow> (string result \<times> client_io) option" where
  "rgw_rest_read_all_input lib mem max_len s io =
     (let cl = (case rs_length s of Some l \<Rightarrow> word_of_int (atoll l) | None \<Rightarrow> 0) :: uint64 in
      if cl \<noteq> 0 then
        if unat cl > max_len then Some (Inl (- ERANGE), io)
        else if \<not> mem (unat cl + 1) then Some (Inl (- ENOMEM), io)
        else let (buf, io) = cio_read lib (unat cl) io in Some (Inr buf, io)
      else if rs_length s = None then
        (if env_get (rs_env s) ''HTTP_TRANSFER_ENCODING'' None \<noteq> Some ''chunked'' then Some (Inl (- ERR_LENGTH_REQUIRED), io)
         else read_all_chunked_input lib mem max_len io)
      else Some (Inr [], io))"

section \<open>The loops end\<close>

lemma print_loop_fits: "int (length s) < n \<Longrightarrow> int (length s) < INT_MAX \<Longrightarrow> print_loop lib s n io = Some (cio_write lib s io)"
  by (subst print_loop.simps) (simp add: vsnprintf_def)

lemma cio_print_eq: "int (length s) < INT_MAX \<Longrightarrow> cio_print lib s io = Some (cio_write lib s io)"
  unfolding cio_print_def
  by (cases "int (length s) < 128") (simp add: print_loop_fits, subst print_loop.simps, simp add: vsnprintf_def print_loop_fits)

text \<open>The reads of the loop are 4096 bytes times a power of two, up to the largest chunk.\<close>

definition chunk_size :: "nat \<Rightarrow> bool" where
  "chunk_size n \<longleftrightarrow> (\<exists>k \<le> 5. n = READ_CHUNK * 2 ^ k)"

lemma chunk_size_first: "chunk_size READ_CHUNK"
  unfolding chunk_size_def by (rule exI [of _ 0]) simp

lemma chunk_size_bounds: "chunk_size n \<Longrightarrow> 0 < n \<and> n \<le> MAX_READ_CHUNK"
proof -
  assume "chunk_size n"
  then obtain k where k: "k \<le> 5" "n = READ_CHUNK * 2 ^ k" by (auto simp: chunk_size_def)
  have "(2 :: nat) ^ k \<le> 2 ^ 5" using k(1) by (intro power_increasing) simp_all
  then show ?thesis by (simp add: k(2) READ_CHUNK_def MAX_READ_CHUNK_def)
qed

lemma chunk_size_next:
  assumes "chunk_size n"
  shows "chunk_size (if n < MAX_READ_CHUNK then n * 2 else n)"
proof (cases "n < MAX_READ_CHUNK")
  case True
  obtain k where k: "k \<le> 5" "n = READ_CHUNK * 2 ^ k" using assms by (auto simp: chunk_size_def)
  have "k \<noteq> 5" using True k(2) by (auto simp: READ_CHUNK_def MAX_READ_CHUNK_def)
  then have "k + 1 \<le> 5 \<and> n * 2 = READ_CHUNK * 2 ^ (k + 1)" using k by simp
  then have "chunk_size (n * 2)" unfolding chunk_size_def by blast
  then show ?thesis using True by simp
qed (use assms in simp)

text \<open>What a reader with a limit may answer for a body.\<close>

definition read_outcome :: "(nat \<Rightarrow> bool) \<Rightarrow> nat \<Rightarrow> string \<Rightarrow> string result \<Rightarrow> bool" where
  "read_outcome mem max_read body r \<longleftrightarrow>
     (case r of Inr d \<Rightarrow> d = body \<and> length d < max_read + MAX_READ_CHUNK
              | Inl e \<Rightarrow> e = - ERANGE \<and> max_read < length body \<or> e = - ENOMEM \<and> (\<exists>n. \<not> mem n))"

lemma chunked_loop_reads:
  assumes "fcgx_reads lib" and "chunk_size need" and "length data + need = alloc" and "alloc \<le> max_read + MAX_READ_CHUNK"
  shows "\<exists>r io'. chunked_loop lib mem max_read data need alloc io = Some (r, io') \<and> read_outcome mem max_read (data @ cio_in io) r"
  using assms(2-4)
proof (induction "max_read + 1 - alloc" arbitrary: data need alloc io rule: less_induct)
  case less
  note b = chunk_size_bounds [OF less.prems(1)]
  obtain buf io1 where rd: "cio_read lib need io = (buf, io1)" by force
  have io1: "buf = take need (cio_in io)" "cio_in io1 = drop need (cio_in io)"
    using rd assms(1) by (auto simp: cio_read_def read_data_def fcgx_reads_def)
  let ?need = "if need < MAX_READ_CHUNK then need * 2 else need"
  note eq = chunked_loop.simps [of lib mem max_read data need alloc io]
  show ?case
  proof (cases "length buf = need")
    case False
    then have "length (cio_in io) < need" using io1(1) by simp
    moreover from this have "buf = cio_in io" using io1(1) by simp
    ultimately show ?thesis using less.prems False rd by (subst eq) (simp add: read_outcome_def)
  next
    case full: True
    then have long: "need \<le> length (cio_in io)" using io1(1) by simp
    show ?thesis
    proof (cases "max_read < alloc \<or> \<not> mem (alloc + ?need + 1)")
      case True
      then show ?thesis using less.prems full rd long by (subst eq) (auto simp: Let_def read_outcome_def)
    next
      case False
      then have step: "chunked_loop lib mem max_read data need alloc io =
          chunked_loop lib mem max_read (data @ buf) ?need (alloc + ?need) io1"
        using less.prems full rd by (subst eq) (simp add: Let_def)
      have "max_read + 1 - (alloc + ?need) < max_read + 1 - alloc" using False b by auto
      note IH = less.hyps [OF this chunk_size_next [OF less.prems(1)]]
      have "alloc + ?need \<le> max_read + MAX_READ_CHUNK"
        using False chunk_size_bounds [OF chunk_size_next [OF less.prems(1)]] by linarith
      moreover have "length (data @ buf) + ?need = alloc + ?need" using less.prems(2) full by simp
      moreover have "(data @ buf) @ cio_in io1 = data @ cio_in io" using io1 by simp
      ultimately show ?thesis using IH [of "data @ buf" io1] unfolding step by simp
    qed
  qed
qed

text \<open>C15: Reading a body of unknown length ends on every input and stays inside the memory allocated for it.
  It returns the whole rest of the input, which is then at most one chunk above the limit; it reports
  \<^verbatim>\<open>ERANGE\<close> only for a body above the limit and \<^verbatim>\<open>ENOMEM\<close> only where the allocator fails.\<close>

theorem chunked_body_read:
  assumes "fcgx_reads lib"
  shows "\<exists>r io'. read_all_chunked_input lib mem max_read io = Some (r, io') \<and>
    read_outcome mem max_read (cio_in io) r"
proof (cases "mem (READ_CHUNK + 1)")
  case True
  have "READ_CHUNK \<le> max_read + MAX_READ_CHUNK" by (simp add: READ_CHUNK_def MAX_READ_CHUNK_def)
  from chunked_loop_reads [OF assms chunk_size_first _ this, of "[]" mem io] True
  show ?thesis by (simp add: read_all_chunked_input_def)
qed (auto simp: read_all_chunked_input_def read_outcome_def)

definition sample_fcgx :: fcgx_lib where
  "sample_fcgx = \<lparr>fcgx_put_str = (\<lambda>buf out. (int (length buf), out @ buf)), fcgx_get_str = (\<lambda>n input. (take n input, drop n input))\<rparr>"

lemma sample_fcgx_ok: "fcgx_reads sample_fcgx" "fcgx_writes sample_fcgx"
  by (simp_all add: fcgx_reads_def fcgx_writes_def sample_fcgx_def)

theorem chunked_body_read_witness:
  "\<exists>io'. read_all_chunked_input sample_fcgx (\<lambda>n. True) 5 (new_client_io ''abc'') = Some (Inr ''abc'', io')"
proof -
  obtain r io' where r: "read_all_chunked_input sample_fcgx (\<lambda>n. True) 5 (new_client_io ''abc'') = Some (r, io')"
    "read_outcome (\<lambda>n. True) 5 (cio_in (new_client_io ''abc'')) r"
    using chunked_body_read [OF sample_fcgx_ok(1)] by blast
  have "r = Inr ''abc''" using r(2) by (cases r) (simp_all add: read_outcome_def new_client_io_def)
  then show ?thesis using r(1) by simp
qed

end
