(* ===== verification/Response.thy ===== *)
theory Response
  imports Client_Io "HOL-Library.Monad_Syntax"
begin

text \<open>
  Writing a response (\<^verbatim>\<open>src/rgw/porting_rest.cc\<close>): the table of error codes (\<^verbatim>\<open>rgw_http_errors.h\<close>), status line,
  headers, error documents and \<^verbatim>\<open>abort_early\<close>.  The functions work on the pair of the request's state and
  the connection; they are \<open>None\<close> where the source dereferences a null formatter or fails the formatter's assertion.  The theorems give the complete text of an error response
  and show that a date sent in a header is read back by the parser of request dates.
\<close>

section \<open>Error codes\<close>

abbreviation (input) EEXIST :: int where "EEXIST \<equiv> 17"
abbreviation (input) ENOTEMPTY :: int where "ENOTEMPTY \<equiv> 39"
abbreviation (input) ENOTSUP :: int where "ENOTSUP \<equiv> 95"
abbreviation (input) ETIMEDOUT :: int where "ETIMEDOUT \<equiv> 110"
abbreviation (input) STATUS_NO_CONTENT :: int where "STATUS_NO_CONTENT \<equiv> 1902"
abbreviation (input) STATUS_PARTIAL_CONTENT :: int where "STATUS_PARTIAL_CONTENT \<equiv> 1903"
abbreviation (input) ERR_NO_SUCH_BUCKET :: int where "ERR_NO_SUCH_BUCKET \<equiv> 2002"
abbreviation (input) ERR_BUCKET_EXISTS :: int where "ERR_BUCKET_EXISTS \<equiv> 2013"
abbreviation (input) ERR_TOO_LARGE :: int where "ERR_TOO_LARGE \<equiv> 2019"
abbreviation (input) ERR_INVALID_REQUEST :: int where "ERR_INVALID_REQUEST \<equiv> 2021"
abbreviation (input) ERR_NOT_FOUND :: int where "ERR_NOT_FOUND \<equiv> 2023"
abbreviation (input) ERR_PERMANENT_REDIRECT :: int where "ERR_PERMANENT_REDIRECT \<equiv> 2024"
abbreviation (input) ERR_NOT_IMPLEMENTED :: int where "ERR_NOT_IMPLEMENTED \<equiv> 2201"

text \<open>Error number, HTTP status and S3 code.\<close>

definition RGW_HTTP_ERRORS :: "(int \<times> int \<times> string) list" where
  "RGW_HTTP_ERRORS =
     [(0, 200, ''''), (1900, 201, ''Created''), (1901, 202, ''Accepted''), (STATUS_NO_CONTENT, 204, ''NoContent''),
      (STATUS_PARTIAL_CONTENT, 206, ''''), (ERR_PERMANENT_REDIRECT, 301, ''PermanentRedirect''), (1904, 303, ''''),
      (2016, 304, ''NotModified''), (EINVAL, 400, ''InvalidArgument''), (ERR_INVALID_REQUEST, 400, ''InvalidRequest''),
      (2004, 400, ''InvalidDigest''), (2005, 400, ''BadDigest''), (ERR_INVALID_BUCKET_NAME, 400, ''InvalidBucketName''),
      (ERR_INVALID_OBJECT_NAME, 400, ''InvalidObjectName''), (2006, 400, ''UnresolvableGrantByEmailAddress''),
      (2007, 400, ''InvalidPart''), (2008, 400, ''InvalidPartOrder''), (2010, 400, ''RequestTimeout''),
      (ERR_TOO_LARGE, 400, ''EntityTooLarge''), (2022, 400, ''EntityTooSmall''), (2020, 400, ''TooManyBuckets''),
      (2029, 400, ''MalformedXML''), (ERR_LENGTH_REQUIRED, 411, ''MissingContentLength''), (EACCES, 403, ''AccessDenied''),
      (EPERM, 403, ''AccessDenied''), (ERR_SIGNATURE_NO_MATCH, 403, ''SignatureDoesNotMatch''),
      (ERR_INVALID_ACCESS_KEY, 403, ''InvalidAccessKeyId''), (2100, 403, ''UserSuspended''),
      (2012, 403, ''RequestTimeTooSkewed''), (2026, 403, ''QuotaExceeded''), (ENOENT, 404, ''NoSuchKey''),
      (ERR_NO_SUCH_BUCKET, 404, ''NoSuchBucket''), (2009, 404, ''NoSuchUpload''), (ERR_NOT_FOUND, 404, ''Not Found''),
      (ERR_METHOD_NOT_ALLOWED, 405, ''MethodNotAllowed''), (ETIMEDOUT, 408, ''RequestTimeout''),
      (EEXIST, 409, ''BucketAlreadyExists''), (2030, 409, ''UserAlreadyExists''), (ENOTEMPTY, 409, ''BucketNotEmpty''),
      (2015, 412, ''PreconditionFailed''), (ERANGE, 416, ''InvalidRange''), (2018, 422, ''UnprocessableEntity''),
      (2025, 423, ''Locked''), (2200, 500, ''InternalError''), (ERR_NOT_IMPLEMENTED, 501, ''NotImplemented'')]"

definition RGW_HTTP_SWIFT_ERRORS :: "(int \<times> int \<times> string) list" where
  "RGW_HTTP_SWIFT_ERRORS =
     [(EACCES, 401, ''AccessDenied''), (EPERM, 401, ''AccessDenied''), (2100, 401, ''UserSuspended''),
      (2017, 412, ''Invalid UTF8''), (2014, 412, ''Bad URL'')]"

definition search_err :: "int \<Rightarrow> (int \<times> int \<times> string) list \<Rightarrow> (int \<times> string) option" where
  "search_err err_no errs = map_option snd (find (\<lambda>e. fst e = err_no) errs)"

definition rgw_http_error_to_errno :: "int \<Rightarrow> int" where
  "rgw_http_error_to_errno http_err =
     (if http_err \<ge> 200 \<and> http_err \<le> 299 then 0
      else if http_err = 400 then - EINVAL
      else if http_err = 401 then - EPERM
      else if http_err = 403 then - EACCES
      else if http_err = 404 then - ENOENT
      else - EIO)"

definition is_swift :: "req_state \<Rightarrow> bool" where
  "is_swift s \<longleftrightarrow> and (rs_prot_flags s) 1 \<noteq> 0"

definition set_err_code :: "int \<times> string \<Rightarrow> req_state \<Rightarrow> req_state" where
  "set_err_code = (\<lambda>(http, code) s. s\<lparr>rs_err := (rs_err s)\<lparr>http_ret := http, s3_code := code\<rparr>\<rparr>)"

definition set_req_state_err :: "int \<Rightarrow> req_state \<Rightarrow> req_state" where
  "set_req_state_err err_no s =
     (let err_no = (if err_no < 0 then - err_no else err_no);
          s = s\<lparr>rs_err := (rs_err s)\<lparr>err_ret := - err_no\<rparr>\<rparr>
      in case (if is_swift s then search_err err_no RGW_HTTP_SWIFT_ERRORS else None) of
           Some r \<Rightarrow> set_err_code r s
         | None \<Rightarrow>
             (case search_err err_no RGW_HTTP_ERRORS of
                Some r \<Rightarrow> set_err_code r s
              | None \<Rightarrow> set_err_code (500, ''UnknownError'') s))"

definition is_err :: "rgw_err \<Rightarrow> bool" where
  "is_err e \<longleftrightarrow> \<not> (http_ret e \<ge> 200 \<and> http_ret e \<le> 399)"

section \<open>Status line and headers\<close>

text \<open>The FastCGI library, the tables of \<^verbatim>\<open>rgw_rest_init\<close>, the configuration, and what the C library prints for a
  null string.\<close>

record resp_world =
  rw_lib :: fcgx_lib
  rw_tables :: rest_tables
  rw_globals :: globals
  rw_null_str :: string

type_synonym resp = "req_state \<times> client_io"

definition emit :: "resp_world \<Rightarrow> string \<Rightarrow> resp \<Rightarrow> resp option" where
  "emit w txt = (\<lambda>(s, io). map_option (\<lambda>(r, io). (s, io)) (cio_print (rw_lib w) txt io))"

definition header :: "resp_world \<Rightarrow> string \<Rightarrow> string \<Rightarrow> resp \<Rightarrow> resp option" where
  "header w name val = emit w (name @ '': '' @ val @ [CR, LF])"

definition dump_status :: "resp_world \<Rightarrow> string \<Rightarrow> string \<Rightarrow> resp \<Rightarrow> resp option" where
  "dump_status w status status_name = (\<lambda>(s, io). map_option (\<lambda>(r, io). (s, io)) (send_status (rw_lib w) status status_name io))"

definition http_status_name :: "resp_world \<Rightarrow> int \<Rightarrow> string" where
  "http_status_name w code = (case map_get plain (rt_http_status_names (rw_tables w)) code of Some n \<Rightarrow> n | None \<Rightarrow> rw_null_str w)"

definition dump_errno :: "resp_world \<Rightarrow> resp \<Rightarrow> resp option" where
  "dump_errno w = (\<lambda>(s, io). dump_status w (dec_int_str (http_ret (rs_err s))) (http_status_name w (http_ret (rs_err s))) (s, io))"

definition fmt :: "fcall \<Rightarrow> resp \<Rightarrow> resp option" where
  "fmt c = (\<lambda>(s, io). do {
     f \<leftarrow> rs_formatter s;
     f \<leftarrow> fmt_call c f;
     Some (s\<lparr>rs_formatter := Some f\<rparr>, io) })"

fun fmts :: "fcall list \<Rightarrow> resp \<Rightarrow> resp option" where
  "fmts [] st = Some st"
| "fmts (c # cs) st = do { st \<leftarrow> fmt c st; fmts cs st }"

definition XML_1_DTD :: string where
  "XML_1_DTD = ''<?xml version='' @ [DQUOTE] @ ''1.0'' @ [DQUOTE] @ '' encoding='' @ [DQUOTE] @ ''UTF-8'' @ [DQUOTE] @ ''?>''"

definition dump_start :: "resp \<Rightarrow> resp option" where
  "dump_start = (\<lambda>(s, io).
     if \<not> rs_content_started s then do {
       (s, io) \<leftarrow> (if rs_format s = RGW_FORMAT_XML then fmt (RawData XML_1_DTD) (s, io) else Some (s, io));
       Some (s\<lparr>rs_content_started := True\<rparr>, io) }
     else Some (s, io))"

definition dump_trans_id :: "resp_world \<Rightarrow> resp \<Rightarrow> resp option" where
  "dump_trans_id w = (\<lambda>(s, io).
     header w (if is_swift s then ''X-Trans-Id'' else ''x-amz-request-id'') (c_str (rs_trans_id s)) (s, io))"

definition opt_header :: "resp_world \<Rightarrow> string \<Rightarrow> string \<Rightarrow> resp \<Rightarrow> resp option" where
  "opt_header w name val st = (if val \<noteq> [] then header w name val st else Some st)"

text \<open>The maximal age is printed as a signed number; the invalid one is \<^verbatim>\<open>(uint32_t) -1\<close>.\<close>

definition dump_access_control :: "resp_world \<Rightarrow> string \<Rightarrow> string \<Rightarrow> string \<Rightarrow> string \<Rightarrow> 32 word \<Rightarrow> resp \<Rightarrow> resp option" where
  "dump_access_control w origin meth hdr exp_hdr max_age st =
     (if origin \<noteq> [] then do {
        st \<leftarrow> header w ''Access-Control-Allow-Origin'' origin st;
        st \<leftarrow> opt_header w ''Access-Control-Allow-Methods'' meth st;
        st \<leftarrow> opt_header w ''Access-Control-Allow-Headers'' hdr st;
        st \<leftarrow> opt_header w ''Access-Control-Expose-Headers'' exp_hdr st;
        if max_age \<noteq> - 1 then header w ''Access-Control-Max-Age'' (dec_int_str (sint max_age)) st else Some st }
      else Some st)"

text \<open>\<^verbatim>\<open>RGWOp::generate_cors_headers\<close> with the disabled lookup of rules: origin and request method.\<close>

definition generate_cors_headers :: "bool \<Rightarrow> req_state \<Rightarrow> (string \<times> string) option" where
  "generate_cors_headers cors_exist s =
     (case env_get (rs_env s) ''HTTP_ORIGIN'' None of
        None \<Rightarrow> None
      | Some orig \<Rightarrow>
          if \<not> cors_exist then None
          else Some (orig,
            case env_get (rs_env s) ''HTTP_ACCESS_CONTROL_REQUEST_METHOD'' None of
              Some m \<Rightarrow> m
            | None \<Rightarrow> req_method (rs_info s)))"

definition dump_access_control_op :: "resp_world \<Rightarrow> bool \<Rightarrow> resp \<Rightarrow> resp option" where
  "dump_access_control_op w cors_exist st =
     (case generate_cors_headers cors_exist (fst st) of
        None \<Rightarrow> Some st
      | Some (origin, meth) \<Rightarrow> dump_access_control w (c_str origin) (c_str meth) [] [] (- 1) st)"

definition dump_content_length :: "resp_world \<Rightarrow> uint64 \<Rightarrow> resp \<Rightarrow> resp option" where
  "dump_content_length w len st = do {
     (s, io) \<leftarrow> Some st;
     (r, io) \<leftarrow> send_content_length (rw_lib w) len io;
     header w ''Accept-Ranges'' ''none'' (s, io) }"

definition cio_put :: "resp_world \<Rightarrow> string \<Rightarrow> resp \<Rightarrow> resp" where
  "cio_put w buf = (\<lambda>(s, io). (s, snd (cio_write (rw_lib w) buf io)))"

definition rgw_flush_formatter :: "resp_world \<Rightarrow> resp \<Rightarrow> resp option" where
  "rgw_flush_formatter w = (\<lambda>(s, io). do {
     f \<leftarrow> rs_formatter s;
     let (outs, f) = fmt_flush f;
     let st = (s\<lparr>rs_formatter := Some f\<rparr>, io);
     Some (if outs \<noteq> [] \<and> rs_op s \<noteq> OP_HEAD then cio_put w outs st else st) })"

definition rgw_flush_formatter_and_reset :: "resp_world \<Rightarrow> resp \<Rightarrow> resp option" where
  "rgw_flush_formatter_and_reset w st = do {
     (s, io) \<leftarrow> rgw_flush_formatter w st;
     Some (s\<lparr>rs_formatter := map_option fmt_reset (rs_formatter s)\<rparr>, io) }"

definition formatter_content_type :: "req_state \<Rightarrow> string" where
  "formatter_content_type s =
     (if rs_format s = RGW_FORMAT_XML then ''application/xml''
      else if rs_format s = RGW_FORMAT_JSON then ''application/json''
      else ''text/plain'') @ (if is_swift s then ''; charset=utf-8'' else [])"

definition dump_if_set :: "string \<Rightarrow> string \<Rightarrow> fcall list" where
  "dump_if_set name val = (if val \<noteq> [] then [DumpString name val []] else [])"

definition dump_error_document :: "resp_world \<Rightarrow> resp \<Rightarrow> resp option" where
  "dump_error_document w st = do {
     (s, io) \<leftarrow> dump_start st;
     st \<leftarrow> fmts ([OpenSection ''Error'' None [] False] @ dump_if_set ''Code'' (s3_code (rs_err s)) @
                 dump_if_set ''Message'' (message (rs_err s)) @ dump_if_set ''RequestId'' (rs_trans_id s) @ [CloseSection]) (s, io);
     f \<leftarrow> rs_formatter (fst st);
     dump_content_length w (of_nat (fmt_get_len f)) st }"

text \<open>\<^verbatim>\<open>end_header\<close>: the operation is given by its flag for CORS, a missing length by -1.\<close>

definition end_header :: "resp_world \<Rightarrow> bool option \<Rightarrow> string option \<Rightarrow> int \<Rightarrow> bool \<Rightarrow> resp \<Rightarrow> resp option" where
  "end_header w op content_type proposed_content_length force_content_type st = do {
     st \<leftarrow> dump_trans_id w st;
     let err = is_err (rs_err (fst st));
     st \<leftarrow> (if \<not> err \<and> bi_requester_pays (rs_bucket_info (fst st)) then header w ''x-amz-request-charged'' ''requester'' st else Some st);
     st \<leftarrow> (case op of None \<Rightarrow> Some st | Some cors_exist \<Rightarrow> dump_access_control_op w cors_exist st);
     let force_content_type = force_content_type \<or> (is_swift (fst st) \<and> content_type = None);
     has_data \<leftarrow> (if \<not> force_content_type \<and> content_type = None then map_option (\<lambda>f. fmt_get_len f \<noteq> 0) (rs_formatter (fst st))
                   else Some False);
     let content_type = (if force_content_type \<or> has_data \<or> err then Some (formatter_content_type (fst st)) else content_type);
     st \<leftarrow> (if err then dump_error_document w st
             else if proposed_content_length \<noteq> - 1 then dump_content_length w (word_of_int proposed_content_length) st
             else Some st);
     st \<leftarrow> (case content_type of None \<Rightarrow> Some st | Some c \<Rightarrow> header w ''Content-Type'' c st);
     (s, io) \<leftarrow> Some st;
     (r, io) \<leftarrow> complete_header (rw_lib w) io;
     rgw_flush_formatter_and_reset w (s, io\<lparr>cio_account := True\<rparr>) }"

definition dump_time :: "string \<Rightarrow> int \<Rightarrow> fcall list" where
  "dump_time name t = (case gmtime t of None \<Rightarrow> [] | Some d \<Rightarrow> [DumpString name (iso_date d) []])"

definition dump_owner :: "string \<Rightarrow> string \<Rightarrow> string \<Rightarrow> fcall list" where
  "dump_owner owner_id name sec =
     [OpenSection sec None [] False, DumpString ''ID'' owner_id [], DumpString ''DisplayName'' name [], CloseSection]"

definition dump_continue :: "resp_world \<Rightarrow> resp \<Rightarrow> resp option" where
  "dump_continue w = (\<lambda>(s, io). map_option (\<lambda>(r, io). (s, io)) (send_100_continue (rw_lib w) io))"

definition dump_bucket_from_state :: "resp_world \<Rightarrow> resp \<Rightarrow> resp option" where
  "dump_bucket_from_state w st =
     (if g_rgw_expose_bucket (rw_globals w) \<and> rs_bucket_name_str (fst st) \<noteq> []
      then header w ''Bucket'' (c_str (url_encode (rs_bucket_name_str (fst st)) [])) st
      else Some st)"

definition dump_redirect :: "resp_world \<Rightarrow> string \<Rightarrow> resp \<Rightarrow> resp option" where
  "dump_redirect w redirect st = (if redirect = [] then Some st else header w ''Location'' (c_str redirect) st)"

definition redirect_uri :: "req_state \<Rightarrow> string" where
  "redirect_uri s =
     (let dest_uri = rs_region_endpoint s;
          dest_uri = (if last dest_uri = CHR ''/'' then butlast dest_uri else dest_uri)
      in dest_uri @ request_uri (rs_info s) @ ''?'' @ request_params (rs_info s))"

definition abort_early :: "resp_world \<Rightarrow> bool option \<Rightarrow> int \<Rightarrow> resp \<Rightarrow> resp option" where
  "abort_early w op err_no = (\<lambda>(s, io). do {
     let s = (if rs_formatter s = None then s\<lparr>rs_formatter := Some (FJson (new_json_formatter False)), rs_format := RGW_FORMAT_JSON\<rparr> else s);
     let s = set_req_state_err err_no s;
     st \<leftarrow> dump_errno w (s, io);
     st \<leftarrow> dump_bucket_from_state w st;
     st \<leftarrow> (if err_no = - ERR_PERMANENT_REDIRECT \<and> rs_region_endpoint s \<noteq> [] then dump_redirect w (redirect_uri s) st else Some st);
     st \<leftarrow> end_header w op None (- 1) False st;
     rgw_flush_formatter_and_reset w st })"

text \<open>\<^verbatim>\<open>dump_range\<close> converts to \<^verbatim>\<open>long long\<close>.\<close>

definition dump_range :: "resp_world \<Rightarrow> uint64 \<Rightarrow> uint64 \<Rightarrow> uint64 \<Rightarrow> resp \<Rightarrow> resp option" where
  "dump_range w ofs end_ofs total_size =
     emit w (''Content-Range: bytes '' @ dec_int_str (sint ofs) @ ''-'' @ dec_int_str (sint end_ofs) @ ''/'' @ dec_int_str (sint total_size) @ [CR, LF])"

definition dump_epoch_header :: "resp_world \<Rightarrow> string \<Rightarrow> int \<Rightarrow> resp \<Rightarrow> resp option" where
  "dump_epoch_header w name t = header w name (dec_int_str t)"

definition dump_etag :: "resp_world \<Rightarrow> string \<Rightarrow> resp \<Rightarrow> resp option" where
  "dump_etag w etag st =
     (if etag = [] then Some st
      else if is_swift (fst st) then header w ''etag'' etag st
      else header w ''ETag'' ([DQUOTE] @ etag @ [DQUOTE]) st)"

definition dump_time_header :: "resp_world \<Rightarrow> string \<Rightarrow> int \<Rightarrow> resp \<Rightarrow> resp option" where
  "dump_time_header w name t st = (case gmtime t of None \<Rightarrow> Some st | Some d \<Rightarrow> header w name (http_date d) st)"

definition dump_last_modified :: "resp_world \<Rightarrow> int \<Rightarrow> resp \<Rightarrow> resp option" where
  "dump_last_modified w t = dump_time_header w ''Last-Modified'' t"

definition dump_string_header :: "resp_world \<Rightarrow> string \<Rightarrow> string \<Rightarrow> resp \<Rightarrow> resp option" where
  "dump_string_header w name val = header w name val"

section \<open>What is sent\<close>

text \<open>A connection after text was written to it.\<close>

definition sent :: "string \<Rightarrow> client_io \<Rightarrow> client_io" where
  "sent txt io = io\<lparr>cio_out := cio_out io @ txt,
     cio_bytes_sent := (if cio_account io then cio_bytes_sent io + of_nat (length txt) else cio_bytes_sent io)\<rparr>"

lemma sent_fields [simp]:
  "cio_out (sent t io) = cio_out io @ t" "cio_account (sent t io) = cio_account io" "cio_in (sent t io) = cio_in io"
  by (simp_all add: sent_def)

lemma sent_sent [simp]: "sent b (sent a io) = sent (a @ b) io"
  by (simp add: sent_def)

lemma cio_write_sent: "fcgx_writes lib \<Longrightarrow> cio_write lib buf io = (0, sent buf io)"
  by (simp add: fcgx_writes_def cio_write_def write_data_def sent_def)

lemma cio_print_sent: "fcgx_writes lib \<Longrightarrow> int (length t) < INT_MAX \<Longrightarrow> cio_print lib t io = Some (0, sent t io)"
  by (simp add: cio_print_eq cio_write_sent)

lemma emit_sent: "fcgx_writes (rw_lib w) \<Longrightarrow> int (length t) < INT_MAX \<Longrightarrow> emit w t (s, io) = Some (s, sent t io)"
  by (simp add: emit_def cio_print_sent)

definition header_line :: "string \<Rightarrow> string \<Rightarrow> string" where
  "header_line name val = name @ '': '' @ val @ [CR, LF]"

text \<open>Texts whose lines all fit into an \<^verbatim>\<open>int\<close>.\<close>

abbreviation (input) short_text :: "string \<Rightarrow> bool" where
  "short_text t \<equiv> length t < 2 ^ 30"

lemma header_sent:
  "fcgx_writes (rw_lib w) \<Longrightarrow> length name < 64 \<Longrightarrow> short_text val \<Longrightarrow> header w name val (s, io) = Some (s, sent (header_line name val) io)"
  by (simp add: header_def emit_sent header_line_def)

lemma length_http_date: "date_fields d \<Longrightarrow> length (http_date d) \<le> 40"
proof -
  assume "date_fields d"
  then have "length (dec (nat (tm_year d + 1900))) = 4" "0 \<le> tm_year d + 1900"
    by (auto intro!: length_dec_4 simp: date_fields_def)
  then show ?thesis by (simp add: http_date_def day_time_def two_digits_def dec_int_str_def)
qed

text \<open>C40: A date that is sent in a header of a response is accepted as a date of a request, and gives the same
  second, up to the end of the year 9999.\<close>

theorem time_header_roundtrip:
  assumes "fcgx_writes (rw_lib w)" and "0 \<le> t" and "t < 253402300800"
  shows "\<exists>date. dump_last_modified w t (s, io) = Some (s, sent (header_line ''Last-Modified'' date) io) \<and>
    parse_time date = Inr t"
proof -
  obtain d where d: "gmtime t = Some d" "date_fields d" using gmtime_timegm [OF assms(2,3)] by blast
  have "parse_time (http_date d) = Inr t" using parse_time_http_date [OF assms(2,3)] d(1) by simp
  then show ?thesis
    using d(1) length_http_date [OF d(2)] assms(1)
    by (intro exI [of _ "http_date d"]) (simp add: dump_last_modified_def dump_time_header_def header_sent)
qed

definition sample_world_resp :: resp_world where
  "sample_world_resp = \<lparr>rw_lib = sample_fcgx, rw_tables = rgw_rest_init, rw_globals = globals_init, rw_null_str = ''(null)''\<rparr>"

lemma sample_world_resp_writes: "fcgx_writes (rw_lib sample_world_resp)"
  by (simp add: sample_world_resp_def sample_fcgx_ok)

theorem time_header_roundtrip_witness:
  "\<exists>date. dump_last_modified sample_world_resp 1451606399 (new_req_state new_env, new_client_io []) =
      Some (new_req_state new_env, sent (header_line ''Last-Modified'' date) (new_client_io [])) \<and> parse_time date = Inr 1451606399"
  by (rule time_header_roundtrip [OF sample_world_resp_writes]) simp_all

section \<open>Error responses\<close>

lemma fmts_calls:
  "rs_formatter s = Some (FXml f) \<Longrightarrow>
     fmts cs (s, io) = map_option (\<lambda>f. (s\<lparr>rs_formatter := Some (FXml f)\<rparr>, io)) (calls xf_call cs f)"
proof (induction cs arbitrary: s f)
  case (Cons c cs)
  then show ?case by (cases "xf_call c f") (simp_all add: fmt_def)
qed simp

lemma xf_close_ss:
  assumes "xf_close_section f = Some f'" and "xf_state f' out secs"
  shows "xf_ss f' = out" "xf_flush f' = (out, f'\<lparr>xf_ss := []\<rparr>)"
proof -
  have "xf_pending_name f' = []"
    using assms(1) by (auto simp: xf_close_section_def Let_def xf_put_def xf_print_spaces_def xf_finish_pending_string_def split: if_splits)
  then show "xf_ss f' = out" "xf_flush f' = (out, f'\<lparr>xf_ss := []\<rparr>)"
    using assms(2) by (auto simp: xf_state_def xf_finish_pending_string_def xf_flush_def newline_if_def)
qed

text \<open>The document of an error.\<close>

definition error_tree :: "req_state \<Rightarrow> ftree" where
  "error_tree s = FSection ''Error'' None [] False (map (\<lambda>(n, v). FString n v []) (filter (\<lambda>(n, v). v \<noteq> [])
     [(''Code'', s3_code (rs_err s)), (''Message'', message (rs_err s)), (''RequestId'', rs_trans_id s)]))"

definition error_body :: "req_state \<Rightarrow> string" where
  "error_body s = XML_1_DTD @ render (printed_doc (error_tree s))"

lemma error_calls:
  "[OpenSection ''Error'' None [] False] @ dump_if_set ''Code'' (s3_code (rs_err s)) @
     dump_if_set ''Message'' (message (rs_err s)) @ dump_if_set ''RequestId'' (rs_trans_id s) @ [CloseSection] = fcalls (error_tree s)"
  by (simp add: error_tree_def dump_if_set_def)

lemma section_calls:
  assumes "streams_named (FSection n x attrs a ts)" and "xf_state f out secs"
  shows "\<exists>f'. calls xf_call (fcalls (FSection n x attrs a ts)) f = Some f' \<and> xf_state f' (out @ render (printed_doc (FSection n x attrs a ts))) secs \<and>
    xf_ss f' = out @ render (printed_doc (FSection n x attrs a ts)) \<and>
    xf_flush f' = (out @ render (printed_doc (FSection n x attrs a ts)), f'\<lparr>xf_ss := []\<rparr>)"
proof -
  obtain f' where f': "calls xf_call (fcalls (FSection n x attrs a ts)) f = Some f'"
    "xf_state f' (out @ render (printed_doc (FSection n x attrs a ts))) secs"
    using xf_calls_tree [OF assms] by blast
  obtain g where "xf_close_section g = Some f'"
    using f'(1) by (auto simp: calls_append bind_eq_Some_conv)
  from xf_close_ss [OF this f'(2)] f' show ?thesis by blast
qed

lemma dump_content_length_sent:
  "fcgx_writes (rw_lib w) \<Longrightarrow> dump_content_length w len (s, io) =
     Some (s, sent (header_line ''Content-Length'' (dec (unat len)) @ header_line ''Accept-Ranges'' ''none'') io)"
proof -
  assume w: "fcgx_writes (rw_lib w)"
  have "unat len < 10 ^ 20" using unsigned_less [of len, where 'a = nat] by simp
  from length_dec [OF this] show ?thesis
    using w by (simp add: dump_content_length_def send_content_length_def cio_print_sent header_sent header_line_def)
qed

lemma dump_error_document_sent:
  assumes "fcgx_writes (rw_lib w)" and "rs_formatter s = Some (FXml (new_xml_formatter False))" and "rs_format s = RGW_FORMAT_XML"
    and "\<not> rs_content_started s" and "length (error_body s) < 2 ^ 64"
  shows "\<exists>f. dump_error_document w (s, io) = Some (s\<lparr>rs_content_started := True, rs_formatter := Some (FXml f)\<rparr>,
      sent (header_line ''Content-Length'' (dec (length (error_body s))) @ header_line ''Accept-Ranges'' ''none'') io) \<and>
    xf_flush f = (error_body s, f\<lparr>xf_ss := []\<rparr>) \<and> \<not> xf_pretty f"
proof -
  let ?f0 = "xf_put XML_1_DTD (new_xml_formatter False)"
  let ?s = "s\<lparr>rs_formatter := Some (FXml ?f0), rs_content_started := True\<rparr>"
  have start: "dump_start (s, io) = Some (?s, io)"
    using assms by (simp add: dump_start_def fmt_def)
  have "xf_state ?f0 XML_1_DTD []" by (simp add: xf_state_def new_xml_formatter_def xf_put_def xf_finish_pending_string_def)
  moreover have "streams_named (error_tree s)" by (simp add: error_tree_def list_all_iff split_beta)
  ultimately obtain f where f: "calls xf_call (fcalls (error_tree s)) ?f0 = Some f" "xf_state f (error_body s) []"
    "xf_ss f = error_body s" "xf_flush f = (error_body s, f\<lparr>xf_ss := []\<rparr>)"
    using section_calls [of "''Error''" None "[]" False _ ?f0 XML_1_DTD "[]"] unfolding error_tree_def error_body_def by blast
  have tree: "error_tree ?s = error_tree s" by (simp add: error_tree_def)
  have "fmts (fcalls (error_tree ?s)) (?s, io) = Some (?s\<lparr>rs_formatter := Some (FXml f)\<rparr>, io)"
    unfolding tree using fmts_calls [of ?s ?f0] f(1) by simp
  moreover have "unat (word_of_nat (length (error_body s)) :: uint64) = length (error_body s)"
    using assms(5) by (rule unat_word_of_nat64)
  ultimately have "dump_error_document w (s, io) = Some (?s\<lparr>rs_formatter := Some (FXml f)\<rparr>,
      sent (header_line ''Content-Length'' (dec (length (error_body s))) @ header_line ''Accept-Ranges'' ''none'') io)"
    unfolding dump_error_document_def start
    by (simp only: bind.bind_lunit prod.case error_calls Option.bind.simps) (simp add: dump_content_length_sent [OF assms(1)] xf_get_len_def f(3))
  moreover have "\<not> xf_pretty f" using f(2) by (simp add: xf_state_def)
  ultimately show ?thesis using f(4) by (intro exI [of _ f]) simp
qed

lemma search_err_in: "search_err e errs = Some r \<Longrightarrow> \<exists>x \<in> set errs. snd x = r"
  unfolding search_err_def by (induction errs) (auto split: if_splits)

lemma http_status_range: "200 \<le> http_ret (rs_err (set_req_state_err e s)) \<and> http_ret (rs_err (set_req_state_err e s)) \<le> 501"
proof -
  have "list_all (\<lambda>x. 200 \<le> fst (snd x) \<and> fst (snd x) \<le> 501) (RGW_HTTP_ERRORS @ RGW_HTTP_SWIFT_ERRORS)" by code_simp
  then have "200 \<le> fst r \<and> fst r \<le> 501" if "search_err e' RGW_HTTP_ERRORS = Some r \<or> search_err e' RGW_HTTP_SWIFT_ERRORS = Some r" for e' r
    using that by (auto simp: list_all_iff dest!: search_err_in)
  then show ?thesis
    by (auto simp: set_req_state_err_def set_err_code_def Let_def split: option.splits if_splits) fastforce+
qed

lemma set_req_state_err_other:
  "rs_formatter (set_req_state_err e s) = rs_formatter s" "rs_format (set_req_state_err e s) = rs_format s"
  "rs_content_started (set_req_state_err e s) = rs_content_started s" "is_swift (set_req_state_err e s) = is_swift s"
  "rs_op (set_req_state_err e s) = rs_op s" "rs_trans_id (set_req_state_err e s) = rs_trans_id s"
  "rs_bucket_name_str (set_req_state_err e s) = rs_bucket_name_str s" "rs_env (set_req_state_err e s) = rs_env s"
  "rs_region_endpoint (set_req_state_err e s) = rs_region_endpoint s"
  by (auto simp: set_req_state_err_def set_err_code_def is_swift_def Let_def split: option.splits if_splits)

lemma length_url_encode: "length (url_encode s []) \<le> 3 * length s"
proof (induction s)
  case (Cons c s)
  have "length (url_encoded c) \<le> 3" by (simp add: url_encoded_def hex2_upper_def)
  then show ?case using Cons by (simp add: url_encode_eq)
qed simp

lemma length_c_str: "length (c_str s) \<le> length s"
  by (simp add: c_str_def length_takeWhile_le)

lemma no_cors_headers: "op \<noteq> Some True \<Longrightarrow> (case op of None \<Rightarrow> Some st | Some cors \<Rightarrow> dump_access_control_op w cors st) = Some st"
  by (auto simp: dump_access_control_op_def generate_cors_headers_def split: option.splits)

lemma dump_errno_sent:
  assumes "fcgx_writes (rw_lib w)" and "0 \<le> http_ret (rs_err s)" and "http_ret (rs_err s) \<le> 999"
    and "short_text (http_status_name w (http_ret (rs_err s)))"
  shows "dump_errno w (s, io) =
    Some (s, sent (''Status: '' @ dec_int_str (http_ret (rs_err s)) @ '' '' @ http_status_name w (http_ret (rs_err s)) @ [CR, LF]) io)"
proof -
  have "length (dec (nat (http_ret (rs_err s)))) \<le> 3" using assms(3) by (intro length_dec) simp_all
  then show ?thesis using assms
    by (simp add: dump_errno_def dump_status_def send_status_def cio_print_sent dec_int_str_def)
qed

text \<open>The complete text of the response to a request that failed.\<close>

definition error_response :: "resp_world \<Rightarrow> req_state \<Rightarrow> string" where
  "error_response w s =
     ''Status: '' @ dec_int_str (http_ret (rs_err s)) @ '' '' @ http_status_name w (http_ret (rs_err s)) @ [CR, LF] @
     (if g_rgw_expose_bucket (rw_globals w) \<and> rs_bucket_name_str s \<noteq> []
      then header_line ''Bucket'' (c_str (url_encode (rs_bucket_name_str s) [])) else []) @
     header_line ''x-amz-request-id'' (c_str (rs_trans_id s)) @
     header_line ''Content-Length'' (dec (length (error_body s))) @ header_line ''Accept-Ranges'' ''none'' @
     header_line ''Content-Type'' ''application/xml'' @ [CR, LF] @ error_body s"

text \<open>A request of the S3 interface before its response has begun, with names of moderate length.\<close>

definition s3_response_state :: "resp_world \<Rightarrow> req_state \<Rightarrow> bool" where
  "s3_response_state w s \<longleftrightarrow>
     rs_formatter s = Some (FXml (new_xml_formatter False)) \<and> rs_format s = RGW_FORMAT_XML \<and> \<not> rs_content_started s \<and>
     \<not> is_swift s \<and> rs_op s \<noteq> OP_HEAD \<and> short_text (rs_trans_id s) \<and> 3 * length (rs_bucket_name_str s) < 2 ^ 30 \<and>
     short_text (http_status_name w (http_ret (rs_err s))) \<and> length (error_body s) < 2 ^ 64"

lemma end_header_error:
  assumes "fcgx_writes (rw_lib w)" and "s3_response_state w s" and "is_err (rs_err s)" and "op \<noteq> Some True"
  shows "\<exists>s' io'. end_header w op None (- 1) False (s, io) = Some (s', io') \<and> rgw_flush_formatter_and_reset w (s', io') = Some (s', io') \<and>
    cio_out io' = cio_out io @ header_line ''x-amz-request-id'' (c_str (rs_trans_id s)) @
      header_line ''Content-Length'' (dec (length (error_body s))) @ header_line ''Accept-Ranges'' ''none'' @
      header_line ''Content-Type'' ''application/xml'' @ [CR, LF] @ error_body s"
proof -
  note st = assms(2) [unfolded s3_response_state_def]
  define io1 where "io1 = sent (header_line ''x-amz-request-id'' (c_str (rs_trans_id s))) io"
  have trans: "dump_trans_id w (s, io) = Some (s, io1)"
    using st length_c_str [of "rs_trans_id s"] assms(1) by (simp add: dump_trans_id_def header_sent io1_def)
  obtain f where doc: "dump_error_document w (s, io1) = Some (s\<lparr>rs_content_started := True, rs_formatter := Some (FXml f)\<rparr>,
      sent (header_line ''Content-Length'' (dec (length (error_body s))) @ header_line ''Accept-Ranges'' ''none'') io1)"
    and f: "xf_flush f = (error_body s, f\<lparr>xf_ss := []\<rparr>)" "\<not> xf_pretty f"
    using dump_error_document_sent [OF assms(1), of s io1] st by blast
  have body: "error_body s \<noteq> []" by (simp add: error_body_def XML_1_DTD_def)
  define s' where "s' = s\<lparr>rs_content_started := True, rs_formatter := Some (FXml (xf_reset (f\<lparr>xf_ss := []\<rparr>)))\<rparr>"
  define io2 where "io2 = sent (header_line ''Content-Length'' (dec (length (error_body s))) @ header_line ''Accept-Ranges'' ''none'' @
    header_line ''Content-Type'' ''application/xml'' @ [CR, LF]) io1"
  have "end_header w op None (- 1) False (s, io) = Some (s', sent (error_body s) (io2\<lparr>cio_account := True\<rparr>))"
    unfolding end_header_def trans using st assms f body
    by (simp add: no_cors_headers doc header_sent complete_header_def cio_print_sent rgw_flush_formatter_and_reset_def
        rgw_flush_formatter_def cio_put_def cio_write_sent formatter_content_type_def s'_def io2_def new_xml_formatter_def)
  moreover have "rgw_flush_formatter_and_reset w (s', i) = Some (s', i)" for i
    using f(2) by (simp add: rgw_flush_formatter_and_reset_def rgw_flush_formatter_def s'_def xf_flush_def xf_reset_def xf_finish_pending_string_def newline_if_def)
  ultimately show ?thesis by (intro exI [of _ s'] exI) (auto simp: io2_def io1_def)
qed

lemma permanent_redirect_no_err: "\<not> is_swift s \<Longrightarrow> \<not> is_err (rs_err (set_req_state_err (- ERR_PERMANENT_REDIRECT) s))"
  by (simp add: set_req_state_err_def set_err_code_def is_swift_def is_err_def search_err_def RGW_HTTP_ERRORS_def Let_def)

text \<open>C9: A request that is aborted with an error is answered completely: the status line of the code, the
  bucket, the request id, a length that is the size of the body, the type and the XML document of the
  error, and nothing more.\<close>

theorem abort_early_response:
  assumes "fcgx_writes (rw_lib w)" and "s3_response_state w (set_req_state_err err_no s)"
    and "is_err (rs_err (set_req_state_err err_no s))" and "op \<noteq> Some True"
  shows "\<exists>s' io'. abort_early w op err_no (s, io) = Some (s', io') \<and>
    cio_out io' = cio_out io @ error_response w (set_req_state_err err_no s)"
proof -
  let ?s = "set_req_state_err err_no s"
  note st = assms(2) [unfolded s3_response_state_def]
  have fmt: "rs_formatter s \<noteq> None" using st by (simp add: set_req_state_err_other)
  have redirect: "err_no \<noteq> - ERR_PERMANENT_REDIRECT"
    using assms(3) st permanent_redirect_no_err [of s] by (auto simp: set_req_state_err_other)
  define io1 where "io1 = sent (''Status: '' @ dec_int_str (http_ret (rs_err ?s)) @ '' '' @ http_status_name w (http_ret (rs_err ?s)) @ [CR, LF]) io"
  have status: "dump_errno w (?s, io) = Some (?s, io1)"
    unfolding io1_def using http_status_range [of err_no s] st assms(1) by (intro dump_errno_sent) simp_all
  define io2 where "io2 = sent (if g_rgw_expose_bucket (rw_globals w) \<and> rs_bucket_name_str ?s \<noteq> []
      then header_line ''Bucket'' (c_str (url_encode (rs_bucket_name_str ?s) [])) else []) io1"
  have "length (c_str (url_encode (rs_bucket_name_str ?s) [])) < 2 ^ 30"
    using st length_c_str [of "url_encode (rs_bucket_name_str ?s) []"] length_url_encode [of "rs_bucket_name_str ?s"] by linarith
  then have bucket: "dump_bucket_from_state w (?s, io1) = Some (?s, io2)"
    using assms(1) by (auto simp: dump_bucket_from_state_def io2_def header_sent sent_def)
  obtain s' io' where "end_header w op None (- 1) False (?s, io2) = Some (s', io')" "rgw_flush_formatter_and_reset w (s', io') = Some (s', io')"
    "cio_out io' = cio_out io2 @ header_line ''x-amz-request-id'' (c_str (rs_trans_id ?s)) @
      header_line ''Content-Length'' (dec (length (error_body ?s))) @ header_line ''Accept-Ranges'' ''none'' @
      header_line ''Content-Type'' ''application/xml'' @ [CR, LF] @ error_body ?s"
    using end_header_error [OF assms, of io2] by blast
  then show ?thesis using fmt redirect status bucket
    by (intro exI [of _ s'] exI [of _ io']) (auto simp: abort_early_def error_response_def io1_def io2_def)
qed

definition sample_denied :: req_state where
  "sample_denied = (new_req_state new_env)\<lparr>rs_formatter := Some (FXml (new_xml_formatter False)), rs_format := RGW_FORMAT_XML,
     rs_bucket_name_str := ''docs'', rs_trans_id := ''tx1'', rs_op := OP_GET\<rparr>"

lemma sample_denied_err:
  "http_status_name sample_world_resp 403 = ''Forbidden''"
  "http_ret (rs_err (set_req_state_err (- EACCES) sample_denied)) = 403"
  "length (error_body (set_req_state_err (- EACCES) sample_denied)) = 104"
  by code_simp+

theorem abort_early_response_witness:
  "\<exists>s' io'. abort_early sample_world_resp None (- EACCES) (sample_denied, new_client_io []) = Some (s', io') \<and>
    cio_out io' = error_response sample_world_resp (set_req_state_err (- EACCES) sample_denied)"
proof -
  have "s3_response_state sample_world_resp (set_req_state_err (- EACCES) sample_denied)"
    by (simp only: s3_response_state_def set_req_state_err_other sample_denied_err)
      (simp add: sample_denied_def new_req_state_def is_swift_def)
  from abort_early_response [OF sample_world_resp_writes this, of None "new_client_io []"] sample_denied_err(2)
  show ?thesis by (simp add: is_err_def new_client_io_def)
qed

end
