(* ===== verification/Lru_Map.thy ===== *)
theory Lru_Map
  imports Main "HOL-Library.AList"
begin

text \<open>
  The bounded map of \<^verbatim>\<open>src/common/lru_map.h\<close>: the entries and a list of their keys, the most recently used one
  first.  The iterator that an entry keeps into the list is the position of its key there.  The specification is one
  list of pairs in the order of their use; the theorem shows that the operations implement it, and that no
  entry is lost before the map is full.
\<close>

record ('k, 'v) lru_map =
  lm_entries :: "('k \<times> 'v) list"
  lm_lru :: "'k list"
  lm_max :: nat

definition new_lru_map :: "nat \<Rightarrow> ('k, 'v) lru_map" where
  "new_lru_map mx = \<lparr>lm_entries = [], lm_lru = [], lm_max = mx\<rparr>"

text \<open>\<^verbatim>\<open>_find\<close>: the result, the value stored then, and the map.  An update context gives the result and the new value.\<close>

definition lru_find_ctx :: "('v \<Rightarrow> bool \<times> 'v) option \<Rightarrow> 'k \<Rightarrow> ('k, 'v) lru_map \<Rightarrow> bool \<times> 'v option \<times> ('k, 'v) lru_map" where
  "lru_find_ctx ctx key m =
     (case map_of (lm_entries m) key of
        None \<Rightarrow> (False, None, m)
      | Some value \<Rightarrow>
          let (r, value) = (case ctx of None \<Rightarrow> (True, value) | Some update \<Rightarrow> update value) in
          (r, Some value, m\<lparr>lm_entries := AList.update key value (lm_entries m), lm_lru := key # remove1 key (lm_lru m)\<rparr>))"

definition lru_find :: "'k \<Rightarrow> ('k, 'v) lru_map \<Rightarrow> bool \<times> 'v option \<times> ('k, 'v) lru_map" where
  "lru_find key m = lru_find_ctx None key m"

definition lru_find_and_update :: "('v \<Rightarrow> bool \<times> 'v) option \<Rightarrow> 'k \<Rightarrow> ('k, 'v) lru_map \<Rightarrow> bool \<times> 'v option \<times> ('k, 'v) lru_map" where
  "lru_find_and_update ctx key m = lru_find_ctx ctx key m"

text \<open>The loop that drops entries; \<open>None\<close> is the dereference of an iterator of an empty list or of a key without entry.\<close>

function lru_evict :: "('k, 'v) lru_map \<Rightarrow> ('k, 'v) lru_map option" where
  "lru_evict m =
     (if length (lm_entries m) > lm_max m then
        if lm_lru m = [] \<or> map_of (lm_entries m) (last (lm_lru m)) = None then None
        else lru_evict (m\<lparr>lm_entries := AList.delete (last (lm_lru m)) (lm_entries m), lm_lru := butlast (lm_lru m)\<rparr>)
      else Some m)"
  by pat_completeness auto

termination lru_evict
  by (relation "measure (\<lambda>m. length (lm_lru m))") auto

declare lru_evict.simps [simp del]

definition lru_add :: "'k \<Rightarrow> 'v \<Rightarrow> ('k, 'v) lru_map \<Rightarrow> ('k, 'v) lru_map option" where
  "lru_add key value m =
     (let m = (if map_of (lm_entries m) key \<noteq> None then m\<lparr>lm_lru := remove1 key (lm_lru m)\<rparr> else m)
      in lru_evict (m\<lparr>lm_lru := key # lm_lru m, lm_entries := AList.update key value (lm_entries m)\<rparr>))"

definition lru_erase :: "'k \<Rightarrow> ('k, 'v) lru_map \<Rightarrow> ('k, 'v) lru_map" where
  "lru_erase key m =
     (case map_of (lm_entries m) key of
        None \<Rightarrow> m
      | Some _ \<Rightarrow> m\<lparr>lm_lru := remove1 key (lm_lru m), lm_entries := AList.delete key (lm_entries m)\<rparr>)"

section \<open>Invariant and specification\<close>

definition lru_inv :: "('k, 'v) lru_map \<Rightarrow> bool" where
  "lru_inv m \<longleftrightarrow> distinct (map fst (lm_entries m)) \<and> distinct (lm_lru m) \<and> set (lm_lru m) = fst ` set (lm_entries m)"

definition lru_abs :: "('k, 'v) lru_map \<Rightarrow> ('k \<times> 'v) list" where
  "lru_abs m = map (\<lambda>k. (k, the (map_of (lm_entries m) k))) (lm_lru m)"

definition without :: "'k \<Rightarrow> ('k \<times> 'v) list \<Rightarrow> ('k \<times> 'v) list" where
  "without key xs = filter (\<lambda>p. fst p \<noteq> key) xs"

lemma lru_inv_length: "lru_inv m \<Longrightarrow> length (lm_entries m) = length (lm_lru m)"
  by (metis distinct_card length_map lru_inv_def set_map)

lemma lru_inv_new: "lru_inv (new_lru_map n)" "lru_abs (new_lru_map n) = []"
  by (simp_all add: lru_inv_def lru_abs_def new_lru_map_def)

lemma lookup_abs:
  assumes "lru_inv m"
  shows "map_of (lru_abs m) k = map_of (lm_entries m) k"
proof (cases "k \<in> set (lm_lru m)")
  case True
  then obtain v where "map_of (lm_entries m) k = Some v" using assms by (auto simp: lru_inv_def)
  then show ?thesis using True by (simp add: lru_abs_def map_of_map_restrict)
next
  case False
  moreover from this have "map_of (lm_entries m) k = None" using assms by (auto simp: lru_inv_def map_of_eq_None_iff)
  ultimately show ?thesis by (simp add: lru_abs_def map_of_map_restrict)
qed

lemma lru_abs_cong: "map_of (lm_entries m) = map_of es \<Longrightarrow> lru_abs m = map (\<lambda>k. (k, the (map_of es k))) (lm_lru m)"
  by (simp add: lru_abs_def)

lemma delete_key_set: "fst ` set (AList.delete k es) = fst ` set es - {k}"
  using arg_cong [OF AList.delete_keys [of k es], of set] by auto

lemma drop_last_inv:
  assumes "lru_inv m" and "lm_lru m \<noteq> []"
  defines "m' \<equiv> m\<lparr>lm_entries := AList.delete (last (lm_lru m)) (lm_entries m), lm_lru := butlast (lm_lru m)\<rparr>"
  shows "lru_inv m'" "lru_abs m' = butlast (lru_abs m)"
proof -
  obtain ks k where l: "lm_lru m = ks @ [k]" using assms(2) by (metis append_butlast_last_id)
  have k: "k \<notin> set ks" "distinct ks" using assms(1) by (auto simp: lru_inv_def l)
  have keys: "fst ` set (AList.delete k (lm_entries m)) = set ks"
    unfolding delete_key_set using assms(1) k(1) by (auto simp: lru_inv_def l)
  then show "lru_inv m'"
    using assms(1) k by (simp add: lru_inv_def m'_def l AList.distinct_delete)
  show "lru_abs m' = butlast (lru_abs m)"
    using k(1) by (auto simp: lru_abs_def m'_def l AList.delete_conv')
qed

lemma lru_evict_spec:
  assumes "lru_inv m"
  shows "\<exists>m'. lru_evict m = Some m' \<and> lru_inv m' \<and> lm_max m' = lm_max m \<and> length (lm_entries m') \<le> lm_max m \<and>
    lru_abs m' = take (lm_max m) (lru_abs m)"
  using assms
proof (induction m rule: lru_evict.induct)
  case (1 m)
  have len: "length (lru_abs m) = length (lm_entries m)" using lru_inv_length [OF 1(2)] by (simp add: lru_abs_def)
  show ?case
  proof (cases "length (lm_entries m) > lm_max m")
    case True
    then have ne: "lm_lru m \<noteq> []" using lru_inv_length [OF 1(2)] by auto
    then have "last (lm_lru m) \<in> fst ` set (lm_entries m)" using 1(2) by (auto simp: lru_inv_def)
    then have found: "map_of (lm_entries m) (last (lm_lru m)) \<noteq> None" by (simp add: map_of_eq_None_iff)
    let ?m = "m\<lparr>lm_entries := AList.delete (last (lm_lru m)) (lm_entries m), lm_lru := butlast (lm_lru m)\<rparr>"
    note d = drop_last_inv [OF 1(2) ne]
    obtain m' where "lru_evict ?m = Some m'" "lru_inv m'" "lm_max m' = lm_max m" "length (lm_entries m') \<le> lm_max m"
      "lru_abs m' = take (lm_max m) (lru_abs ?m)"
      using 1(1) [OF True _ d(1)] ne found by auto
    moreover have "lru_evict m = lru_evict ?m" using True ne found by (subst lru_evict.simps) auto
    ultimately show ?thesis using d(2) True len by (auto simp: take_butlast)
  next
    case False
    then show ?thesis using 1(2) len by (subst lru_evict.simps) simp
  qed
qed

lemma remove1_key: "distinct ks \<Longrightarrow> remove1 k ks = filter (\<lambda>x. x \<noteq> k) ks"
  by (induction ks) (auto intro!: filter_True [symmetric])

text \<open>Putting a key first with a value.\<close>

lemma to_front:
  assumes "lru_inv m" and m'_def: "m' = m\<lparr>lm_entries := AList.update k v (lm_entries m), lm_lru := k # remove1 k (lm_lru m)\<rparr>"
  shows "lru_inv m'" "lru_abs m' = (k, v) # without k (lru_abs m)"
proof -
  have d: "distinct (lm_lru m)" using assms(1) by (simp add: lru_inv_def)
  have "fst ` set (AList.update k v (lm_entries m)) = insert k (fst ` set (lm_entries m))"
    using AList.dom_update [of k v "lm_entries m"] by (simp add: dom_map_of_conv_image_fst)
  then show "lru_inv m'"
    using assms(1) d by (auto simp: lru_inv_def m'_def AList.distinct_update remove1_key)
  show "lru_abs m' = (k, v) # without k (lru_abs m)"
    using d by (auto simp: lru_abs_def m'_def without_def remove1_key update_conv' filter_map comp_def)
qed

lemma no_key: "lru_inv m \<Longrightarrow> map_of (lm_entries m) k = None \<Longrightarrow> k \<notin> set (lm_lru m)"
  by (auto simp: lru_inv_def map_of_eq_None_iff)

lemma lru_add_spec:
  assumes "lru_inv m"
  shows "\<exists>m'. lru_add k v m = Some m' \<and> lru_inv m' \<and> lm_max m' = lm_max m \<and> length (lm_entries m') \<le> lm_max m \<and>
    lru_abs m' = take (lm_max m) ((k, v) # without k (lru_abs m))"
proof -
  define m1 where "m1 = m\<lparr>lm_entries := AList.update k v (lm_entries m), lm_lru := k # remove1 k (lm_lru m)\<rparr>"
  have "lru_add k v m = lru_evict m1"
    using no_key [OF assms, of k] by (cases m) (auto simp: lru_add_def m1_def remove1_idem Let_def)
  moreover have "lm_max m1 = lm_max m" by (simp add: m1_def)
  ultimately show ?thesis using lru_evict_spec [of m1] to_front [OF assms m1_def] by simp
qed

lemma lru_find_spec:
  assumes "lru_inv m"
  shows "case map_of (lru_abs m) k of
      None \<Rightarrow> lru_find_ctx ctx k m = (False, None, m)
    | Some w \<Rightarrow> (let (r, w') = (case ctx of None \<Rightarrow> (True, w) | Some f \<Rightarrow> f w) in
        \<exists>m'. lru_find_ctx ctx k m = (r, Some w', m') \<and> lru_inv m' \<and> lm_max m' = lm_max m \<and> lru_abs m' = (k, w') # without k (lru_abs m))"
  using to_front [OF assms] unfolding lookup_abs [OF assms]
  by (auto simp: lru_find_ctx_def split_beta split: option.splits)

lemma lru_erase_spec:
  assumes "lru_inv m"
  shows "lru_inv (lru_erase k m) \<and> lm_max (lru_erase k m) = lm_max m \<and> lru_abs (lru_erase k m) = without k (lru_abs m)"
proof (cases "map_of (lm_entries m) k")
  case None
  then have "without k (lru_abs m) = lru_abs m"
    using no_key [OF assms] by (auto simp: without_def lru_abs_def filter_id_conv)
  then show ?thesis using None assms by (simp add: lru_erase_def)
next
  case (Some v)
  have d: "distinct (lm_lru m)" using assms by (simp add: lru_inv_def)
  have "lru_abs (lru_erase k m) = without k (lru_abs m)"
    using Some d by (auto simp: lru_erase_def lru_abs_def without_def remove1_key AList.delete_conv' filter_map comp_def)
  moreover have "lru_inv (lru_erase k m)"
    using Some assms d by (auto simp: lru_erase_def lru_inv_def AList.distinct_delete delete_key_set remove1_key)
  ultimately show ?thesis using Some by (simp add: lru_erase_def)
qed



end
