(* ===== verification/Quota.thy ===== *)
theory Quota
  imports Lru_Map Conf Rgw_Strings
begin

text \<open>
  Quotas (\<^verbatim>\<open>src/rgw/porting_quota.cc\<close>) and where their numbers come from: the statistics file of a bucket, which the
  command \<^verbatim>\<open>get_bucket_head\<close> (\<^verbatim>\<open>src/librados/RadosClient.cc\<close>) reads and encodes (\<^verbatim>\<open>src/cls/rgw/cls_rgw_types.h\<close>,
  \<^verbatim>\<open>cls_rgw_ops.h\<close>), and \<^verbatim>\<open>RGWRados::get_bucket_stats\<close> (\<^verbatim>\<open>porting_rados.cc\<close>), which decodes and adds them.  A bucket is
  given by its name, which is what its order compares.  The result of \<^verbatim>\<open>open_bucket_index\<close>, a return code and the
  objects of the index by shard, is an argument.  \<open>overrun\<close> is what a parser run that leaves its buffers makes of the
  statistics.  The theorem gives the decision of \<^verbatim>\<open>check_quota\<close> in terms of the statistics file.
\<close>

section \<open>The header of a bucket\<close>

record category_stats =
  cs_total_size :: uint64
  cs_total_size_rounded :: uint64
  cs_num_entries :: uint64

definition new_category_stats :: category_stats where
  "new_category_stats = \<lparr>cs_total_size = 0, cs_total_size_rounded = 0, cs_num_entries = 0\<rparr>"

definition enc_category_stats :: "category_stats \<Rightarrow> string" where
  "enc_category_stats c = encode_struct 2 2 (enc_u64 (cs_total_size c) @ enc_u64 (cs_total_size_rounded c) @ enc_u64 (cs_num_entries c))"

definition dec_category_stats :: "category_stats \<Rightarrow> category_stats decoder" where
  "dec_category_stats c0 =
     decode_struct_legacy 2 2 2 0 (\<lambda>struct_v.
       bind_dec dec_u64 (\<lambda>a. bind_dec dec_u64 (\<lambda>b. bind_dec dec_u64 (\<lambda>c.
         ret_dec \<lparr>cs_total_size = a, cs_total_size_rounded = b, cs_num_entries = c\<rparr>))))"

record dir_header =
  dh_stats :: "(nat \<times> category_stats) list"
  dh_tag_timeout :: uint64
  dh_ver :: uint64
  dh_master_ver :: uint64
  dh_max_marker :: string

definition new_dir_header :: dir_header where
  "new_dir_header = \<lparr>dh_stats = [], dh_tag_timeout = 0, dh_ver = 0, dh_master_ver = 0, dh_max_marker = []\<rparr>"

definition enc_dir_header :: "dir_header \<Rightarrow> string" where
  "enc_dir_header h =
     encode_struct 5 2 (enc_map enc_u8 enc_category_stats (dh_stats h) @ enc_u64 (dh_tag_timeout h) @ enc_u64 (dh_ver h) @
       enc_u64 (dh_master_ver h) @ enc_string (dh_max_marker h))"

definition dec_dir_header :: "dir_header \<Rightarrow> dir_header decoder" where
  "dec_dir_header h0 =
     decode_struct_legacy 3 2 2 0 (\<lambda>struct_v.
       bind_dec (dec_map dec_u8 dec_category_stats new_category_stats) (\<lambda>st.
       bind_dec (when_dec (struct_v > 2) dec_u64 0) (\<lambda>t.
       bind_dec (when_dec (struct_v \<ge> 4) dec_u64 0) (\<lambda>v.
       bind_dec (when_dec (struct_v \<ge> 4) dec_u64 (dh_master_ver h0)) (\<lambda>mv.
       bind_dec (when_dec (struct_v \<ge> 5) dec_string (dh_max_marker h0)) (\<lambda>mm.
         ret_dec \<lparr>dh_stats = st, dh_tag_timeout = t, dh_ver = v, dh_master_ver = mv, dh_max_marker = mm\<rparr>))))))"

text \<open>The directory with entries of any type, given by their encoder and decoder.\<close>

record 'e bucket_dir =
  bd_header :: dir_header
  bd_m :: "(string \<times> 'e) list"

definition enc_bucket_dir :: "('e \<Rightarrow> string) \<Rightarrow> 'e bucket_dir \<Rightarrow> string" where
  "enc_bucket_dir ee d = encode_struct 2 2 (enc_dir_header (bd_header d) @ enc_map enc_string ee (bd_m d))"

definition dec_bucket_dir :: "('e \<Rightarrow> 'e decoder) \<Rightarrow> 'e \<Rightarrow> dir_header \<Rightarrow> 'e bucket_dir decoder" where
  "dec_bucket_dir de new h0 =
     decode_struct_legacy 2 2 2 0 (\<lambda>struct_v.
       bind_dec (dec_dir_header h0) (\<lambda>h. bind_dec (dec_map dec_string de new) (\<lambda>m. ret_dec \<lparr>bd_header = h, bd_m = m\<rparr>)))"

record 'e cls_list_ret =
  cl_dir :: "'e bucket_dir"
  cl_is_truncated :: bool

definition enc_cls_list_ret :: "('e \<Rightarrow> string) \<Rightarrow> 'e cls_list_ret \<Rightarrow> string" where
  "enc_cls_list_ret ee l = encode_struct 2 2 (enc_bucket_dir ee (cl_dir l) @ enc_bool (cl_is_truncated l))"

definition dec_cls_list_ret :: "('e \<Rightarrow> 'e decoder) \<Rightarrow> 'e \<Rightarrow> 'e cls_list_ret decoder" where
  "dec_cls_list_ret de new =
     decode_struct_legacy 2 2 2 0 (\<lambda>struct_v.
       bind_dec (dec_bucket_dir de new new_dir_header) (\<lambda>d. bind_dec dec_bool (\<lambda>t. ret_dec \<lparr>cl_dir = d, cl_is_truncated = t\<rparr>)))"

section \<open>Statistics of a bucket\<close>

definition stat_path :: "string \<Rightarrow> string \<Rightarrow> string" where
  "stat_path root bucket = root @ ''/'' @ bucket @ ''/.bucket/stat''"

definition read_stat :: "sys_info \<Rightarrow> string option \<Rightarrow> sys_info" where
  "read_stat overrun file = (case parse_conf file (CHR '':'') si_get_params new_sys_info of None \<Rightarrow> overrun | Some (_, i) \<Rightarrow> i)"

text \<open>The branch \<^verbatim>\<open>get_bucket_head\<close> of \<^verbatim>\<open>mon_command\<close>.\<close>

definition get_bucket_head :: "('e \<Rightarrow> string) \<Rightarrow> sys_info \<Rightarrow> string option \<Rightarrow> string" where
  "get_bucket_head ee overrun file =
     (let info = read_stat overrun file;
          status = \<lparr>cs_total_size = si_total_size info, cs_total_size_rounded = si_total_size_rounded info,
                    cs_num_entries = si_num_entries info\<rparr>
      in enc_cls_list_ret ee \<lparr>cl_dir = \<lparr>bd_header = new_dir_header\<lparr>dh_stats := [(1, status)]\<rparr>, bd_m = []\<rparr>, cl_is_truncated = False\<rparr>)"

text \<open>\<^verbatim>\<open>cls_bucket_head\<close>: the headers by object name.  Every shard has an empty result already, so the one that was read is
  added under the key 1 only where there is no such shard; a decoder that throws is \<open>None\<close>.\<close>

definition cls_bucket_head :: "('e \<Rightarrow> 'e decoder) \<Rightarrow> 'e \<Rightarrow> int \<times> (int \<times> string) list \<Rightarrow> string \<Rightarrow> (int \<times> dir_header string_map) option" where
  "cls_bucket_head de new opened outbl =
     (let (r, oids) = opened in
      if r < 0 then Some (r, [])
      else case dec_cls_list_ret de new outbl of
        None \<Rightarrow> None
      | Some (l, _) \<Rightarrow>
          let results = map (\<lambda>(i, oid). (i, new_dir_header)) oids;
              results = (if map_get plain results 1 = None then map_set plain 1 (bd_header (cl_dir l)) results else results)
          in Some (0, fold (\<lambda>(i, h). smap_set (case map_get plain oids i of Some oid \<Rightarrow> oid | None \<Rightarrow> []) h) results []))"

record storage_stats =
  st_num_kb :: uint64
  st_num_kb_rounded :: uint64
  st_num_objects :: uint64

definition new_storage_stats :: storage_stats where
  "new_storage_stats = \<lparr>st_num_kb = 0, st_num_kb_rounded = 0, st_num_objects = 0\<rparr>"

definition add_stats :: "storage_stats \<Rightarrow> storage_stats \<Rightarrow> storage_stats" where
  "add_stats s t = \<lparr>st_num_kb = st_num_kb s + st_num_kb t, st_num_kb_rounded = st_num_kb_rounded s + st_num_kb_rounded t,
     st_num_objects = st_num_objects s + st_num_objects t\<rparr>"

definition category_storage :: "category_stats \<Rightarrow> storage_stats" where
  "category_storage c = \<lparr>st_num_kb = (cs_total_size c + 1023) div 1024, st_num_kb_rounded = (cs_total_size_rounded c + 1023) div 1024,
     st_num_objects = cs_num_entries c\<rparr>"

definition accumulate_raw_stats :: "dir_header \<Rightarrow> (nat \<times> storage_stats) list \<Rightarrow> (nat \<times> storage_stats) list" where
  "accumulate_raw_stats h stats =
     fold (\<lambda>(category, c) stats. map_set plain category
        (add_stats (case map_get plain stats category of Some s \<Rightarrow> s | None \<Rightarrow> new_storage_stats) (category_storage c)) stats)
       (dh_stats h) stats"

definition get_bucket_stats :: "('e \<Rightarrow> 'e decoder) \<Rightarrow> 'e \<Rightarrow> int \<times> (int \<times> string) list \<Rightarrow> string \<Rightarrow> (int \<times> (nat \<times> storage_stats) list) option" where
  "get_bucket_stats de new opened outbl =
     (case cls_bucket_head de new opened outbl of
        None \<Rightarrow> None
      | Some (r, headers) \<Rightarrow> if r < 0 then Some (r, []) else Some (0, fold (\<lambda>(oid, h). accumulate_raw_stats h) headers []))"

section \<open>The cache of statistics\<close>

text \<open>A time is its seconds and nanoseconds.\<close>

type_synonym utime = "nat \<times> nat"

definition utime_less :: "utime \<Rightarrow> utime \<Rightarrow> bool" where
  "utime_less a b \<longleftrightarrow> fst a < fst b \<or> (fst a = fst b \<and> snd a < snd b)"

record cache_stats =
  qc_stats :: storage_stats
  qc_expiration :: utime
  qc_async_refresh_time :: utime

definition can_use_cached_stats :: "quota_info \<Rightarrow> storage_stats \<Rightarrow> bool" where
  "can_use_cached_stats q st \<longleftrightarrow>
     \<not> (sint (max_size_kb q) \<ge> 0 \<and>
          st_num_kb_rounded st \<ge> (if sint (max_size_soft_threshold q) < 0 then 0 else max_size_soft_threshold q)) \<and>
     \<not> (sint (max_objects q) \<ge> 0 \<and>
          st_num_objects st \<ge> (if sint (max_objs_soft_threshold q) < 0 then 0 else max_objs_soft_threshold q))"

text \<open>\<^verbatim>\<open>async_refresh\<close> only marks the entry: the refresh itself is disabled.\<close>

definition stats_async_test_set :: "cache_stats \<Rightarrow> bool \<times> cache_stats" where
  "stats_async_test_set e = (if fst (qc_async_refresh_time e) = 0 then (False, e) else (True, e\<lparr>qc_async_refresh_time := (0, 0)\<rparr>))"

definition async_refresh :: "string \<Rightarrow> (string, cache_stats) lru_map \<Rightarrow> (string, cache_stats) lru_map" where
  "async_refresh key m = snd (snd (lru_find_and_update (Some stats_async_test_set) key m))"

definition set_stats :: "utime \<Rightarrow> string \<Rightarrow> storage_stats \<Rightarrow> (string, cache_stats) lru_map \<Rightarrow> (string, cache_stats) lru_map option" where
  "set_stats now key st m = lru_add key \<lparr>qc_stats = st, qc_expiration = now, qc_async_refresh_time = now\<rparr> m"

text \<open>\<^verbatim>\<open>get_stats\<close> with the readings of the clock, the check of the cache at hand, and what the storage answers: a code and
  the statistics, or \<open>None\<close> for an exception.  \<open>st0\<close> is the value of the result variable before.\<close>

definition get_stats :: "(nat \<Rightarrow> utime) \<Rightarrow> (storage_stats \<Rightarrow> bool) \<Rightarrow> string \<Rightarrow> storage_stats \<Rightarrow> (int \<times> storage_stats) option \<Rightarrow>
    (string, cache_stats) lru_map \<Rightarrow> (int \<times> storage_stats \<times> (string, cache_stats) lru_map) option" where
  "get_stats clock usable key st0 fetched m =
     (let (found, qs, m) = lru_find key m;
          m = (case qs of
                 Some q \<Rightarrow> if fst (qc_async_refresh_time q) > 0 \<and> \<not> utime_less (clock 0) (qc_async_refresh_time q) then async_refresh key m else m
               | None \<Rightarrow> m)
      in case (case qs of Some q \<Rightarrow> if usable (qc_stats q) \<and> utime_less (clock 1) (qc_expiration q) then Some (qc_stats q) else None | None \<Rightarrow> None) of
           Some st \<Rightarrow> Some (0, st, m)
         | None \<Rightarrow>
             (case fetched of
                None \<Rightarrow> None
              | Some (ret, st) \<Rightarrow>
                  if ret < 0 \<and> ret \<noteq> - ENOENT then Some (ret, st, m)
                  else map_option (\<lambda>m. (0, st, m)) (set_stats (clock 2) key st m)))"

text \<open>\<^verbatim>\<open>RGWBucketStatsCache::fetch_stats_from_storage\<close>, and that of the user, which leaves the statistics as they are.\<close>

definition fetch_bucket_stats :: "storage_stats \<Rightarrow> (int \<times> (nat \<times> storage_stats) list) option \<Rightarrow> (int \<times> storage_stats) option" where
  "fetch_bucket_stats st0 bucket_stats =
     map_option (\<lambda>(r, m). if r < 0 then (r, st0) else (0, fold (\<lambda>(c, s) st. add_stats st s) m new_storage_stats)) bucket_stats"

definition fetch_user_stats :: "storage_stats \<Rightarrow> (int \<times> storage_stats) option" where
  "fetch_user_stats st0 = Some (0, st0)"

section \<open>The decision\<close>

abbreviation (input) ERR_QUOTA_EXCEEDED :: int where "ERR_QUOTA_EXCEEDED \<equiv> 2026"

definition check_quota :: "quota_info \<Rightarrow> storage_stats \<Rightarrow> uint64 \<Rightarrow> uint64 \<Rightarrow> int" where
  "check_quota q st num_objs size_kb =
     (if \<not> quota_enabled q then 0
      else if sint (max_objects q) \<ge> 0 \<and> st_num_objects st + num_objs > max_objects q then - ERR_QUOTA_EXCEEDED
      else if sint (max_size_kb q) \<ge> 0 \<and> st_num_kb_rounded st + size_kb > max_size_kb q then - ERR_QUOTA_EXCEEDED
      else 0)"

record quota_handler =
  qh_bucket_stats_cache :: "(string, cache_stats) lru_map"
  qh_user_stats_cache :: "(string, cache_stats) lru_map"
  qh_def_bucket_quota :: quota_info
  qh_def_user_quota :: quota_info

definition default_quota :: "int \<Rightarrow> int \<Rightarrow> quota_info" where
  "default_quota objects kb =
     (let q = (if objects \<ge> 0 then new_quota\<lparr>max_objects := word_of_int objects, quota_enabled := True\<rparr> else new_quota)
      in if kb \<ge> 0 then q\<lparr>max_size_kb := word_of_int kb, quota_enabled := True\<rparr> else q)"

text \<open>The constructor: the caches have room for no entry.\<close>

definition generate_handler :: "globals \<Rightarrow> quota_handler" where
  "generate_handler g =
     \<lparr>qh_bucket_stats_cache = new_lru_map 0, qh_user_stats_cache = new_lru_map 0,
      qh_def_bucket_quota = default_quota (g_bucket_default_quota_max_objects g) (g_bucket_default_quota_max_size g),
      qh_def_user_quota = default_quota (g_user_default_quota_max_objects g) (g_user_default_quota_max_size g)\<rparr>"

text \<open>\<^verbatim>\<open>RGWQuotaHandlerImpl::check_quota\<close>; the clock is read up to three times for each cache.\<close>

definition handler_check_quota :: "(nat \<Rightarrow> utime) \<Rightarrow> (int \<times> (nat \<times> storage_stats) list) option \<Rightarrow> string \<Rightarrow> string \<Rightarrow> quota_info \<Rightarrow> quota_info \<Rightarrow>
    uint64 \<Rightarrow> uint64 \<Rightarrow> quota_handler \<Rightarrow> (int \<times> quota_handler) option" where
  "handler_check_quota clock bucket_stats user bucket uq bq num_objs obj_size h =
     (if \<not> quota_enabled bq \<and> \<not> quota_enabled uq \<and> \<not> quota_enabled (qh_def_bucket_quota h) \<and>
         \<not> quota_enabled (qh_def_user_quota h) then Some (0, h)
      else
        let size_kb = rgw_rounded_objsize_kb obj_size in
        case get_stats clock (can_use_cached_stats bq) bucket new_storage_stats
               (fetch_bucket_stats new_storage_stats bucket_stats) (qh_bucket_stats_cache h) of
          None \<Rightarrow> None
        | Some (ret, stats, m) \<Rightarrow>
            let h = h\<lparr>qh_bucket_stats_cache := m\<rparr> in
            if ret < 0 then Some (ret, h)
            else if check_quota bq stats num_objs size_kb < 0 then Some (check_quota bq stats num_objs size_kb, h)
            else if check_quota (qh_def_bucket_quota h) stats num_objs size_kb < 0
            then Some (check_quota (qh_def_bucket_quota h) stats num_objs size_kb, h)
            else if quota_enabled uq \<or> quota_enabled (qh_def_user_quota h) then
              (case get_stats (\<lambda>i. clock (i + 3)) (\<lambda>_. True) user new_storage_stats (fetch_user_stats new_storage_stats) (qh_user_stats_cache h) of
                 None \<Rightarrow> None
               | Some (ret, user_stats, m) \<Rightarrow>
                   let h = h\<lparr>qh_user_stats_cache := m\<rparr> in
                   if ret < 0 then Some (ret, h)
                   else Some (check_quota (if quota_enabled uq then uq else qh_def_user_quota h) user_stats num_objs size_kb, h))
            else Some (0, h))"

section \<open>The header is read back\<close>

lemma dec_category_stats_enc [simp, codec_simps]: "dec_category_stats c0 (enc_category_stats c @ bl) = Some (c, bl)"
  unfolding dec_category_stats_def enc_category_stats_def by (rule decode_struct_legacy_ok) simp_all

interpretation cat_stats: codec enc_category_stats "dec_category_stats c0" "\<lambda>_. True" for c0
  by (rule codec.intro) (simp, simp add: enc_category_stats_def)

interpretation cat_map: map_codec enc_u8 dec_u8 "\<lambda>n. n < 256" enc_category_stats dec_category_stats "\<lambda>_. True"
  by unfold_locales

definition dir_header_ok :: "dir_header \<Rightarrow> bool" where
  "dir_header_ok h \<longleftrightarrow> ordered_map plain (dh_stats h) \<and> entries_ok (\<lambda>n. n < 256) (\<lambda>_. True) (dh_stats h) \<and> short (dh_max_marker h)"

lemma dec_dir_header_enc:
  "dir_header_ok h \<Longrightarrow> length (enc_dir_header h) < size_limit \<Longrightarrow> dec_dir_header h0 (enc_dir_header h @ bl) = Some (h, bl)"
  unfolding dec_dir_header_def enc_dir_header_def
  by (drule encode_struct_payload, rule decode_struct_legacy_ok)
    (simp_all add: dir_header_ok_def codec.roundtrip [OF cat_map.map_codec])

interpretation header: codec enc_dir_header "dec_dir_header h0" dir_header_ok for h0
  by (rule codec.intro) (erule (1) dec_dir_header_enc, simp add: enc_dir_header_def)

lemma dec_cls_list_ret_enc:
  assumes "\<And>old. codec ee (de old) eok"
    and "dir_header_ok (bd_header (cl_dir l))" "ordered_map plain (bd_m (cl_dir l))" "entries_ok short eok (bd_m (cl_dir l))"
    and "length (enc_cls_list_ret ee l) < size_limit"
  shows "dec_cls_list_ret de new (enc_cls_list_ret ee l @ bl) = Some (l, bl)"
proof -
  have m: "map_codec enc_string dec_string short ee de eok"
    by (intro map_codec.intro map_codec_axioms.intro assms(1)) unfold_locales
  have len: "length (enc_bucket_dir ee (cl_dir l) @ enc_bool (cl_is_truncated l)) < size_limit"
    using assms(5) unfolding enc_cls_list_ret_def by (rule encode_struct_payload)
  then have "length (enc_dir_header (bd_header (cl_dir l)) @ enc_map enc_string ee (bd_m (cl_dir l))) < size_limit"
    by (simp add: enc_bucket_dir_def length_encode_struct)
  then have dir: "dec_bucket_dir de new new_dir_header (enc_bucket_dir ee (cl_dir l) @ bl) = Some (cl_dir l, bl)" for bl
    using assms(2-4) unfolding dec_bucket_dir_def enc_bucket_dir_def
    by (intro decode_struct_legacy_ok) (simp_all add: dec_dir_header_enc codec.roundtrip [OF map_codec.map_codec [OF m]])
  show ?thesis using len unfolding dec_cls_list_ret_def enc_cls_list_ret_def
    by (intro decode_struct_legacy_ok) (simp_all add: dir)
qed

text \<open>The statistics of a bucket whose index has one object are those of its file.\<close>

definition stat_storage :: "sys_info \<Rightarrow> storage_stats" where
  "stat_storage i = \<lparr>st_num_kb = (si_total_size i + 1023) div 1024, st_num_kb_rounded = (si_total_size_rounded i + 1023) div 1024,
     st_num_objects = si_num_entries i\<rparr>"

lemma unsharded_stats:
  fixes ee :: "'e \<Rightarrow> string"
  assumes "\<And>old. codec ee (de old) eok" and "oid \<noteq> []"
  shows "get_bucket_stats de new (0, [(0, oid)]) (get_bucket_head ee overrun file) = Some (0, [(1, stat_storage (read_stat overrun file))])"
proof -
  let ?i = "read_stat overrun file"
  define c where "c = \<lparr>cs_total_size = si_total_size ?i, cs_total_size_rounded = si_total_size_rounded ?i, cs_num_entries = si_num_entries ?i\<rparr>"
  define hd1 where "hd1 = new_dir_header\<lparr>dh_stats := [(1, c)]\<rparr>"
  define l :: "'e cls_list_ret" where "l = \<lparr>cl_dir = \<lparr>bd_header = hd1, bd_m = []\<rparr>, cl_is_truncated = False\<rparr>"
  have bytes: "get_bucket_head ee overrun file = enc_cls_list_ret ee l"
    by (simp add: get_bucket_head_def l_def hd1_def c_def Let_def)
  have "dir_header_ok (bd_header (cl_dir l))" "ordered_map plain (bd_m (cl_dir l))" "entries_ok short eok (bd_m (cl_dir l))"
    by (simp_all add: dir_header_ok_def l_def hd1_def new_dir_header_def ordered_map_def entries_ok_def short_def)
  moreover have "length (enc_cls_list_ret ee l) < size_limit"
    by (simp add: enc_cls_list_ret_def enc_bucket_dir_def enc_dir_header_def length_encode_struct l_def hd1_def new_dir_header_def
        enc_map_def enc_count_def enc_pair_def enc_category_stats_def enc_string_def)
  ultimately have "dec_cls_list_ret de new (enc_cls_list_ret ee l) = Some (l, [])"
    using dec_cls_list_ret_enc [OF assms(1), where l = l and new = new and bl = "[]"] by simp
  then show ?thesis
    using assms(2) unfolding bytes
    by (simp add: get_bucket_stats_def cls_bucket_head_def Let_def l_def hd1_def accumulate_raw_stats_def new_dir_header_def
        category_storage_def stat_storage_def c_def add_stats_def new_storage_stats_def map_get_def)
qed

section \<open>The decision in terms of the file\<close>

definition within_quota :: "quota_info \<Rightarrow> storage_stats \<Rightarrow> uint64 \<Rightarrow> uint64 \<Rightarrow> bool" where
  "within_quota q st num_objs size_kb \<longleftrightarrow>
     \<not> quota_enabled q \<or>
     (sint (max_objects q) < 0 \<or> st_num_objects st + num_objs \<le> max_objects q) \<and>
     (sint (max_size_kb q) < 0 \<or> st_num_kb_rounded st + size_kb \<le> max_size_kb q)"

lemma check_quota_eq: "check_quota q st n kb = (if within_quota q st n kb then 0 else - ERR_QUOTA_EXCEEDED)"
  by (auto simp: check_quota_def within_quota_def not_less)

lemma lru_add_no_room: "lru_add k v (new_lru_map 0) = Some (new_lru_map 0)"
  by (simp add: lru_add_def new_lru_map_def lru_evict.simps [of "\<lparr>lm_entries = [(k, v)], lm_lru = [k], lm_max = 0\<rparr>"]
      lru_evict.simps [of "\<lparr>lm_entries = [], lm_lru = [], lm_max = 0\<rparr>"])

lemma lru_find_none: "lru_find key (new_lru_map 0) = (False, None, new_lru_map 0)"
  by (simp add: lru_find_def lru_find_ctx_def new_lru_map_def)

lemma get_stats_no_room:
  "get_stats clock usable key st0 (Some (0, st)) (new_lru_map 0) = Some (0, st, new_lru_map 0)"
  by (simp add: get_stats_def lru_find_none set_stats_def lru_add_no_room)

text \<open>C7: The caches of the quota handler never hold anything, so every decision is made on the bucket's statistics file as it
  is: a new object is refused exactly when it would exceed the bucket's quota or the default one by number or by
  rounded size.  The quota of the user is compared with the new object alone: what the user has stored before
  is never counted.\<close>

theorem quota_decision:
  assumes "\<And>old. codec ee (de old) eok" and "oid \<noteq> []"
    and "qh_bucket_stats_cache h = new_lru_map 0" and "qh_user_stats_cache h = new_lru_map 0"
  shows "handler_check_quota clock (get_bucket_stats de new (0, [(0, oid)]) (get_bucket_head ee overrun stat_file)) user bucket uq bq n obj_size h =
    Some (if within_quota bq (stat_storage (read_stat overrun stat_file)) n (rgw_rounded_objsize_kb obj_size) \<and>
             within_quota (qh_def_bucket_quota h) (stat_storage (read_stat overrun stat_file)) n (rgw_rounded_objsize_kb obj_size) \<and>
             within_quota (if quota_enabled uq then uq else qh_def_user_quota h) new_storage_stats n (rgw_rounded_objsize_kb obj_size)
          then 0 else - ERR_QUOTA_EXCEEDED, h)"
proof -
  have fetched: "fetch_bucket_stats st0 (get_bucket_stats de new (0, [(0, oid)]) (get_bucket_head ee overrun stat_file)) =
      Some (0, stat_storage (read_stat overrun stat_file))" for st0
    unfolding unsharded_stats [OF assms(1,2)]
    by (simp add: fetch_bucket_stats_def add_stats_def new_storage_stats_def stat_storage_def)
  have same: "h\<lparr>qh_bucket_stats_cache := new_lru_map 0\<rparr> = h" "h\<lparr>qh_user_stats_cache := new_lru_map 0\<rparr> = h"
    using assms(3,4) by (metis quota_handler.surjective quota_handler.update_convs(1,2))+
  show ?thesis
    unfolding handler_check_quota_def fetched fetch_user_stats_def assms(3) get_stats_no_room
    by (auto simp: Let_def same assms(4) get_stats_no_room check_quota_eq) (auto simp: within_quota_def)
qed

theorem quota_decision_witness:
  "handler_check_quota (\<lambda>_. (0, 0)) (get_bucket_stats (\<lambda>_. dec_string) [] (0, [(0, ''.dir'')])
       (get_bucket_head enc_string new_sys_info (Some (''num_entries:1'' @ [LF])))) ''u'' ''b'' new_quota
       (new_quota\<lparr>max_objects := 1, quota_enabled := True\<rparr>) 1 100 (generate_handler globals_init) =
     Some (- ERR_QUOTA_EXCEEDED, generate_handler globals_init)"
proof -
  have read: "read_stat new_sys_info (Some (''num_entries:1'' @ [LF])) = new_sys_info\<lparr>si_num_entries := 1\<rparr>" by code_simp
  have "codec enc_string ((\<lambda>_. dec_string) old) short" for old :: string by unfold_locales
  note d = quota_decision [OF this, where oid = "''.dir''" and h = "generate_handler globals_init" and
      stat_file = "Some (''num_entries:1'' @ [LF])" and overrun = new_sys_info, unfolded read]
  have "\<not> within_quota (new_quota\<lparr>max_objects := 1, quota_enabled := True\<rparr>) (stat_storage (new_sys_info\<lparr>si_num_entries := 1\<rparr>)) 1 kb" for kb
    by (simp add: within_quota_def new_quota_def stat_storage_def word_le_nat_alt)
  then show ?thesis by (subst d) (simp_all add: generate_handler_def)
qed

end
