(* ===== verification/File_Sys.thy ===== *)
theory File_Sys
  imports Quota
begin

text \<open>
  The files behind the gateway.  The operating system is a parameter: the record \<open>os\<close> has what the kernel
  decides (how a path is resolved, which access is permitted, how many bytes one \<^verbatim>\<open>read\<close> or
  \<^verbatim>\<open>write\<close> transfers, what a shell command prints and does), the record \<open>os_state\<close> the files by resolved path
  and the file-system user id of the thread.  On top of it are the helpers of the sources: \<^verbatim>\<open>safe_read\<close> and
  \<^verbatim>\<open>safe_pread\<close> (\<^verbatim>\<open>src/common/safe_io.c\<close>), \<^verbatim>\<open>bufferlist::read_fd\<close> and \<^verbatim>\<open>pread_fd\<close>
  (\<^verbatim>\<open>src/common/buffer.cc\<close>), \<^verbatim>\<open>drop_privs\<close> (\<^verbatim>\<open>porting_common.cc\<close>), the shell
  (\<^verbatim>\<open>src/common/shell.cc\<close>), the command \<^verbatim>\<open>rm\<close> (\<^verbatim>\<open>src/librados/RadosClient.cc\<close>) and the statistics file of a bucket.
  Files do not change while a request reads them.  Results are \<open>None\<close> where the source writes or reads outside a buffer.
\<close>

section \<open>System calls\<close>

abbreviation (input) EISDIR :: int where "EISDIR \<equiv> 21"

datatype inode = Regular nat string | Directory int

type_synonym filesys = "string \<rightharpoonup> inode"

datatype os_access = MayStat | MayRead | MayWrite | MayChmod

record os =
  os_resolve :: "string \<Rightarrow> string"
  os_may :: "32 word \<Rightarrow> os_access \<Rightarrow> string \<Rightarrow> filesys \<Rightarrow> bool"
  os_read :: "nat \<Rightarrow> string \<Rightarrow> nat"
  os_write :: "string \<Rightarrow> string \<Rightarrow> int"
  os_setfsuid :: "32 word \<Rightarrow> 32 word \<Rightarrow> 32 word"
  os_popen :: "string \<Rightarrow> filesys \<Rightarrow> (string \<times> int \<times> filesys) option"
  os_rename :: "32 word \<Rightarrow> string \<Rightarrow> string \<Rightarrow> filesys \<Rightarrow> int + filesys"
  os_new_mode :: nat
  os_junk_mode :: nat

record os_state =
  os_files :: filesys
  os_fsuid :: "32 word"

definition inode_size :: "inode \<Rightarrow> int" where
  "inode_size node = (case node of Regular m d \<Rightarrow> int (length d) | Directory n \<Rightarrow> n)"

definition sys_stat :: "os \<Rightarrow> string \<Rightarrow> os_state \<Rightarrow> int option" where
  "sys_stat os path st =
     (if os_may os (os_fsuid st) MayStat (os_resolve os path) (os_files st) then map_option inode_size (os_files st (os_resolve os path)) else None)"

definition sys_open_read :: "os \<Rightarrow> string \<Rightarrow> os_state \<Rightarrow> inode option" where
  "sys_open_read os path st =
     (if os_may os (os_fsuid st) MayRead (os_resolve os path) (os_files st) then os_files st (os_resolve os path) else None)"

text \<open>Opening for writing with \<^verbatim>\<open>O_CREAT\<close>, and with \<^verbatim>\<open>O_TRUNC\<close> or not; \<open>mode\<close> is that of a new file.\<close>

definition sys_open_write :: "os \<Rightarrow> nat \<Rightarrow> bool \<Rightarrow> string \<Rightarrow> os_state \<Rightarrow> os_state option" where
  "sys_open_write os mode trunc path st =
     (let p = os_resolve os path in
      if \<not> os_may os (os_fsuid st) MayWrite p (os_files st) then None
      else case os_files st p of
        Some (Directory n) \<Rightarrow> None
      | Some (Regular m d) \<Rightarrow> Some (st\<lparr>os_files := (os_files st)(p \<mapsto> Regular m (if trunc then [] else d))\<rparr>)
      | None \<Rightarrow> Some (st\<lparr>os_files := (os_files st)(p \<mapsto> Regular mode [])\<rparr>))"

definition sys_chmod :: "os \<Rightarrow> nat \<Rightarrow> string \<Rightarrow> os_state \<Rightarrow> os_state" where
  "sys_chmod os mode path st =
     (let p = os_resolve os path in
      if \<not> os_may os (os_fsuid st) MayChmod p (os_files st) then st
      else case os_files st p of
        Some (Regular m d) \<Rightarrow> st\<lparr>os_files := (os_files st)(p \<mapsto> Regular mode d)\<rparr>
      | _ \<Rightarrow> st)"

text \<open>A \<^verbatim>\<open>write\<close> at the end of an open file, with the number of bytes the kernel took or its error.\<close>

definition sys_write :: "os \<Rightarrow> string \<Rightarrow> string \<Rightarrow> os_state \<Rightarrow> int \<times> os_state" where
  "sys_write os path data st =
     (case os_files st (os_resolve os path) of
        Some (Regular m d) \<Rightarrow>
          let r = os_write os data d in
          (r, if r < 0 then st else st\<lparr>os_files := (os_files st)(os_resolve os path \<mapsto> Regular m (d @ take (nat r) data))\<rparr>)
      | _ \<Rightarrow> (- EIO, st))"

text \<open>The documented behaviour of the calls on a local file system: a \<^verbatim>\<open>read\<close> gives at least one byte before the end of
  the file, a \<^verbatim>\<open>write\<close> takes all bytes, and a privileged thread may set its user id.\<close>

definition os_reads :: "os \<Rightarrow> bool" where
  "os_reads os \<longleftrightarrow> (\<forall>n rest. 0 < n \<longrightarrow> rest \<noteq> [] \<longrightarrow> 0 < os_read os n rest)"

definition os_writes :: "os \<Rightarrow> bool" where
  "os_writes os \<longleftrightarrow> (\<forall>data d. os_write os data d = int (length data))"

definition os_privileged :: "os \<Rightarrow> bool" where
  "os_privileged os \<longleftrightarrow> (\<forall>old uid. os_setfsuid os old uid = uid)"

section \<open>Helpers of the sources\<close>

text \<open>\<^verbatim>\<open>safe_read\<close> and \<^verbatim>\<open>safe_pread\<close> on the rest of a file: the bytes they store.\<close>

function safe_read :: "os \<Rightarrow> nat \<Rightarrow> string \<Rightarrow> string" where
  "safe_read os count rest =
     (let r = min (os_read os count rest) (min count (length rest)) in
      if r = 0 then [] else take r rest @ safe_read os (count - r) (drop r rest))"
  by pat_completeness auto

termination safe_read
  by (relation "measure (\<lambda>(os, count, rest). count)") (auto simp: min_def split: if_splits)

declare safe_read.simps [simp del]

definition CEPH_BUFFER_APPEND_SIZE :: uint64 where
  "CEPH_BUFFER_APPEND_SIZE = 4096"

definition round_up_to :: "uint64 \<Rightarrow> uint64 \<Rightarrow> uint64" where
  "round_up_to n d = (if n mod d \<noteq> 0 then n + d - n mod d else n)"

text \<open>The size of the buffer is computed as an \<^verbatim>\<open>int\<close>.\<close>

definition fd_buffer_size :: "uint64 \<Rightarrow> nat" where
  "fd_buffer_size len = unat (ucast (round_up_to len CEPH_BUFFER_APPEND_SIZE) :: 32 word)"

definition store_read :: "uint64 \<Rightarrow> string \<Rightarrow> (int \<times> string) option" where
  "store_read len bytes = (if length bytes > fd_buffer_size len then None else Some (int (length bytes), bytes))"

definition read_fd :: "os \<Rightarrow> uint64 \<Rightarrow> inode \<Rightarrow> nat \<Rightarrow> (int \<times> string) option" where
  "read_fd os len node pos =
     (case node of
        Directory n \<Rightarrow> Some (if len = 0 then 0 else - EISDIR, [])
      | Regular m d \<Rightarrow> store_read len (safe_read os (unat len) (drop pos d)))"

definition pread_fd :: "os \<Rightarrow> uint64 \<Rightarrow> int \<Rightarrow> inode \<Rightarrow> (int \<times> string) option" where
  "pread_fd os len ofs node =
     (if len = 0 then Some (0, [])
      else if ofs < 0 then Some (- EINVAL, [])
      else case node of
        Directory n \<Rightarrow> Some (- EISDIR, [])
      | Regular m d \<Rightarrow> store_read len (safe_read os (unat len) (drop (nat ofs) d)))"

text \<open>\<^verbatim>\<open>setfsuid\<close> returns the previous id.\<close>

definition drop_privs :: "os \<Rightarrow> uint64 \<Rightarrow> os_state \<Rightarrow> 32 word \<times> os_state" where
  "drop_privs os new_uid st = (os_fsuid st, st\<lparr>os_fsuid := os_setfsuid os (os_fsuid st) (ucast new_uid)\<rparr>)"

definition restore_privs :: "os \<Rightarrow> 32 word \<Rightarrow> os_state \<Rightarrow> os_state" where
  "restore_privs os old_uid st = st\<lparr>os_fsuid := os_setfsuid os (os_fsuid st) old_uid\<rparr>"

text \<open>\<^verbatim>\<open>shell_execute\<close> has a buffer of 512 bytes, which 512 bytes of output leave without a terminator.\<close>

definition shell_execute :: "os \<Rightarrow> string \<Rightarrow> os_state \<Rightarrow> (string \<times> os_state) option" where
  "shell_execute os cmd st =
     (case os_popen os cmd (os_files st) of
        None \<Rightarrow> Some ([], st)
      | Some (out, code, files) \<Rightarrow>
          if 512 \<le> length out \<and> NUL \<notin> set (take 512 out) then None
          else Some (c_str (take 512 out), st\<lparr>os_files := files\<rparr>))"

definition shell_simple :: "os \<Rightarrow> string \<Rightarrow> os_state \<Rightarrow> int \<times> os_state" where
  "shell_simple os cmd st =
     (case os_popen os cmd (os_files st) of
        None \<Rightarrow> (- 2, st)
      | Some (out, code, files) \<Rightarrow> (code, st\<lparr>os_files := files\<rparr>))"

text \<open>The branch \<^verbatim>\<open>rm\<close> of \<^verbatim>\<open>mon_command\<close> with its buffer of 256 bytes.\<close>

definition rm_command :: "string \<Rightarrow> string" where
  "rm_command path = ''rm '' @ c_str path @ '' -rf''"

definition mon_command_rm :: "os \<Rightarrow> string \<Rightarrow> os_state \<Rightarrow> (int \<times> os_state) option" where
  "mon_command_rm os path st =
     (if length (rm_command path) \<ge> 256 then None else Some (0, snd (shell_simple os (rm_command path) st)))"

section \<open>The statistics file of a bucket\<close>

definition fopen_read :: "os \<Rightarrow> string \<Rightarrow> os_state \<Rightarrow> string option" where
  "fopen_read os path st = map_option (\<lambda>n. case n of Regular m d \<Rightarrow> d | Directory k \<Rightarrow> []) (sys_open_read os path st)"

text \<open>\<^verbatim>\<open>sync_stat\<close> on the file; it does nothing where the file cannot be opened.\<close>

definition sync_stat_file :: "os \<Rightarrow> sys_info \<Rightarrow> os_state \<Rightarrow> os_state" where
  "sync_stat_file os i st =
     (case sys_open_write os (os_new_mode os) True (c_str (si_file i)) st of
        None \<Rightarrow> st
      | Some st \<Rightarrow> snd (sys_write os (c_str (si_file i)) (sync_stat i) st))"

text \<open>What \<^verbatim>\<open>RGWPutObj::execute\<close> and \<^verbatim>\<open>RGWDeleteObj::execute\<close> do with the file: read it, change the
  counters, write it.\<close>

definition update_stat :: "os \<Rightarrow> string \<Rightarrow> uint64 \<Rightarrow> uint64 \<Rightarrow> os_state \<Rightarrow> os_state option" where
  "update_stat os path entries bytes st =
     (case parse_conf (fopen_read os (c_str path) st) (CHR '':'') si_get_params (new_sys_info\<lparr>si_file := path\<rparr>) of
        None \<Rightarrow> None
      | Some (r, i) \<Rightarrow>
          Some (sync_stat_file os (i\<lparr>si_num_entries := si_num_entries i + entries, si_total_size := si_total_size i + bytes\<rparr>) st))"

section \<open>Reading whole files\<close>

lemma safe_read_take: "os_reads os \<Longrightarrow> safe_read os n rest = take n rest"
proof (induction n arbitrary: rest rule: less_induct)
  case (less n)
  define r where "r = min (os_read os n rest) (min n (length rest))"
  show ?case
  proof (cases "r = 0")
    case True
    then have "n = 0 \<or> rest = []" using less.prems by (fastforce simp: r_def os_reads_def min_def split: if_splits)
    with True show ?thesis by (subst safe_read.simps) (auto simp: r_def Let_def)
  next
    case False
    then have "safe_read os (n - r) (drop r rest) = take (n - r) (drop r rest)"
      using less.prems by (intro less.IH) (auto simp: r_def)
    moreover have "safe_read os n rest = take r rest @ safe_read os (n - r) (drop r rest)"
      using False by (subst safe_read.simps) (simp only: r_def [symmetric] Let_def if_False)
    moreover have "take r rest @ take (n - r) (drop r rest) = take n rest"
      using take_add [of r "n - r" rest] by (simp add: r_def min_def split: if_splits)
    ultimately show ?thesis by simp
  qed
qed

lemma unat_round_up:
  assumes "unat len < 2 ^ 32 - 4096"
  shows "unat len \<le> unat (round_up_to len 4096)" "unat (round_up_to len 4096) < 2 ^ 32"
proof -
  have m: "unat (len mod 4096) = unat len mod 4096" by (simp add: unat_mod_distrib)
  have "unat len mod 4096 < 4096" by simp
  moreover have "unat (len + 4096) = unat len + 4096" using assms by (simp add: unat_add_lem [THEN iffD1])
  moreover from this have "unat (len + 4096 - len mod 4096) = unat len + 4096 - unat len mod 4096"
    using m by (subst unat_sub) (simp_all add: word_le_nat_alt trans_le_add2)
  ultimately show "unat len \<le> unat (round_up_to len 4096)" "unat (round_up_to len 4096) < 2 ^ 32"
    using assms by (auto simp: round_up_to_def)
qed

lemma fd_buffer_size_le: "unat len < 2 ^ 32 - 4096 \<Longrightarrow> unat len \<le> fd_buffer_size len"
  using unat_round_up [of len] unfolding fd_buffer_size_def CEPH_BUFFER_APPEND_SIZE_def
  by (simp add: unsigned_ucast_eq take_bit_nat_eq_self)

lemma store_read_fits: "unat len < 2 ^ 32 - 4096 \<Longrightarrow> length bytes \<le> unat len \<Longrightarrow> store_read len bytes = Some (int (length bytes), bytes)"
  using fd_buffer_size_le [of len] by (simp add: store_read_def)

lemma read_fd_take:
  "os_reads os \<Longrightarrow> unat len < 2 ^ 32 - 4096 \<Longrightarrow>
     read_fd os len (Regular m d) pos = Some (int (length (take (unat len) (drop pos d))), take (unat len) (drop pos d))"
  by (simp add: read_fd_def safe_read_take store_read_fits)

lemma pread_fd_take:
  "os_reads os \<Longrightarrow> unat len < 2 ^ 32 - 4096 \<Longrightarrow> 0 \<le> ofs \<Longrightarrow>
     pread_fd os len ofs (Regular m d) = Some (int (length (take (unat len) (drop (nat ofs) d))), take (unat len) (drop (nat ofs) d))"
  by (cases "len = 0") (simp_all add: pread_fd_def safe_read_take store_read_fits)

end
