(* ===== verification/Policies.thy ===== *)
theory Policies
  imports Response File_Sys
begin

text \<open>
  How the bucket of a request and the access policies are found: \<^verbatim>\<open>get_bucket_info\<close> of \<^verbatim>\<open>src/rgw/porting_rados.cc\<close>
  with the entry point of a bucket, \<^verbatim>\<open>RGWMPObj\<close>, \<^verbatim>\<open>rgw_build_policies\<close> and what it calls in \<^verbatim>\<open>src/rgw/porting_op.cc\<close>, and
  \<^verbatim>\<open>RGWHandler_ObjStore::read_permissions\<close>.  A bucket is a directory: the shell is asked whether it exists, and its owner is
  that of the directory.  The member \<^verbatim>\<open>oid\<close> of a bucket and the data that is read ahead of an object, which nothing
  reads later, are left out.  The theorem shows which requests pass: the policy of the bucket or object is never read from
  the store.
\<close>

abbreviation (input) ENODATA :: int where "ENODATA \<equiv> 61"
abbreviation (input) ERR_USER_SUSPENDED :: int where "ERR_USER_SUSPENDED \<equiv> 2100"

section \<open>The entry point of a bucket\<close>

record entry_point =
  ep_bucket :: rgw_bucket
  ep_owner :: string
  ep_creation_time :: uint64
  ep_linked :: bool
  ep_has_bucket_info :: bool
  ep_old_bucket_info :: bucket_info

definition new_entry_point :: entry_point where
  "new_entry_point = \<lparr>ep_bucket = new_bucket, ep_owner = [], ep_creation_time = 0, ep_linked = False, ep_has_bucket_info = False,
     ep_old_bucket_info = new_bucket_info\<rparr>"

definition enc_entry_point :: "entry_point \<Rightarrow> string" where
  "enc_entry_point e =
     encode_struct 8 8 (enc_rgw_bucket (ep_bucket e) @ enc_string (ep_owner e) @ enc_bool (ep_linked e) @ enc_u64 (ep_creation_time e))"

text \<open>An entry older than version 8 is the bucket information itself, which is read again from the start.\<close>

definition dec_entry_point :: "entry_point \<Rightarrow> entry_point decoder" where
  "dec_entry_point e0 orig =
     decode_struct_legacy 8 4 4 3 (\<lambda>struct_v.
       if struct_v < 8 then
         (\<lambda>bl. case dec_bucket_info (ep_old_bucket_info e0) orig of
                 None \<Rightarrow> None
               | Some (i, _) \<Rightarrow> Some (e0\<lparr>ep_old_bucket_info := i, ep_has_bucket_info := True\<rparr>, bl))
       else
         bind_dec (dec_rgw_bucket (ep_bucket e0)) (\<lambda>b.
         bind_dec dec_string (\<lambda>owner.
         bind_dec dec_bool (\<lambda>linked.
         bind_dec dec_u64 (\<lambda>ctime.
           ret_dec (e0\<lparr>ep_bucket := b, ep_owner := owner, ep_linked := linked, ep_creation_time := ctime,
             ep_has_bucket_info := False\<rparr>)))))) orig"

text \<open>What \<^verbatim>\<open>stat\<close> and the password database say of a directory, and \<^verbatim>\<open>errno\<close> after they failed.\<close>

record bucket_world =
  bw_os :: os
  bw_owner :: "string \<Rightarrow> os_state \<Rightarrow> 32 word"
  bw_mtime :: "string \<Rightarrow> os_state \<Rightarrow> uint64"
  bw_pw_name :: "32 word \<Rightarrow> string option"
  bw_stat_errno :: int
  bw_pw_errno :: int

definition dir_command :: "globals \<Rightarrow> string \<Rightarrow> string" where
  "dir_command g name = ''[ -d '' @ c_str (g_buckets_root g) @ ''/'' @ c_str name @ '' ]''"

text \<open>The command is printed into a buffer of 256 bytes.\<close>

definition dir_test :: "os \<Rightarrow> globals \<Rightarrow> string \<Rightarrow> os_state \<Rightarrow> (int \<times> os_state) option" where
  "dir_test os g name sys =
     (if length (dir_command g name) \<ge> 256 then None else Some (shell_simple os (dir_command g name) sys))"

definition get_bucket_entrypoint_info :: "bucket_world \<Rightarrow> globals \<Rightarrow> string \<Rightarrow> entry_point \<Rightarrow> os_state \<Rightarrow>
    (int \<times> entry_point \<times> os_state) option" where
  "get_bucket_entrypoint_info bw g bucket_name e sys = do {
     (r, sys) \<leftarrow> dir_test (bw_os bw) g bucket_name sys;
     if r \<noteq> 0 then Some (- ENOENT, e, sys)
     else
       let full_path = c_str (g_buckets_root g @ ''/'' @ bucket_name) in
       case sys_stat (bw_os bw) full_path sys of
         None \<Rightarrow> Some (- bw_stat_errno bw, e, sys)
       | Some _ \<Rightarrow>
           (case bw_pw_name bw (bw_owner bw full_path sys) of
              None \<Rightarrow> Some (- bw_pw_errno bw, e, sys)
            | Some pw_name \<Rightarrow>
                let e = e\<lparr>ep_bucket := (ep_bucket e)\<lparr>bkt_name := bucket_name, bkt_bucket_id := ''bucket_id''\<rparr>,
                          ep_owner := pw_name, ep_creation_time := bw_mtime bw full_path sys\<rparr>
                in case dec_entry_point e (enc_entry_point e) of
                     None \<Rightarrow> Some (- EIO, e, sys)
                   | Some (e, _) \<Rightarrow> Some (0, e, sys)) }"

definition get_bucket_instance_entry :: "rgw_bucket \<Rightarrow> string" where
  "get_bucket_instance_entry b = bkt_name b @ '':'' @ bkt_bucket_id b"

definition RGW_BUCKET_INSTANCE_MD_PREFIX :: string where
  "RGW_BUCKET_INSTANCE_MD_PREFIX = ''.bucket.meta.''"

definition get_bucket_meta_oid :: "rgw_bucket \<Rightarrow> string" where
  "get_bucket_meta_oid b = RGW_BUCKET_INSTANCE_MD_PREFIX @ get_bucket_instance_entry b"

text \<open>\<^verbatim>\<open>sscanf\<close> with the format \<^verbatim>\<open>.%*[^.].%*[^.].%[^:]\<close>: the last field, empty when the text does not match.\<close>

definition scan_field :: "char \<Rightarrow> string \<Rightarrow> (string \<times> string) option" where
  "scan_field c s = (let f = takeWhile (\<lambda>x. x \<noteq> c) s in if f = [] then None else Some (f, drop (length f) s))"

definition scan_char :: "char \<Rightarrow> string \<Rightarrow> string option" where
  "scan_char c s = (case s of [] \<Rightarrow> None | x # xs \<Rightarrow> if x = c then Some xs else None)"

definition scan_bucket_name :: "string \<Rightarrow> string" where
  "scan_bucket_name oid =
     (case do {
        s \<leftarrow> scan_char (CHR ''.'') oid; (_, s) \<leftarrow> scan_field (CHR ''.'') s;
        s \<leftarrow> scan_char (CHR ''.'') s; (_, s) \<leftarrow> scan_field (CHR ''.'') s;
        s \<leftarrow> scan_char (CHR ''.'') s; (name, _) \<leftarrow> scan_field (CHR '':'') s;
        Some name } of
      None \<Rightarrow> [] | Some name \<Rightarrow> name)"

text \<open>The scanned name has a buffer of 256 bytes.\<close>

definition get_bucket_instance_from_oid :: "os \<Rightarrow> globals \<Rightarrow> string \<Rightarrow> bucket_info \<Rightarrow> os_state \<Rightarrow> (int \<times> bucket_info \<times> os_state) option" where
  "get_bucket_instance_from_oid os g oid info sys = do {
     let bucket_name = scan_bucket_name (c_str oid);
     _ \<leftarrow> (if length bucket_name < 256 then Some () else None);
     (r, sys) \<leftarrow> dir_test os g bucket_name sys;
     if r \<noteq> 0 then Some (if r < 0 then r else - r, info, sys)
     else
       let info = info\<lparr>bi_bucket := (bi_bucket info)\<lparr>bkt_name := bucket_name, bkt_bucket_id := bucket_name, bkt_marker := bucket_name\<rparr>\<rparr> in
       case dec_bucket_info info (enc_bucket_info info) of
         None \<Rightarrow> Some (- EIO, info, sys)
       | Some (info, _) \<Rightarrow> Some (0, info, sys) }"

section \<open>Bucket information\<close>

text \<open>The cache of bucket information: \<^verbatim>\<open>put\<close> asks the store to chain the entry, which the store refuses without a
  cache, and so the cache stays as it is.\<close>

definition chain_cache_entry :: bool where
  "chain_cache_entry = False"

definition binfo_cache_put :: "string \<Rightarrow> bucket_info \<times> string string_map \<Rightarrow> (bucket_info \<times> string string_map) string_map \<Rightarrow>
    (bucket_info \<times> string string_map) string_map" where
  "binfo_cache_put key entry m = (if chain_cache_entry then smap_set key entry m else m)"

text \<open>\<^verbatim>\<open>get_bucket_info\<close>: the code, the information, the attributes, the cache and the state of the system.\<close>

type_synonym binfo_cache = "(bucket_info \<times> string string_map) string_map"

definition get_bucket_info :: "bucket_world \<Rightarrow> globals \<Rightarrow> string \<Rightarrow> bucket_info \<Rightarrow> string string_map \<Rightarrow> binfo_cache \<Rightarrow> os_state \<Rightarrow>
    (int \<times> bucket_info \<times> string string_map \<times> binfo_cache \<times> os_state) option" where
  "get_bucket_info bw g bucket_name info attrs cache sys =
     (case smap_get cache bucket_name of
        Some (info, attrs) \<Rightarrow> Some (0, info, attrs, cache, sys)
      | None \<Rightarrow> do {
          (r, e, sys) \<leftarrow> get_bucket_entrypoint_info bw g bucket_name new_entry_point sys;
          if r < 0 then Some (r, info\<lparr>bi_bucket := (bi_bucket info)\<lparr>bkt_name := bucket_name\<rparr>\<rparr>, attrs, cache, sys)
          else if ep_has_bucket_info e then Some (0, ep_old_bucket_info e, attrs, cache, sys)
          else do {
            (r, info, sys) \<leftarrow> get_bucket_instance_from_oid (bw_os bw) g (get_bucket_meta_oid (ep_bucket e)) new_bucket_info sys;
            if r < 0 then Some (r, info\<lparr>bi_bucket := (bi_bucket info)\<lparr>bkt_name := bucket_name\<rparr>\<rparr>, [], cache, sys)
            else Some (0, info, [], binfo_cache_put bucket_name (info, []) cache, sys) } })"

text \<open>\<^verbatim>\<open>rgw_bucket_parse_bucket_instance\<close>: the code, and the two outputs, which keep their old values where they are not set.\<close>

definition rgw_bucket_parse_bucket_instance :: "string \<Rightarrow> string \<times> int \<Rightarrow> int \<times> string \<times> int" where
  "rgw_bucket_parse_bucket_instance bucket_instance = (\<lambda>(target, shard_id).
     if CHR '':'' \<notin> set bucket_instance then (- EINVAL, target, shard_id)
     else
       let second = rev (takeWhile (\<lambda>c. c \<noteq> CHR '':'') (rev bucket_instance));
           first = take (length bucket_instance - length second - 1) bucket_instance
       in if CHR '':'' \<notin> set first then (0, bucket_instance, - 1)
          else
            let (shard_id, err) = strict_strtol (c_str second) in
            (if err \<noteq> [] then - EINVAL else 0, first, shard_id))"

section \<open>RGWMPObj\<close>

record mp_obj =
  mp_oid :: string
  mp_prefix :: string
  mp_meta :: string
  mp_upload_id :: string

definition new_mp_obj :: mp_obj where
  "new_mp_obj = \<lparr>mp_oid = [], mp_prefix = [], mp_meta = [], mp_upload_id = []\<rparr>"

definition MP_META_SUFFIX :: string where
  "MP_META_SUFFIX = ''.meta''"

definition mp_init :: "string \<Rightarrow> string \<Rightarrow> string \<Rightarrow> mp_obj" where
  "mp_init oid upload_id part_unique_str =
     (if oid = [] then new_mp_obj
      else \<lparr>mp_oid = oid, mp_prefix = oid @ ''.'' @ part_unique_str, mp_meta = oid @ ''.'' @ upload_id @ MP_META_SUFFIX,
            mp_upload_id = upload_id\<rparr>)"

definition mp_get_part :: "mp_obj \<Rightarrow> int \<Rightarrow> string" where
  "mp_get_part mp num = mp_prefix mp @ take 15 (''.'' @ dec_int_str num)"

text \<open>The position of the last dot before a position.\<close>

definition rfind_dot :: "string \<Rightarrow> nat option" where
  "rfind_dot s = (if CHR ''.'' \<in> set s then Some (length s - 1 - length (takeWhile (\<lambda>c. c \<noteq> CHR ''.'') (rev s))) else None)"

text \<open>\<^verbatim>\<open>from_meta\<close>; when the only dot is the first character, the second search starts at the end of the string.\<close>

definition mp_from_meta :: "string \<Rightarrow> mp_obj option" where
  "mp_from_meta meta = do {
     end_pos \<leftarrow> rfind_dot meta;
     mid_pos \<leftarrow> rfind_dot (if end_pos = 0 then meta else take end_pos meta);
     Some (mp_init (take mid_pos meta) (take (end_pos - mid_pos - 1) (drop (mid_pos + 1) meta)) (take (end_pos - mid_pos - 1) (drop (mid_pos + 1) meta))) }"

section \<open>Policies\<close>

definition RGW_ATTR_ACL :: string where
  "RGW_ATTR_ACL = RGW_ATTR_PREFIX @ ''acl''"

definition RGW_ATTR_ID_TAG :: string where
  "RGW_ATTR_ID_TAG = RGW_ATTR_PREFIX @ ''idtag''"

definition BUCKET_SUSPENDED :: "32 word" where
  "BUCKET_SUSPENDED = 1"

definition RGW_OBJ_NS_MULTIPART :: string where
  "RGW_OBJ_NS_MULTIPART = ''multipart''"

definition decode_policy :: "string \<Rightarrow> acl_policy \<Rightarrow> int \<times> acl_policy" where
  "decode_policy bl p = (case dec_acl_policy p bl of None \<Rightarrow> (- EIO, p) | Some (p, _) \<Rightarrow> (0, p))"

text \<open>The policy of a bucket or object without one: its owner has full control.\<close>

definition default_policy :: "auth_world \<Rightarrow> bucket_info \<Rightarrow> acl_policy \<Rightarrow> int \<times> acl_policy" where
  "default_policy w info p =
     (case rgw_get_user_info_by_uid (system_obj w) (bi_owner info) new_user of
        Inl r \<Rightarrow> (r, p)
      | Inr u \<Rightarrow> (0, policy_create_default (bi_owner info) (display_name u) p))"

definition get_bucket_policy_from_attr :: "auth_world \<Rightarrow> bucket_info \<Rightarrow> string string_map \<Rightarrow> acl_policy \<Rightarrow> int \<times> acl_policy" where
  "get_bucket_policy_from_attr w info bucket_attrs p =
     (case smap_get bucket_attrs RGW_ATTR_ACL of Some bl \<Rightarrow> decode_policy bl p | None \<Rightarrow> default_policy w info p)"

text \<open>The attributes of an object.  The call that reads them from the store does nothing, the object counts as existing, and
  the tag is added by its lookup.\<close>

definition getxattrs :: "string string_map" where
  "getxattrs = []"

definition filter_attrset :: "string string_map \<Rightarrow> string \<Rightarrow> string string_map" where
  "filter_attrset unfiltered_attrset check_prefix = takeWhile (\<lambda>(k, v). starts_with k check_prefix) (dropWhile (\<lambda>(k, v). k < check_prefix) unfiltered_attrset)"

definition raw_obj_stat :: "int \<times> string string_map" where
  "raw_obj_stat = (0, filter_attrset getxattrs RGW_ATTR_PREFIX)"

definition get_obj_state :: "int \<times> bool \<times> string string_map" where
  "get_obj_state =
     (let (r, attrset) = raw_obj_stat in
      if r = - ENOENT then (0, False, [])
      else if r < 0 then (r, False, [])
      else (0, True, if smap_get attrset RGW_ATTR_ID_TAG = None then smap_set RGW_ATTR_ID_TAG [] attrset else attrset))"

definition rados_get_attr :: "string \<Rightarrow> int \<times> string" where
  "rados_get_attr name =
     (let (r, exists, attrset) = get_obj_state in
      if r < 0 then (r, []) else if \<not> exists then (- ENOENT, [])
      else case smap_get attrset name of None \<Rightarrow> (- ENODATA, []) | Some v \<Rightarrow> (0, v))"

definition get_obj_policy_from_attr :: "auth_world \<Rightarrow> bucket_info \<Rightarrow> acl_policy \<Rightarrow> int \<times> acl_policy" where
  "get_obj_policy_from_attr w info p =
     (let (r, bl) = rados_get_attr RGW_ATTR_ACL in
      if r \<ge> 0 then decode_policy bl p
      else if r = - ENODATA then default_policy w info p
      else (r, p))"

definition get_policy_from_attr :: "auth_world \<Rightarrow> bucket_info \<Rightarrow> string string_map \<Rightarrow> rgw_obj \<Rightarrow> acl_policy \<Rightarrow> int \<times> acl_policy" where
  "get_policy_from_attr w info bucket_attrs obj p =
     (if bkt_name (obj_bucket obj) = [] then (0, p)
      else if object obj = [] then get_bucket_policy_from_attr w info bucket_attrs p
      else get_obj_policy_from_attr w info p)"

definition set_owner_id :: "acl_policy \<Rightarrow> acl_policy" where
  "set_owner_id p = p\<lparr>pol_owner := (pol_owner p)\<lparr>own_id := ''bwcpn''\<rparr>\<rparr>"

definition read_policy :: "auth_world \<Rightarrow> req_state \<Rightarrow> acl_policy \<Rightarrow> rgw_obj_key \<Rightarrow> int \<times> acl_policy" where
  "read_policy w s p key =
     (let upload_id = fst (args_get (args (rs_info s)) ''uploadId''); info = rs_bucket_info s in
      if \<not> rs_system_request s \<and> bi_flags info AND BUCKET_SUSPENDED \<noteq> 0 then (- ERR_USER_SUSPENDED, p)
      else
        let obj = (if \<not> obj_key_empty key \<and> upload_id \<noteq> []
                   then (obj_init_ns (rs_bucket s) (mp_meta (mp_init (okey_name key) upload_id upload_id)) RGW_OBJ_NS_MULTIPART new_obj)\<lparr>in_extra_data := True\<rparr>
                   else from_index_key (rs_bucket s) key new_obj);
            (r, p) = get_policy_from_attr w info (rs_bucket_attrs s) obj p;
            p = set_owner_id p
        in if r = - ENOENT \<and> \<not> obj_key_empty key then
             let (r, bucket_policy) = get_policy_from_attr w info (rs_bucket_attrs s) (obj_init (rs_bucket s) [] new_obj) new_policy in
             (if r < 0 then r
              else if \<not> rs_system_request s \<and> own_id (pol_owner bucket_policy) \<noteq> user_id (rs_user s) \<and>
                \<not> verify_permission no_group_name bucket_policy (user_id (rs_user s)) (rs_perm_mask s) RGW_PERM_READ then - EACCES
              else - ENOENT, p)
           else (if r = - ENOENT then - ERR_NO_SUCH_BUCKET else r, p))"

text \<open>\<^verbatim>\<open>rgw_build_policies\<close>.  The steps: the instance of the bucket from the arguments, the bucket of a copy source, the bucket of
  the request with its policy, and the policy of the object.\<close>

definition build_instance :: "req_state \<Rightarrow> int \<times> req_state" where
  "build_instance s =
     (let bi = fst (args_get (args (rs_info s)) ''rgwx-bucket-instance'') in
      if bi = [] then (0, s)
      else let (r, target, _) = rgw_bucket_parse_bucket_instance bi (rs_bucket_instance_id s, 0) in (r, s\<lparr>rs_bucket_instance_id := target\<rparr>))"

definition copy_source_bucket :: "string \<Rightarrow> string" where
  "copy_source_bucket copy_source =
     (let src = (case copy_source of [] \<Rightarrow> [] | c # cs \<Rightarrow> if c = CHR ''/'' then cs else copy_source) in
      case find_from (\<lambda>c. c = CHR ''/'') src 0 of Some pos \<Rightarrow> if 0 < pos then take pos src else src | None \<Rightarrow> src)"

definition build_source :: "bucket_world \<Rightarrow> globals \<Rightarrow> int \<Rightarrow> req_state \<Rightarrow> binfo_cache \<Rightarrow> os_state \<Rightarrow> (int \<times> binfo_cache \<times> os_state) option" where
  "build_source bw g ret s cache sys =
     (case rs_copy_source s of
        None \<Rightarrow> Some (ret, cache, sys)
      | Some copy_source \<Rightarrow>
          map_option (\<lambda>(r, _, _, cache, sys). (r, cache, sys)) (get_bucket_info bw g (copy_source_bucket (c_str copy_source)) new_bucket_info [] cache sys))"

text \<open>The policy of the bucket is a null pointer for the Swift interface.\<close>

definition build_bucket :: "auth_world \<Rightarrow> bucket_world \<Rightarrow> globals \<Rightarrow> int \<Rightarrow> req_state \<Rightarrow> binfo_cache \<Rightarrow> os_state \<Rightarrow>
    (bool \<times> int \<times> req_state \<times> binfo_cache \<times> os_state) option" where
  "build_bucket w bw g ret s cache sys =
     (if rs_bucket_name_str s = [] then Some (False, ret, s, cache, sys)
      else do {
        let s = s\<lparr>rs_bucket_exists := True\<rparr>;
        (ret, info, attrs, cache, sys) \<leftarrow>
          (if rs_bucket_instance_id s = [] then get_bucket_info bw g (rs_bucket_name_str s) (rs_bucket_info s) (rs_bucket_attrs s) cache sys
           else Some (ret, rs_bucket_info s, rs_bucket_attrs s, cache, sys));
        let s = s\<lparr>rs_bucket_info := info, rs_bucket_attrs := attrs\<rparr>;
        if ret < 0 \<and> ret \<noteq> - ENOENT then Some (True, ret, s, cache, sys)
        else do {
          let s = s\<lparr>rs_bucket_exists := \<not> ret < 0, rs_bucket := bi_bucket info\<rparr>;
          p \<leftarrow> rs_bucket_acl s;
          let (ret, p) = (if rs_bucket_exists s then read_policy w s p new_obj_key
                          else (- ERR_NO_SUCH_BUCKET, policy_create_default (user_id (rs_user s)) (display_name (rs_user s)) p));
          Some (False, ret, s\<lparr>rs_bucket_acl := Some p, rs_bucket_owner := pol_owner p\<rparr>, cache, sys) } })"

definition rgw_build_policies :: "auth_world \<Rightarrow> bucket_world \<Rightarrow> globals \<Rightarrow> bool \<Rightarrow> req_state \<Rightarrow> binfo_cache \<Rightarrow> os_state \<Rightarrow>
    (int \<times> req_state \<times> binfo_cache \<times> os_state) option" where
  "rgw_build_policies w bw g only_bucket s cache sys =
     (let (ret, s) = build_instance s in
      if ret < 0 then Some (ret, s, cache, sys)
      else do {
        let s = s\<lparr>rs_bucket_acl := (if rs_dialect s = ''swift'' then rs_bucket_acl s else Some new_policy)\<rparr>;
        (ret, cache, sys) \<leftarrow> build_source bw g ret s cache sys;
        (stop, ret, s, cache, sys) \<leftarrow> build_bucket w bw g ret s cache sys;
        Some (if stop then (ret, s, cache, sys)
              else if \<not> only_bucket \<and> \<not> obj_key_empty (rs_object s) then
                if \<not> rs_bucket_exists s then (- ERR_NO_SUCH_BUCKET, s, cache, sys)
                else let (ret, p) = read_policy w s new_policy (rs_object s) in (ret, s\<lparr>rs_object_acl := Some p\<rparr>, cache, sys)
              else (ret, s, cache, sys)) })"

text \<open>\<^verbatim>\<open>RGWHandler_ObjStore::read_permissions\<close>: whether only the bucket matters, or the result at once.\<close>

definition permission_scope :: "rest_handler \<Rightarrow> bool \<Rightarrow> req_state \<Rightarrow> int + bool" where
  "permission_scope h creates_bucket s =
     (let update = (if request_params (rs_info s) = ''delete'' then Inr True
                    else if is_obj_update_op h s then Inr False
                    else if creates_bucket then Inl 0
                    else Inr True)
      in case rs_op s of
           OP_HEAD \<Rightarrow> Inr False | OP_GET \<Rightarrow> Inr False
         | OP_PUT \<Rightarrow> update | OP_POST \<Rightarrow> update | OP_COPY \<Rightarrow> update
         | OP_DELETE \<Rightarrow> Inr True | OP_OPTIONS \<Rightarrow> Inr True
         | OP_UNKNOWN \<Rightarrow> Inl (- EINVAL))"

definition read_permissions :: "auth_world \<Rightarrow> bucket_world \<Rightarrow> globals \<Rightarrow> rest_handler \<Rightarrow> bool \<Rightarrow> req_state \<Rightarrow> binfo_cache \<Rightarrow> os_state \<Rightarrow>
    (int \<times> req_state \<times> binfo_cache \<times> os_state) option" where
  "read_permissions w bw g h creates_bucket s cache sys =
     (if h = HAdminBucket then Some (0, s, cache, sys)
      else case permission_scope h creates_bucket s of
        Inl r \<Rightarrow> Some (r, s, cache, sys)
      | Inr only_bucket \<Rightarrow> rgw_build_policies w bw g only_bucket s cache sys)"

section \<open>The names of multipart uploads\<close>

lemma rfind_dot_append: "CHR ''.'' \<notin> set b \<Longrightarrow> rfind_dot (a @ ''.'' @ b) = Some (length a)"
proof -
  assume "CHR ''.'' \<notin> set b"
  then have "takeWhile (\<lambda>c. c \<noteq> CHR ''.'') (rev b @ ''.'' @ rev a) = rev b" by (auto simp: takeWhile_append)
  then show ?thesis by (simp add: rfind_dot_def)
qed

text \<open>The object and the upload are found again in the name of the meta object when the upload id has no dot.\<close>

lemma mp_from_meta_init:
  assumes "oid \<noteq> []" and "CHR ''.'' \<notin> set upload_id"
  shows "mp_from_meta (mp_meta (mp_init oid upload_id part)) = Some (mp_init oid upload_id upload_id)"
proof -
  let ?front = "oid @ ''.'' @ upload_id"
  have meta: "mp_meta (mp_init oid upload_id part) = ?front @ ''.'' @ ''meta''"
    using assms(1) by (simp add: mp_init_def MP_META_SUFFIX_def)
  have "rfind_dot (?front @ ''.'' @ ''meta'') = Some (length ?front)" by (rule rfind_dot_append) simp
  moreover have "rfind_dot ?front = Some (length oid)" using assms(2) by (rule rfind_dot_append)
  moreover have "take (length ?front) (?front @ ''.'' @ ''meta'') = ?front" by (rule append_eq_conv_conj [THEN iffD1, THEN conjunct1, symmetric]) simp
  ultimately show ?thesis unfolding mp_from_meta_def meta by simp
qed

section \<open>Which requests pass\<close>

lemma dec_entry_point_enc:
  assumes "bucket_ok (ep_bucket e)" and "short (ep_owner e)" and "length (enc_entry_point e) < size_limit" and "\<not> ep_has_bucket_info e"
  shows "dec_entry_point e (enc_entry_point e @ bl) = Some (e, bl)"
proof -
  note size = assms(3) [unfolded enc_entry_point_def, THEN encode_struct_payload]
  show ?thesis
    unfolding dec_entry_point_def enc_entry_point_def
  proof (rule decode_struct_legacy_ok [OF _ size])
  qed (use assms size in \<open>simp_all add: dec_rgw_bucket_enc\<close>)
qed

definition bucket_name_ok :: "string \<Rightarrow> bool" where
  "bucket_name_ok name \<longleftrightarrow> name \<noteq> [] \<and> NUL \<notin> set name \<and> CHR '':'' \<notin> set name"

lemma scan_bucket_name_oid:
  assumes "bucket_name_ok (bkt_name b)" and "NUL \<notin> set (bkt_bucket_id b)"
  shows "scan_bucket_name (c_str (get_bucket_meta_oid b)) = bkt_name b"
proof -
  have "c_str (get_bucket_meta_oid b) = get_bucket_meta_oid b"
    using assms by (intro c_str_id) (auto simp: no_nul_def bucket_name_ok_def get_bucket_meta_oid_def get_bucket_instance_entry_def RGW_BUCKET_INSTANCE_MD_PREFIX_def)
  moreover have "takeWhile (\<lambda>x. x \<noteq> CHR '':'') (bkt_name b @ '':'' @ bkt_bucket_id b) = bkt_name b"
    using assms(1) by (auto simp: bucket_name_ok_def takeWhile_append)
  ultimately show ?thesis
    using assms(1) by (simp add: scan_bucket_name_def get_bucket_meta_oid_def get_bucket_instance_entry_def RGW_BUCKET_INSTANCE_MD_PREFIX_def
        scan_char_def scan_field_def bucket_name_ok_def)
qed

text \<open>The directory of a bucket is there and belongs to a user.\<close>

definition bucket_present :: "bucket_world \<Rightarrow> globals \<Rightarrow> string \<Rightarrow> os_state \<Rightarrow> bool" where
  "bucket_present bw g name sys \<longleftrightarrow>
     (let path = c_str (g_buckets_root g @ ''/'' @ name) in
      dir_test (bw_os bw) g name sys = Some (0, sys) \<and> sys_stat (bw_os bw) path sys \<noteq> None \<and>
      (\<exists>pw. bw_pw_name bw (bw_owner bw path sys) = Some pw \<and> length pw < 2 ^ 16))"

definition found_bucket :: "string \<Rightarrow> bucket_info" where
  "found_bucket name = new_bucket_info\<lparr>bi_bucket := new_bucket\<lparr>bkt_name := name, bkt_bucket_id := name, bkt_marker := name\<rparr>\<rparr>"

lemma dir_test_short: "dir_test os g name sys = Some r \<Longrightarrow> NUL \<notin> set name \<Longrightarrow> length name < 256"
  by (auto simp: dir_test_def dir_command_def c_str_id no_nul_def split: if_splits)

lemma get_bucket_instance_present:
  assumes "dir_test os g name sys = Some (0, sys)" and "bucket_name_ok name" and "bkt_name b = name" and "NUL \<notin> set (bkt_bucket_id b)"
  shows "get_bucket_instance_from_oid os g (get_bucket_meta_oid b) new_bucket_info sys = Some (0, found_bucket name, sys)"
proof -
  have len: "length name < 256" using dir_test_short [OF assms(1)] assms(2) by (simp add: bucket_name_ok_def)
  have ok: "bucket_info_ok (found_bucket name)"
    using len by (simp add: bucket_info_ok_def found_bucket_def bucket_ok_def new_bucket_info_def new_bucket_def short_def)
  have "length (enc_bucket_info (found_bucket name)) < size_limit"
    using len by (simp add: enc_bucket_info_def found_bucket_def new_bucket_info_def new_bucket_def enc_rgw_bucket_def length_enc_string enc_quota_info_def codec_simps)
  from dec_bucket_info_enc [OF ok this, of "found_bucket name" "[]"]
  have "dec_bucket_info (found_bucket name) (enc_bucket_info (found_bucket name)) = Some (found_bucket name, [])"
    by (simp add: keep_soft_def)
  then show ?thesis
    using assms len scan_bucket_name_oid [of b] by (simp add: get_bucket_instance_from_oid_def found_bucket_def new_bucket_info_def)
qed

lemma get_bucket_entrypoint_present:
  assumes "bucket_present bw g name sys" and "NUL \<notin> set name"
  shows "\<exists>e. get_bucket_entrypoint_info bw g name new_entry_point sys = Some (0, e, sys) \<and> \<not> ep_has_bucket_info e \<and>
    bkt_name (ep_bucket e) = name \<and> bkt_bucket_id (ep_bucket e) = ''bucket_id''"
proof -
  let ?path = "c_str (g_buckets_root g @ ''/'' @ name)"
  obtain pw n where dir: "dir_test (bw_os bw) g name sys = Some (0, sys)" and stat: "sys_stat (bw_os bw) ?path sys = Some n"
    and pw: "bw_pw_name bw (bw_owner bw ?path sys) = Some pw" "length pw < 2 ^ 16"
    using assms(1) by (auto simp: bucket_present_def Let_def)
  define e where "e = new_entry_point\<lparr>ep_bucket := (ep_bucket new_entry_point)\<lparr>bkt_name := name, bkt_bucket_id := ''bucket_id''\<rparr>,
    ep_owner := pw, ep_creation_time := bw_mtime bw ?path sys\<rparr>"
  have len: "length name < 256" using dir_test_short [OF dir assms(2)] .
  have "bucket_ok (ep_bucket e)" "short (ep_owner e)" "\<not> ep_has_bucket_info e"
    using len pw(2) by (simp_all add: e_def new_entry_point_def bucket_ok_def new_bucket_def short_def)
  moreover have "length (enc_entry_point e) < size_limit"
    using len pw(2) by (simp add: enc_entry_point_def e_def new_entry_point_def new_bucket_def enc_rgw_bucket_def length_enc_string codec_simps)
  ultimately have "dec_entry_point e (enc_entry_point e) = Some (e, [])" using dec_entry_point_enc [of e "[]"] by simp
  then have "get_bucket_entrypoint_info bw g name new_entry_point sys = Some (0, e, sys)"
    using dir stat pw(1) by (simp add: get_bucket_entrypoint_info_def e_def Let_def)
  then show ?thesis by (auto simp: e_def new_entry_point_def)
qed

lemma get_bucket_info_present:
  assumes "bucket_present bw g name sys" and "bucket_name_ok name" and "smap_get cache name = None"
  shows "get_bucket_info bw g name info attrs cache sys = Some (0, found_bucket name, [], cache, sys)"
proof -
  obtain e where e: "get_bucket_entrypoint_info bw g name new_entry_point sys = Some (0, e, sys)" "\<not> ep_has_bucket_info e"
    "bkt_name (ep_bucket e) = name" "bkt_bucket_id (ep_bucket e) = ''bucket_id''"
    using get_bucket_entrypoint_present [OF assms(1)] assms(2) by (auto simp: bucket_name_ok_def)
  have "dir_test (bw_os bw) g name sys = Some (0, sys)" using assms(1) by (simp add: bucket_present_def Let_def)
  from get_bucket_instance_present [OF this assms(2) e(3)] e(4)
  have "get_bucket_instance_from_oid (bw_os bw) g (get_bucket_meta_oid (ep_bucket e)) new_bucket_info sys = Some (0, found_bucket name, sys)" by simp
  then show ?thesis using e assms(3) by (simp add: get_bucket_info_def binfo_cache_put_def chain_cache_entry_def)
qed

lemma default_policy_exists:
  "short (bi_owner info) \<Longrightarrow> default_policy w info p = (0, policy_create_default (bi_owner info) [] p)"
  using rgw_get_user_info_exists [of "bi_owner info" "w_conf_file w" "getuid w" "w_overrun w" "w_sys_user_root w"]
  by (auto simp: default_policy_def system_obj_def user_of_sys_info_def new_user_def)

lemma get_attr_nothing: "rados_get_attr RGW_ATTR_ACL = (- ENODATA, [])"
  by code_simp

text \<open>The policy that every bucket and every object gets.\<close>

definition fixed_policy :: acl_policy where
  "fixed_policy = set_owner_id (policy_create_default [] [] new_policy)"

lemma obj_bucket_init:
  "obj_bucket (obj_init b p r) = b" "obj_bucket (obj_init_ns b p n r) = b" "obj_bucket (from_index_key b key r) = b"
proof -
  have keep: "obj_bucket (keep (set_ns n) r) = obj_bucket r" "obj_bucket (keep (set_instance n) r) = obj_bucket r" for n r
    by (simp_all add: keep_def set_ns_def set_instance_def)
  show init: "obj_bucket (obj_init b p r) = b" "obj_bucket (obj_init_ns b p n r) = b" for b p n r
    by (simp_all add: obj_init_def obj_init_ns_def keep)
  show "obj_bucket (from_index_key b key r) = b"
    by (auto simp: from_index_key_def Let_def keep init split: option.splits)
qed

lemma read_policy_fixed:
  assumes "rs_bucket_info s = found_bucket name" and "rs_bucket_attrs s = []" and "bkt_name (rs_bucket s) \<noteq> []"
  shows "read_policy w s new_policy key = (0, fixed_policy)"
proof -
  have info: "bi_flags (found_bucket name) = 0" "bi_owner (found_bucket name) = []" by (simp_all add: found_bucket_def new_bucket_info_def)
  have default: "default_policy w (found_bucket name) new_policy = (0, policy_create_default [] [] new_policy)"
    using default_policy_exists [of "found_bucket name" w] info(2) by (simp add: short_def)
  have "get_policy_from_attr w (found_bucket name) [] obj new_policy = (0, policy_create_default [] [] new_policy)"
    if "bkt_name (obj_bucket obj) \<noteq> []" for obj
    using that default by (simp add: get_policy_from_attr_def get_bucket_policy_from_attr_def get_obj_policy_from_attr_def get_attr_nothing)
  then show ?thesis using assms info(1) by (simp add: read_policy_def fixed_policy_def obj_bucket_init Let_def)
qed

text \<open>A request of the S3 interface for a bucket, without the arguments of a gateway that talks to another one.\<close>

definition bucket_request :: "req_state \<Rightarrow> string \<Rightarrow> bool" where
  "bucket_request s name \<longleftrightarrow> rs_bucket_name_str s = name \<and> bucket_name_ok name \<and> rs_bucket_instance_id s = [] \<and>
     fst (args_get (args (rs_info s)) ''rgwx-bucket-instance'') = [] \<and> rs_copy_source s = None \<and> rs_dialect s = ''s3''"

definition policy_state :: "bool \<Rightarrow> string \<Rightarrow> req_state \<Rightarrow> req_state" where
  "policy_state only_bucket name s =
     s\<lparr>rs_bucket_acl := Some fixed_policy, rs_bucket_exists := True, rs_bucket_info := found_bucket name, rs_bucket_attrs := [],
       rs_bucket := bi_bucket (found_bucket name), rs_bucket_owner := pol_owner fixed_policy,
       rs_object_acl := (if \<not> only_bucket \<and> \<not> obj_key_empty (rs_object s) then Some fixed_policy else rs_object_acl s)\<rparr>"

lemma build_policies_present:
  assumes "bucket_request s name" and "smap_get cache name = None" and "bucket_present bw g name sys"
  shows "rgw_build_policies w bw g only_bucket s cache sys = Some (0, policy_state only_bucket name s, cache, sys)"
proof -
  have name: "name \<noteq> []" "bucket_name_ok name" using assms(1) by (auto simp: bucket_request_def bucket_name_ok_def)
  have bkt: "bkt_name (bi_bucket (found_bucket name)) = name" by (simp add: found_bucket_def)
  show ?thesis
    using assms(1) name bkt get_bucket_info_present [OF assms(3) name(2) assms(2)] read_policy_fixed
    by (simp add: rgw_build_policies_def build_instance_def build_source_def build_bucket_def bucket_request_def policy_state_def)
qed

lemma build_policies_missing:
  assumes "bucket_request s name" and "smap_get cache name = None" and "dir_test (bw_os bw) g name sys = Some (r, sys)" and "r \<noteq> 0"
  shows "\<exists>s'. rgw_build_policies w bw g only_bucket s cache sys = Some (- ERR_NO_SUCH_BUCKET, s', cache, sys)"
proof -
  have name: "name \<noteq> []" using assms(1) by (auto simp: bucket_request_def bucket_name_ok_def)
  show ?thesis
    using assms name
    by (simp add: rgw_build_policies_def build_instance_def build_source_def build_bucket_def bucket_request_def get_bucket_info_def
        get_bucket_entrypoint_info_def)
qed

text \<open>C10: The permissions of a request are read from nowhere but the directory of its bucket.  If there is no such directory the
  request fails with the code of a missing bucket; otherwise it passes, for every user and every object, and the policies of
  the bucket and of the object are the same fixed one, whatever policy was stored.\<close>

theorem read_permissions_decision:
  assumes "bucket_request s name" and "smap_get cache name = None" and "h \<noteq> HAdminBucket"
    and "permission_scope h creates_bucket s = Inr only_bucket"
    and "dir_test (bw_os bw) g name sys = Some (r, sys)" and "r = 0 \<Longrightarrow> bucket_present bw g name sys"
  shows "if r = 0 then read_permissions w bw g h creates_bucket s cache sys = Some (0, policy_state only_bucket name s, cache, sys)
    else (\<exists>s'. read_permissions w bw g h creates_bucket s cache sys = Some (- ERR_NO_SUCH_BUCKET, s', cache, sys))"
  using build_policies_present [OF assms(1,2,6)] build_policies_missing [OF assms(1,2,5)] assms(3,4)
  by (simp add: read_permissions_def)

definition sample_dir_os :: os where
  "sample_dir_os =
     \<lparr>os_resolve = id, os_may = (\<lambda>uid acc path files. True), os_read = (\<lambda>n rest. n), os_write = (\<lambda>data d. int (length data)),
      os_setfsuid = (\<lambda>old new. new),
      os_popen = (\<lambda>cmd files. Some ([], if cmd = ''[ -d /fisamba/docs ]'' then 0 else 1, files)),
      os_rename = (\<lambda>uid src dst files. Inr files), os_new_mode = 420, os_junk_mode = 0\<rparr>"

definition sample_bucket_world :: bucket_world where
  "sample_bucket_world = \<lparr>bw_os = sample_dir_os, bw_owner = (\<lambda>path sys. 0), bw_mtime = (\<lambda>path sys. 0), bw_pw_name = (\<lambda>uid. Some ''root''),
     bw_stat_errno = ENOENT, bw_pw_errno = 0\<rparr>"

definition sample_dirs :: os_state where
  "sample_dirs = \<lparr>os_files = [''/fisamba/docs'' \<mapsto> Directory 4096], os_fsuid = 0\<rparr>"

definition sample_globals :: globals where
  "sample_globals = main_defaults [] globals_init"

definition sample_bucket_req :: req_state where
  "sample_bucket_req = (new_req_state new_env)\<lparr>rs_bucket_name_str := ''docs'', rs_op := OP_GET, rs_dialect := ''s3'',
     rs_object := new_obj_key\<lparr>okey_name := ''readme''\<rparr>\<rparr>"

lemma sample_docs_present: "bucket_present sample_bucket_world sample_globals ''docs'' sample_dirs"
proof -
  have "dir_command sample_globals ''docs'' = ''[ -d /fisamba/docs ]''" "c_str (g_buckets_root sample_globals @ ''/'' @ ''docs'') = ''/fisamba/docs''"
    by code_simp+
  then show ?thesis
    by (simp add: bucket_present_def dir_test_def sample_bucket_world_def sample_dir_os_def shell_simple_def sys_stat_def sample_dirs_def)
qed

theorem read_permissions_decision_witness:
  "read_permissions sample_world sample_bucket_world sample_globals HObject False sample_bucket_req [] sample_dirs =
     Some (0, policy_state False ''docs'' sample_bucket_req, [], sample_dirs)"
proof -
  have req: "bucket_request sample_bucket_req ''docs''" "permission_scope HObject False sample_bucket_req = Inr False" by code_simp+
  have "dir_test (bw_os sample_bucket_world) sample_globals ''docs'' sample_dirs = Some (0, sample_dirs)"
    using sample_docs_present by (simp add: bucket_present_def Let_def)
  from read_permissions_decision [OF req(1) _ _ req(2) this sample_docs_present] show ?thesis by (simp add: map_get_def)
qed

end
