(* ===== verification/Objects.thy ===== *)
theory Objects
  imports Response File_Sys Mime Utf8
begin

text \<open>
  The operations on objects: \<^verbatim>\<open>RGWGetObj\<close>, \<^verbatim>\<open>RGWPutObj\<close>, \<^verbatim>\<open>RGWDeleteObj\<close> and
  \<^verbatim>\<open>RGWCopyObj\<close> (\<^verbatim>\<open>src/rgw/porting_op.cc\<close>) with their S3 responses
  (\<^verbatim>\<open>porting_rest.cc\<close>, \<^verbatim>\<open>porting_rest_s3.cc\<close>).  An object is a file below the root of the buckets.
  An operation is a record of the fields of its class; its functions work on that record, the request's state and
  connection, and the state of the operating system.  \<open>md5\<close> is the digest of the crypto library.
\<close>

section \<open>Ranges\<close>

definition find_str :: "string \<Rightarrow> string \<Rightarrow> nat option" where
  "find_str pat s = List.find (\<lambda>i. starts_with (drop i s) pat) [0..<Suc (length s)]"

definition strncaseeq :: "nat \<Rightarrow> string \<Rightarrow> string \<Rightarrow> bool" where
  "strncaseeq n s t \<longleftrightarrow> map tolower (take n (c_str s)) = map tolower (take n (c_str t))"

text \<open>What follows the unit of a range, or \<open>None\<close> where the header is ignored.\<close>

definition range_spec :: "string \<Rightarrow> string option" where
  "range_spec s =
     (case find_str ''bytes='' s of
        Some p \<Rightarrow> Some (drop (p + 6) s)
      | None \<Rightarrow>
          let unit = takeWhile isalpha (dropWhile isspace s);
              rest = dropWhile isspace (dropWhile isalpha (dropWhile isspace s))
          in if \<not> strncaseeq (length unit) s ''bytes'' then None
             else if head_is (CHR ''='') rest then Some (tl rest) else None)"

text \<open>\<^verbatim>\<open>parse_range\<close>: the return code, the offsets and the flag for partial content.\<close>

definition parse_range :: "string \<Rightarrow> int \<Rightarrow> int \<Rightarrow> int \<times> int \<times> int \<times> bool" where
  "parse_range rng ofs end_ofs =
     (case range_spec (c_str rng) of
        None \<Rightarrow> (0, ofs, end_ofs, False)
      | Some s \<Rightarrow>
          if CHR ''-'' \<notin> set s then (- ERANGE, ofs, end_ofs, False)
          else
            let ofs_str = takeWhile (\<lambda>c. c \<noteq> CHR ''-'') s;
                end_str = tl (dropWhile (\<lambda>c. c \<noteq> CHR ''-'') s);
                end_ofs = (if end_str \<noteq> [] then atoll end_str else end_ofs)
            in if end_str \<noteq> [] \<and> end_ofs < 0 then (- ERANGE, ofs, end_ofs, True)
               else
                 let (ofs, end_ofs) = (if ofs_str \<noteq> [] then (atoll ofs_str, end_ofs) else (- end_ofs, - 1))
                 in (if end_ofs \<ge> 0 \<and> end_ofs < ofs then - ERANGE else 0, ofs, end_ofs, True))"

section \<open>RGWGetObj\<close>

record get_obj =
  go_cors_exist :: bool
  go_range_str :: "string option"
  go_if_mod :: "string option"
  go_if_unmod :: "string option"
  go_if_match :: "string option"
  go_if_nomatch :: "string option"
  go_ofs :: int
  go_total_len :: uint64
  go_start :: int
  go_end :: int
  go_lastmod :: int
  go_mod_time :: "int option"
  go_unmod_time :: "int option"
  go_attrs :: "string string_map"
  go_ret :: int
  go_get_data :: bool
  go_partial_content :: bool
  go_range_parsed :: bool
  go_sent_header :: bool

definition new_get_obj :: "bool \<Rightarrow> get_obj" where
  "new_get_obj get_data =
     \<lparr>go_cors_exist = False, go_range_str = None, go_if_mod = None, go_if_unmod = None, go_if_match = None, go_if_nomatch = None,
      go_ofs = 0, go_total_len = 0, go_start = 0, go_end = - 1, go_lastmod = 0, go_mod_time = None, go_unmod_time = None,
      go_attrs = [], go_ret = 0, go_get_data = get_data, go_partial_content = False, go_range_parsed = False, go_sent_header = False\<rparr>"

definition set_range :: "string \<Rightarrow> get_obj \<Rightarrow> int \<times> get_obj" where
  "set_range rng op =
     (let (r, ofs, e, partial) = parse_range rng (go_ofs op) (go_end op)
      in (r, op\<lparr>go_ofs := ofs, go_end := e, go_partial_content := partial\<rparr>))"

definition get_prefetch_data :: "req_state \<Rightarrow> get_obj \<Rightarrow> bool \<times> get_obj" where
  "get_prefetch_data s op =
     (if \<not> go_get_data op then (False, op)
      else
        let op = op\<lparr>go_range_str := env_get (rs_env s) ''HTTP_RANGE'' None\<rparr> in
        case go_range_str op of
          None \<Rightarrow> (True, op)
        | Some rng \<Rightarrow>
            let (r, op) = set_range rng op in
            if r < 0 then (False, op\<lparr>go_range_parsed := False\<rparr>) else (True, op\<lparr>go_range_parsed := True\<rparr>))"

definition get_get_params :: "req_state \<Rightarrow> get_obj \<Rightarrow> get_obj" where
  "get_get_params s op =
     op\<lparr>go_range_str := env_get (rs_env s) ''HTTP_RANGE'' None,
        go_if_mod := env_get (rs_env s) ''HTTP_IF_MODIFIED_SINCE'' None,
        go_if_unmod := env_get (rs_env s) ''HTTP_IF_UNMODIFIED_SINCE'' None,
        go_if_match := env_get (rs_env s) ''HTTP_IF_MATCH'' None,
        go_if_nomatch := env_get (rs_env s) ''HTTP_IF_NONE_MATCH'' None\<rparr>"

text \<open>The parsing of the conditional times, shared by the operations.\<close>

definition init_range :: "get_obj \<Rightarrow> int \<times> get_obj" where
  "init_range op =
     (case go_range_str op of
        Some rng \<Rightarrow> if go_range_parsed op then (0, op) else set_range rng op
      | None \<Rightarrow> (0, op))"

definition opt_time :: "string option \<Rightarrow> int option \<Rightarrow> (int option) result" where
  "opt_time hdr old =
     (case hdr of
        None \<Rightarrow> Inr old
      | Some t \<Rightarrow> (case parse_time t of Inl e \<Rightarrow> Inl (- EINVAL) | Inr v \<Rightarrow> Inr (Some v)))"

definition get_init_common :: "get_obj \<Rightarrow> int \<times> get_obj" where
  "get_init_common op =
     (let (r, op) = init_range op in
      if r < 0 then (r, op)
      else case opt_time (go_if_mod op) (go_mod_time op) of
        Inl e \<Rightarrow> (e, op)
      | Inr t \<Rightarrow>
          let op = op\<lparr>go_mod_time := t\<rparr> in
          (case opt_time (go_if_unmod op) (go_unmod_time op) of
             Inl e \<Rightarrow> (e, op)
           | Inr t \<Rightarrow> (0, op\<lparr>go_unmod_time := t\<rparr>)))"

section \<open>The response of RGWGetObj\<close>

definition RGW_ATTR_ETAG :: string where
  "RGW_ATTR_ETAG = RGW_ATTR_PREFIX @ ''etag''"

definition RGW_ATTR_CONTENT_TYPE :: string where
  "RGW_ATTR_CONTENT_TYPE = RGW_ATTR_PREFIX @ ''content_type''"

definition RGW_ATTR_META_PREFIX :: string where
  "RGW_ATTR_META_PREFIX = RGW_ATTR_PREFIX @ ''x-amz-meta-''"

definition resp_attr_params :: "(string \<times> string) list" where
  "resp_attr_params =
     [(''response-content-type'', ''Content-Type''), (''response-content-language'', ''Content-Language''),
      (''response-expires'', ''Expires''), (''response-cache-control'', ''Cache-Control''),
      (''response-content-disposition'', ''Content-Disposition''), (''response-content-encoding'', ''Content-Encoding'')]"

text \<open>\<^verbatim>\<open>encode_base64\<close> and the JSON encoding of a map of buffers; a failing \<^verbatim>\<open>ceph_armor\<close> is an assertion.\<close>

definition encode_base64 :: "string \<Rightarrow> string option" where
  "encode_base64 bl = (case ceph_armor (length bl * 4 div 3 + 3) bl of Inl e \<Rightarrow> None | Inr (n, b64) \<Rightarrow> Some b64)"

fun json_attr_entries :: "string string_map \<Rightarrow> fcall list option" where
  "json_attr_entries [] = Some []"
| "json_attr_entries ((k, v) # m) = do {
     b64 \<leftarrow> encode_base64 v;
     cs \<leftarrow> json_attr_entries m;
     Some ([OpenSection ''entry'' None [] False, DumpString ''key'' k [], DumpString ''val'' b64 [], CloseSection] @ cs) }"

definition obj_metadata :: "get_obj \<Rightarrow> string option" where
  "obj_metadata op = do {
     entries \<leftarrow> json_attr_entries (go_attrs op);
     jf \<leftarrow> calls jf_call ([OpenSection ''obj_metadata'' None [] False, OpenSection ''attrs'' None [] True] @ entries @
             [CloseSection, DumpInt ''mtime'' (go_lastmod op), CloseSection]) (new_json_formatter False);
     Some (fst (jf_flush jf)) }"

text \<open>The parameters of the request that replace headers: the content type, and the other ones.\<close>

definition response_params :: "http_args \<Rightarrow> string option \<times> string string_map" where
  "response_params a =
     fold (\<lambda>(param, hdr) (ctype, attrs).
         let (val, exists) = args_get a param in
         if \<not> exists then (ctype, attrs)
         else if param \<noteq> ''response-content-type'' then (ctype, smap_set hdr val attrs)
         else (Some (c_str val), attrs))
       resp_attr_params (None, [])"

fun attr_headers :: "resp_world \<Rightarrow> (string \<times> string) list \<Rightarrow> string option \<times> string string_map \<Rightarrow> resp \<Rightarrow>
    ((string option \<times> string string_map) \<times> resp) option" where
  "attr_headers w [] acc st = Some (acc, st)"
| "attr_headers w ((name, val) # attrs) (ctype, ra) st =
     (case smap_get (rt_rgw_to_http_attrs (rw_tables w)) (c_str name) of
        Some hdr \<Rightarrow> attr_headers w attrs (ctype, if smap_get ra hdr = None then smap_set hdr (c_str val) ra else ra) st
      | None \<Rightarrow>
          if name = RGW_ATTR_CONTENT_TYPE then attr_headers w attrs (if ctype = None then Some (c_str val) else ctype, ra) st
          else if starts_with name RGW_ATTR_META_PREFIX then do {
            st \<leftarrow> header w (c_str (drop (length RGW_ATTR_PREFIX) name)) (c_str val) st;
            attr_headers w attrs (ctype, ra) st }
          else attr_headers w attrs (ctype, ra) st)"

fun put_headers :: "resp_world \<Rightarrow> (string \<times> string) list \<Rightarrow> resp \<Rightarrow> resp option" where
  "put_headers w [] st = Some st"
| "put_headers w ((name, val) # hs) st = do { st \<leftarrow> header w (c_str name) (c_str val) st; put_headers w hs st }"

text \<open>The part before the label \<^verbatim>\<open>done\<close>, for a request without error: the headers of the object, the metadata
  that precede the data, the content type and the headers that are still to be sent.\<close>

definition object_headers :: "resp_world \<Rightarrow> get_obj \<Rightarrow> resp \<Rightarrow> (string \<times> (string option \<times> string string_map) \<times> get_obj \<times> resp) option" where
  "object_headers w op st = do {
     st \<leftarrow> (if go_range_str op \<noteq> None
             then dump_range w (word_of_int (go_start op)) (word_of_int (go_end op)) (rs_obj_size (fst st)) st else Some st);
     let sys = rs_system_request (fst st);
     metadata \<leftarrow> (if sys \<and> args_exists (args (rs_info (fst st))) (RGW_SYS_PARAM_PREFIX @ ''prepend-metadata'')
                    then map_option Some (obj_metadata op) else Some None);
     st \<leftarrow> (case metadata of None \<Rightarrow> Some st | Some m \<Rightarrow> header w ''Rgwx-Embedded-Metadata-Len'' (dec (length m)) st);
     let metadata_bl = (case metadata of None \<Rightarrow> [] | Some m \<Rightarrow> m);
     let op = op\<lparr>go_total_len := go_total_len op + of_nat (length metadata_bl)\<rparr>;
     st \<leftarrow> (if sys \<and> go_lastmod op \<noteq> 0 then dump_epoch_header w ''Rgwx-Mtime'' (go_lastmod op) st else Some st);
     st \<leftarrow> dump_content_length w (go_total_len op) st;
     st \<leftarrow> dump_last_modified w (go_lastmod op) st;
     st \<leftarrow> (case smap_get (go_attrs op) RGW_ATTR_ETAG of
              Some bl \<Rightarrow> if bl \<noteq> [] then dump_etag w (c_str bl) st else Some st
            | None \<Rightarrow> Some st);
     (acc, st) \<leftarrow> attr_headers w (go_attrs op) (response_params (args (rs_info (fst st)))) st;
     Some (metadata_bl, acc, op, st) }"

definition send_response_data :: "resp_world \<Rightarrow> string \<Rightarrow> get_obj \<Rightarrow> resp \<Rightarrow> (get_obj \<times> resp) option" where
  "send_response_data w bl op st = do {
     (op, st) \<leftarrow>
       (if go_ret op = 0 \<and> go_sent_header op then Some (op, st)
        else do {
          (metadata_bl, (ctype, response_attrs), op, st) \<leftarrow>
            (if go_ret op \<noteq> 0 then Some ([], (None, []), op, st) else object_headers w op st);
          let s = set_req_state_err (if go_partial_content op \<and> go_ret op = 0 then STATUS_PARTIAL_CONTENT else go_ret op) (fst st);
          st \<leftarrow> dump_errno w (s, snd st);
          st \<leftarrow> put_headers w response_attrs st;
          st \<leftarrow> end_header w (Some (go_cors_exist op))
                  (Some (case ctype of None \<Rightarrow> ''binary/octet-stream'' | Some c \<Rightarrow> c)) (- 1) False st;
          Some (op\<lparr>go_sent_header := True\<rparr>, if metadata_bl \<noteq> [] then cio_put w metadata_bl st else st) });
     Some (op, if go_get_data op \<and> go_ret op = 0 then cio_put w bl st else st) }"

definition send_response_data_error :: "resp_world \<Rightarrow> get_obj \<Rightarrow> resp \<Rightarrow> (get_obj \<times> resp) option" where
  "send_response_data_error w op st = send_response_data w [] op st"

section \<open>RGWGetObj::execute\<close>

definition object_path :: "globals \<Rightarrow> string \<Rightarrow> string \<Rightarrow> string" where
  "object_path g bucket obj = c_str (g_buckets_root g @ ''/'' @ bucket @ ''/'' @ obj)"

definition request_path :: "globals \<Rightarrow> req_state \<Rightarrow> string" where
  "request_path g s = object_path g (bkt_name (rs_bucket s)) (okey_name (rs_object s))"

text \<open>The digest of a whole file is the first word that \<^verbatim>\<open>md5sum\<close> prints, and the command itself where it prints
  none; the buffer of the command has 512 bytes.\<close>

definition md5sum_etag :: "os \<Rightarrow> string \<Rightarrow> os_state \<Rightarrow> (string \<times> os_state) option" where
  "md5sum_etag os path sys =
     (let cmd = ''md5sum '' @ path in
      if length cmd \<ge> 512 then None
      else do {
        (out, sys) \<leftarrow> shell_execute os cmd sys;
        Some ((case scan_word out of None \<Rightarrow> cmd | Some t \<Rightarrow> t) @ [NUL], sys) })"

definition range_etag :: "os \<Rightarrow> (string \<Rightarrow> string) \<Rightarrow> int \<Rightarrow> int \<Rightarrow> inode \<Rightarrow> string option" where
  "range_etag os md5 left ofs node = do {
     (r, bl) \<leftarrow> pread_fd os (word_of_int left) ofs node;
     Some (buf_to_hex (md5 bl) @ [NUL]) }"

definition c_int :: "int \<Rightarrow> int" where
  "c_int i = sint (word_of_int i :: 32 word)"

definition is_ranged :: "get_obj \<Rightarrow> bool" where
  "is_ranged op \<longleftrightarrow> go_ofs op \<noteq> 0 \<or> go_end op \<noteq> - 1"

text \<open>The loop that sends the data, with the bytes left, the offset in the range and the position in the file; it
  ends with a flag that is false after a short read.  A chunk size of 0 makes it run on, which is \<open>None\<close> as well.\<close>

partial_function (option) get_loop ::
    "os \<Rightarrow> resp_world \<Rightarrow> inode \<Rightarrow> int \<Rightarrow> uint64 \<Rightarrow> nat \<Rightarrow> get_obj \<Rightarrow> resp \<Rightarrow> (bool \<times> get_obj \<times> resp) option" where
  "get_loop os w node left cur_ofs fpos op st =
     (if left \<le> 0 then Some (True, op, st)
      else do {
        let chunk = g_rgw_max_chunk_size (rw_globals w);
        let len = (if unat chunk > nat left then left else int (unat chunk));
        (r, bl) \<leftarrow> (if is_ranged op then pread_fd os (word_of_int len) (sint (word_of_int (go_ofs op) + cur_ofs)) node
                    else read_fd os (word_of_int len) node fpos);
        if c_int r \<noteq> len then Some (False, op, st)
        else do {
          (op, st) \<leftarrow> send_response_data w bl op st;
          get_loop os w node (sint (word_of_int left - chunk)) (cur_ofs + word_of_int len) (fpos + length bl) op st } })"

definition get_send_file :: "os \<Rightarrow> (string \<Rightarrow> string) \<Rightarrow> resp_world \<Rightarrow> string \<Rightarrow> inode \<Rightarrow> int \<Rightarrow> get_obj \<Rightarrow> resp \<Rightarrow> os_state \<Rightarrow>
    (get_obj \<times> resp \<times> os_state) option" where
  "get_send_file os md5 w path node left op st sys = do {
     (etag, sys) \<leftarrow> (if is_ranged op then map_option (\<lambda>e. (e, sys)) (range_etag os md5 left (go_ofs op) node) else md5sum_etag os path sys);
     let op = op\<lparr>go_attrs := (if smap_get (go_attrs op) RGW_ATTR_ETAG = None then smap_set RGW_ATTR_ETAG etag (go_attrs op) else go_attrs op)\<rparr>;
     (op, st) \<leftarrow> send_response_data w [] op st;
     (ok, op, st) \<leftarrow> get_loop os w node left 0 0 op st;
     (op, st) \<leftarrow> (if ok then send_response_data w [] op st else send_response_data_error w op st);
     Some (op, st, sys) }"

text \<open>\<open>junk_size\<close> is the size in the buffer of a failing \<^verbatim>\<open>stat\<close>.\<close>

definition get_execute :: "os \<Rightarrow> (string \<Rightarrow> string) \<Rightarrow> int \<Rightarrow> resp_world \<Rightarrow> get_obj \<Rightarrow> resp \<Rightarrow> os_state \<Rightarrow> (get_obj \<times> resp \<times> os_state) option" where
  "get_execute os md5 junk_size w op st sys =
     (let (s, io) = st;
          (r, op) = get_init_common (get_get_params s op);
          op = op\<lparr>go_ret := r\<rparr>
      in if r < 0 then map_option (\<lambda>(op, st). (op, st, sys)) (send_response_data_error w op st)
         else
           let path = request_path (rw_globals w) s;
               size = (case sys_stat os path sys of Some n \<Rightarrow> n | None \<Rightarrow> junk_size);
               op = op\<lparr>go_total_len := word_of_int size\<rparr>;
               st = (s\<lparr>rs_obj_size := word_of_int size\<rparr>, io);
               left = (if is_ranged op then go_end op - go_ofs op else size)
           in case sys_open_read os path sys of
                None \<Rightarrow> map_option (\<lambda>(op, st). (op, st, sys)) (send_response_data_error w (op\<lparr>go_ret := - ERR_NOT_FOUND\<rparr>) st)
              | Some node \<Rightarrow> get_send_file os md5 w path node left op st sys)"

section \<open>RGWPutObj\<close>

record put_obj =
  po_cors_exist :: bool
  po_bucket_quota :: quota_info
  po_user_quota :: quota_info
  po_ret :: int
  po_ofs :: int
  po_supplied_md5_b64 :: "string option"
  po_supplied_etag :: "string option"
  po_etag :: string
  po_chunked_upload :: bool
  po_obj_manifest :: "string option"
  po_mtime :: int

definition new_put_obj :: put_obj where
  "new_put_obj =
     \<lparr>po_cors_exist = False, po_bucket_quota = new_quota, po_user_quota = new_quota, po_ret = 0, po_ofs = 0,
      po_supplied_md5_b64 = None, po_supplied_etag = None, po_etag = [], po_chunked_upload = False,
      po_obj_manifest = None, po_mtime = 0\<rparr>"

text \<open>\<^verbatim>\<open>RGWOp::init_quota\<close>: the quotas of the bucket and of the user.\<close>

definition RGW_OP_TYPE_MODIFY :: "32 word" where
  "RGW_OP_TYPE_MODIFY = 6"

definition init_quota :: "req_state \<Rightarrow> quota_info \<times> quota_info \<Rightarrow> quota_info \<times> quota_info" where
  "init_quota s = (\<lambda>(bq, uq).
     if rs_system_request s then (bq, uq)
     else if and (op_mask (rs_user s)) RGW_OP_TYPE_MODIFY = 0 then (bq, uq)
     else if obj_key_empty (rs_object s) then (bq, uq)
     else
       (if quota_enabled (bi_quota (rs_bucket_info s)) then bi_quota (rs_bucket_info s)
        else if quota_enabled (bucket_quota (rs_user s)) then bucket_quota (rs_user s)
        else bq,
        if quota_enabled (user_quota (rs_user s)) then user_quota (rs_user s) else uq))"

definition put_verify_params :: "globals \<Rightarrow> req_state \<Rightarrow> int" where
  "put_verify_params g s =
     (case rs_length s of
        Some l \<Rightarrow> if atoll l > g_rgw_max_put_size g then - ERR_TOO_LARGE else 0
      | None \<Rightarrow> 0)"

text \<open>\<^verbatim>\<open>get_data\<close>: the length or an error, and the data.\<close>

definition put_get_data :: "resp_world \<Rightarrow> put_obj \<Rightarrow> resp \<Rightarrow> int \<times> string \<times> put_obj \<times> resp" where
  "put_get_data w op = (\<lambda>(s, io).
     let g = rw_globals w;
         chunk_size = g_rgw_max_chunk_size g;
         cl = (case rs_length s of
                 Some l \<Rightarrow> let cl = word_of_int (atoll l - po_ofs op) in if cl > chunk_size then chunk_size else cl
               | None \<Rightarrow> chunk_size);
         (bl, io) = (if cl \<noteq> 0 then cio_read (rw_lib w) (nat (c_int (uint cl))) io else ([], io));
         len = int (length bl)
     in if word_of_int (po_ofs op) + word_of_int len > (word_of_int (g_rgw_max_put_size g) :: uint64) then (- ERR_TOO_LARGE, bl, op, (s, io))
        else (len, bl, if po_ofs op = 0 then op\<lparr>po_supplied_md5_b64 := env_get (rs_env s) ''HTTP_CONTENT_MD5'' None\<rparr> else op, (s, io)))"

text \<open>The loop that stores the data; the digest is computed over \<open>hashed\<close>.  It ends with a flag that is false where
  the source leaves for the end of the function.\<close>

partial_function (option) put_loop ::
    "os \<Rightarrow> resp_world \<Rightarrow> string \<Rightarrow> string \<Rightarrow> put_obj \<Rightarrow> resp \<Rightarrow> os_state \<Rightarrow> (bool \<times> string \<times> put_obj \<times> resp \<times> os_state) option" where
  "put_loop os w path hashed op st sys =
     (let (len, bl, op, st) = put_get_data w op st in
      if len < 0 then Some (False, hashed, op\<lparr>po_ret := len\<rparr>, st, sys)
      else if len = 0 then Some (True, hashed, op, st, sys)
      else
        let (result, sys) = sys_write os path bl sys in
        if result < 0 then Some (False, hashed, op, st, sys)
        else put_loop os w path (hashed @ bl) (op\<lparr>po_ofs := po_ofs op + len\<rparr>) st sys)"

text \<open>The quota check with what it reads: the clock, the result of opening the index, and the coding of its entries.\<close>

record 'e quota_world =
  qw_clock :: "nat \<Rightarrow> utime"
  qw_opened :: "int \<times> (int \<times> string) list"
  qw_enc :: "'e \<Rightarrow> string"
  qw_dec :: "'e \<Rightarrow> 'e decoder"
  qw_new :: 'e
  qw_overrun :: sys_info

definition store_check_quota :: "'e quota_world \<Rightarrow> string option \<Rightarrow> string \<Rightarrow> string \<Rightarrow> quota_info \<Rightarrow> quota_info \<Rightarrow> uint64 \<Rightarrow>
    quota_handler \<Rightarrow> (int \<times> quota_handler) option" where
  "store_check_quota qw stat_file owner bucket uq bq obj_size h =
     handler_check_quota (qw_clock qw)
       (get_bucket_stats (qw_dec qw) (qw_new qw) (qw_opened qw) (get_bucket_head (qw_enc qw) (qw_overrun qw) stat_file))
       owner bucket uq bq 1 obj_size h"

definition bucket_stat_path :: "globals \<Rightarrow> req_state \<Rightarrow> string" where
  "bucket_stat_path g s = stat_path (g_buckets_root g) (bkt_name (rs_bucket s))"

text \<open>From \<^verbatim>\<open>drop_privs\<close> to the label \<^verbatim>\<open>done\<close>.\<close>

definition put_store :: "os \<Rightarrow> (string \<Rightarrow> string) \<Rightarrow> 'e quota_world \<Rightarrow> resp_world \<Rightarrow> bool \<Rightarrow> put_obj \<Rightarrow> resp \<Rightarrow> quota_handler \<Rightarrow> os_state \<Rightarrow>
    (put_obj \<times> resp \<times> quota_handler \<times> os_state) option" where
  "put_store os md5 qw w need_calc_md5 op st h sys = do {
     let path = request_path (rw_globals w) (fst st);
     let multipart = args_exists (args (rs_info (fst st))) ''uploadId'';
     case sys_open_write os (os_junk_mode os) (\<not> multipart) path sys of
       None \<Rightarrow> Some (op, st, h, sys)
     | Some sys \<Rightarrow> do {
         let sys = sys_chmod os 4095 path sys;
         (ok, hashed, op, st, sys) \<leftarrow> put_loop os w path [] op st sys;
         if \<not> ok then Some (op, st, h, sys)
         else do {
           (s, io) \<leftarrow> Some st;
           let s = s\<lparr>rs_obj_size := word_of_int (po_ofs op)\<rparr>;
           (r, h) \<leftarrow> store_check_quota qw (fopen_read os (c_str (bucket_stat_path (rw_globals w) s)) sys) ''bwcpn'' (bkt_name (rs_bucket s))
                      (po_user_quota op) (po_bucket_quota op) (rs_obj_size s) h;
           let op = op\<lparr>po_ret := r\<rparr>;
           let op = (if r \<ge> 0 \<and> need_calc_md5 then op\<lparr>po_etag := buf_to_hex (md5 hashed)\<rparr> else op);
           Some (op, (s, io), h, sys) } } }"

abbreviation (input) ERR_INVALID_DIGEST :: int where "ERR_INVALID_DIGEST \<equiv> 2004"

text \<open>The checks before the data, and the label \<^verbatim>\<open>done\<close>.  \<^verbatim>\<open>RGWPutObj_ObjStore_S3::get_params\<close> has no return statement:
  \<open>params_ret\<close> is what its caller finds.\<close>

definition put_checks :: "int \<Rightarrow> put_obj \<Rightarrow> req_state \<Rightarrow> int" where
  "put_checks params_ret op s =
     (if obj_key_empty (rs_object s) then - EINVAL
      else if params_ret < 0 then params_ret
      else case po_supplied_md5_b64 op of
        None \<Rightarrow> 0
      | Some b64 \<Rightarrow>
          (case ceph_unarmor 17 (c_str b64) of
             Inr (n, out) \<Rightarrow> if n = 16 then 0 else - ERR_INVALID_DIGEST
           | Inl e \<Rightarrow> - ERR_INVALID_DIGEST))"

definition put_done :: "os \<Rightarrow> globals \<Rightarrow> 32 word \<Rightarrow> req_state \<Rightarrow> os_state \<Rightarrow> os_state option" where
  "put_done os g old_uid s sys =
     map_option (restore_privs os old_uid) (update_stat os (bucket_stat_path g s) 1 (rs_obj_size s) sys)"

definition put_execute :: "os \<Rightarrow> (string \<Rightarrow> string) \<Rightarrow> 'e quota_world \<Rightarrow> int \<Rightarrow> resp_world \<Rightarrow> put_obj \<Rightarrow> resp \<Rightarrow> quota_handler \<Rightarrow> os_state \<Rightarrow>
    (put_obj \<times> resp \<times> quota_handler \<times> os_state) option" where
  "put_execute os md5 qw params_ret w op st h sys =
     (let need_calc_md5 = (po_obj_manifest op = None \<or> po_supplied_md5_b64 op \<noteq> None);
          r = put_checks params_ret op (fst st);
          op = op\<lparr>po_ret := r\<rparr>
      in if r < 0 then map_option (\<lambda>sys. (op, st, h, sys)) (put_done os (rw_globals w) 0 (fst st) sys)
         else do {
           let (old_uid, sys) = drop_privs os (auid (rs_user (fst st))) sys;
           (op, st, h, sys) \<leftarrow> put_store os md5 qw w need_calc_md5 op st h sys;
           sys \<leftarrow> put_done os (rw_globals w) old_uid (fst st) sys;
           Some (op, st, h, sys) })"

definition put_send_response :: "resp_world \<Rightarrow> put_obj \<Rightarrow> resp \<Rightarrow> resp option" where
  "put_send_response w op st = do {
     st \<leftarrow> (if po_ret op \<noteq> 0 then Some (set_req_state_err (po_ret op) (fst st), snd st)
             else do { st \<leftarrow> dump_etag w (c_str (po_etag op)) st; dump_content_length w 0 st });
     st \<leftarrow> (if rs_system_request (fst st) \<and> po_mtime op \<noteq> 0 then dump_epoch_header w ''Rgwx-Mtime'' (po_mtime op) st else Some st);
     st \<leftarrow> dump_errno w st;
     end_header w (Some (po_cors_exist op)) None (- 1) False st }"

section \<open>RGWDeleteObj\<close>

record delete_obj =
  do_cors_exist :: bool
  do_ret :: int
  do_delete_marker :: bool
  do_version_id :: string

definition new_delete_obj :: delete_obj where
  "new_delete_obj = \<lparr>do_cors_exist = False, do_ret = 0, do_delete_marker = False, do_version_id = []\<rparr>"

definition delete_verify_permission :: "req_state \<Rightarrow> int" where
  "delete_verify_permission s = (if verify_bucket_permission s RGW_PERM_WRITE then 0 else - EACCES)"

text \<open>The counters go down by one entry and by the size the file had.\<close>

definition delete_execute :: "os \<Rightarrow> globals \<Rightarrow> delete_obj \<Rightarrow> req_state \<Rightarrow> os_state \<Rightarrow> (delete_obj \<times> os_state) option" where
  "delete_execute os g op s sys = do {
     let (old_uid, sys) = drop_privs os (auid (rs_user s)) sys;
     case sys_stat os (request_path g s) sys of
       None \<Rightarrow> Some (op, restore_privs os old_uid sys)
     | Some n \<Rightarrow> do {
         (r, sys) \<leftarrow> mon_command_rm os (request_path g s) sys;
         sys \<leftarrow> update_stat os (bucket_stat_path g s) (- 1) (- word_of_int n) sys;
         Some (op\<lparr>do_ret := r\<rparr>, restore_privs os old_uid sys) } }"

definition delete_send_response :: "resp_world \<Rightarrow> delete_obj \<Rightarrow> resp \<Rightarrow> resp option" where
  "delete_send_response w op = (\<lambda>(s, io). do {
     let r = (if do_ret op = - ENOENT then 0 else do_ret op);
     let r = (if r = 0 then STATUS_NO_CONTENT else r);
     st \<leftarrow> dump_errno w (set_req_state_err r s, io);
     st \<leftarrow> (if do_version_id op \<noteq> [] then dump_string_header w ''x-amz-version-id'' (c_str (do_version_id op)) st else Some st);
     st \<leftarrow> (if do_delete_marker op then dump_string_header w ''x-amz-delete-marker'' ''true'' st else Some st);
     end_header w (Some (do_cors_exist op)) None (- 1) False st })"

section \<open>RGWCopyObj\<close>

datatype attrs_mod = ATTRSMOD_NONE | ATTRSMOD_REPLACE | ATTRSMOD_MERGE

record copy_obj =
  co_cors_exist :: bool
  co_dest_policy :: acl_policy
  co_if_mod :: "string option"
  co_if_unmod :: "string option"
  co_if_match :: "string option"
  co_if_nomatch :: "string option"
  co_mod_time :: "int option"
  co_unmod_time :: "int option"
  co_ret :: int
  co_attrs :: "string string_map"
  co_src_bucket_name :: string
  co_src_object :: rgw_obj_key
  co_dest_bucket_name :: string
  co_dest_object :: string
  co_mtime :: int
  co_attrs_mod :: attrs_mod
  co_source_zone :: string
  co_client_id :: string
  co_op_id :: string
  co_etag :: string
  co_sent_header :: bool

definition new_copy_obj :: copy_obj where
  "new_copy_obj =
     \<lparr>co_cors_exist = False, co_dest_policy = \<lparr>pol_acl = new_acl, pol_owner = \<lparr>own_id = [], own_display_name = []\<rparr>\<rparr>, co_if_mod = None, co_if_unmod = None, co_if_match = None, co_if_nomatch = None,
      co_mod_time = None, co_unmod_time = None, co_ret = 0, co_attrs = [], co_src_bucket_name = [], co_src_object = new_obj_key,
      co_dest_bucket_name = [], co_dest_object = [], co_mtime = 0, co_attrs_mod = ATTRSMOD_NONE, co_source_zone = [],
      co_client_id = [], co_op_id = [], co_etag = [], co_sent_header = False\<rparr>"

definition copy_source_zone :: "req_state \<Rightarrow> copy_obj \<Rightarrow> int \<times> copy_obj" where
  "copy_source_zone s op =
     (let param = (\<lambda>n. fst (args_get (args (rs_info s)) (RGW_SYS_PARAM_PREFIX @ n))) in
      if \<not> rs_system_request s then (0, op)
      else
        let op = op\<lparr>co_source_zone := param ''source-zone''\<rparr> in
        if co_source_zone op = [] then (0, op)
        else
          let op = op\<lparr>co_client_id := param ''client-id'', co_op_id := param ''op-id''\<rparr> in
          (if co_client_id op = [] \<or> co_op_id op = [] then - EINVAL else 0, op))"

definition copy_directive :: "string option \<Rightarrow> copy_obj \<Rightarrow> int \<times> copy_obj" where
  "copy_directive md op =
     (case md of
        None \<Rightarrow> (0, op)
      | Some d \<Rightarrow>
          if strcaseeq d ''COPY'' then (0, op\<lparr>co_attrs_mod := ATTRSMOD_NONE\<rparr>)
          else if strcaseeq d ''REPLACE'' then (0, op\<lparr>co_attrs_mod := ATTRSMOD_REPLACE\<rparr>)
          else if co_source_zone op \<noteq> [] then (0, op\<lparr>co_attrs_mod := ATTRSMOD_NONE\<rparr>)
          else (- EINVAL, op))"

definition copy_onto_itself :: "copy_obj \<Rightarrow> bool" where
  "copy_onto_itself op \<longleftrightarrow> co_source_zone op = [] \<and> co_dest_bucket_name op = co_src_bucket_name op \<and>
     co_dest_object op = okey_name (co_src_object op) \<and> okey_instance (co_src_object op) = [] \<and> co_attrs_mod op \<noteq> ATTRSMOD_REPLACE"

definition copy_get_params :: "req_state \<Rightarrow> copy_obj \<Rightarrow> int \<times> copy_obj" where
  "copy_get_params s op =
     (if env_get (rs_env s) ''HTTP_X_AMZ_COPY_SOURCE_RANGE'' None \<noteq> None then (- ERR_NOT_IMPLEMENTED, op)
      else
        let op = op\<lparr>co_if_mod := env_get (rs_env s) ''HTTP_X_AMZ_COPY_IF_MODIFIED_SINCE'' None,
                    co_if_unmod := env_get (rs_env s) ''HTTP_X_AMZ_COPY_IF_UNMODIFIED_SINCE'' None,
                    co_if_match := env_get (rs_env s) ''HTTP_X_AMZ_COPY_IF_MATCH'' None,
                    co_if_nomatch := env_get (rs_env s) ''HTTP_X_AMZ_COPY_IF_NONE_MATCH'' None,
                    co_src_bucket_name := rs_src_bucket_name s, co_src_object := rs_src_object s,
                    co_dest_bucket_name := bkt_name (rs_bucket s), co_dest_object := okey_name (rs_object s)\<rparr>;
            (r, op) = copy_source_zone s op
        in if r < 0 then (r, op)
           else
             let (r, op) = copy_directive (env_get (rs_env s) ''HTTP_X_AMZ_METADATA_DIRECTIVE'' None) op in
             if r < 0 then (r, op)
             else (if copy_onto_itself op then - ERR_INVALID_REQUEST else 0, op))"

definition copy_verify_permission :: "req_state \<Rightarrow> copy_obj \<Rightarrow> int \<times> copy_obj" where
  "copy_verify_permission s op = (let (r, op) = copy_get_params s op in (if r < 0 then r else 0, op\<lparr>co_ret := r\<rparr>))"

text \<open>\<^verbatim>\<open>format_xattr\<close>: a value that is no plain UTF-8 becomes an encoded word; the metadata of the request are
  changed in place.\<close>

definition format_xattr :: "string \<Rightarrow> string" where
  "format_xattr xattr =
     (if check_utf8 xattr \<noteq> 0 \<or> check_for_control_characters xattr \<noteq> 0 then
        let mlen = fst (mime_encode_as_qp (c_str xattr) []);
            out = snd (mime_encode_as_qp (c_str xattr) (replicate mlen NUL))
        in ''=?UTF-8?Q?'' @ take (mlen - 1) out @ ''?=''
      else xattr)"

text \<open>Appending to the attribute of a map, as \<^verbatim>\<open>attrs[name]\<close> does; values are stored with their terminator.\<close>

definition append_attr :: "string \<Rightarrow> string \<Rightarrow> string string_map \<Rightarrow> string string_map" where
  "append_attr name val attrs =
     smap_set name ((case smap_get attrs name of None \<Rightarrow> [] | Some v \<Rightarrow> v) @ val @ [NUL]) attrs"

definition rgw_get_request_metadata :: "req_info \<Rightarrow> string string_map \<Rightarrow> req_info \<times> string string_map" where
  "rgw_get_request_metadata info attrs =
     (let m = map (\<lambda>(name, xattr). (name, format_xattr xattr)) (x_meta_map info)
      in (info\<lparr>x_meta_map := m\<rparr>, fold (\<lambda>(name, xattr). append_attr (RGW_ATTR_PREFIX @ name) xattr) m attrs))"

definition copy_init_common :: "copy_obj \<Rightarrow> req_state \<Rightarrow> int \<times> copy_obj \<times> req_state" where
  "copy_init_common op s =
     (case opt_time (co_if_mod op) (co_mod_time op) of
        Inl e \<Rightarrow> (e, op\<lparr>co_ret := e\<rparr>, s)
      | Inr t \<Rightarrow>
          let op = op\<lparr>co_mod_time := t\<rparr> in
          (case opt_time (co_if_unmod op) (co_unmod_time op) of
             Inl e \<Rightarrow> (e, op\<lparr>co_ret := e\<rparr>, s)
           | Inr t \<Rightarrow>
               let op = op\<lparr>co_unmod_time := t\<rparr>;
                   attrs = smap_set (RGW_ATTR_PREFIX @ ''acl'') (enc_acl_policy (co_dest_policy op)) (co_attrs op);
                   (info, attrs) = rgw_get_request_metadata (rs_info s) attrs;
                   attrs = fold (\<lambda>(name, val). append_attr name val) (rs_generic_attrs s) attrs
               in (0, op\<lparr>co_attrs := attrs\<rparr>, s\<lparr>rs_info := info\<rparr>)))"

definition copy_execute :: "os \<Rightarrow> globals \<Rightarrow> copy_obj \<Rightarrow> req_state \<Rightarrow> os_state \<Rightarrow> copy_obj \<times> req_state \<times> os_state" where
  "copy_execute os g op s sys =
     (let src_path = object_path g (co_src_bucket_name op) (okey_name (co_src_object op));
          dst_path = object_path g (co_dest_bucket_name op) (co_dest_object op);
          (r, op, s) = copy_init_common op s
      in if r < 0 then (op, s, sys)
         else
           let (old_uid, sys) = drop_privs os (auid (rs_user s)) sys;
               (r, sys) = (case os_rename os (os_fsuid sys) src_path dst_path (os_files sys) of
                             Inl errno \<Rightarrow> (- errno, sys)
                           | Inr files \<Rightarrow> (0, sys\<lparr>os_files := files\<rparr>))
           in (op\<lparr>co_ret := r\<rparr>, s, restore_privs os old_uid sys))"

definition copy_send_partial_response :: "resp_world \<Rightarrow> int \<Rightarrow> copy_obj \<Rightarrow> resp \<Rightarrow> (copy_obj \<times> resp) option" where
  "copy_send_partial_response w ofs op st = do {
     (op, st) \<leftarrow>
       (if \<not> co_sent_header op then do {
          let st = (if co_ret op \<noteq> 0 then (set_req_state_err (co_ret op) (fst st), snd st) else st);
          st \<leftarrow> dump_errno w st;
          st \<leftarrow> end_header w (Some (co_cors_exist op)) (Some ''application/xml'') (- 1) False st;
          st \<leftarrow> (if co_ret op = 0 then fmt (OpenSection ''CopyObjectResult'' None [] False) st else Some st);
          Some (op\<lparr>co_sent_header := True\<rparr>, st) }
        else map_option (Pair op) (fmt (DumpInt ''Progress'' ofs) st));
     map_option (Pair op) (rgw_flush_formatter w st) }"

definition copy_send_response :: "resp_world \<Rightarrow> copy_obj \<Rightarrow> resp \<Rightarrow> (copy_obj \<times> resp) option" where
  "copy_send_response w op st = do {
     (op, st) \<leftarrow> (if \<not> co_sent_header op then copy_send_partial_response w 0 op st else Some (op, st));
     if co_ret op = 0 then do {
       st \<leftarrow> fmts (dump_time ''LastModified'' (co_mtime op) @ dump_if_set ''ETag'' (co_etag op) @ [CloseSection]) st;
       map_option (Pair op) (rgw_flush_formatter_and_reset w st) }
     else Some (op, st) }"

end
