(* ===== verification/Bucket_List.thy ===== *)
theory Bucket_List
  imports Policies Objects
begin

text \<open>
  Listings: \<^verbatim>\<open>issue_bucket_list_op\<close> of \<^verbatim>\<open>src/cls/rgw/cls_rgw_client.cc\<close>, which turns the output of \<^verbatim>\<open>ls\<close> into
  directory entries, \<^verbatim>\<open>cls_bucket_list\<close> and \<^verbatim>\<open>list_objects\<close> of \<^verbatim>\<open>src/rgw/porting_rados.cc\<close>, the operations
  \<^verbatim>\<open>RGWListBucket\<close> and \<^verbatim>\<open>RGWListBuckets\<close> with \<^verbatim>\<open>cls_user_bucket_list\<close> (\<^verbatim>\<open>src/cls/user/cls_user_client.cc\<close>), and their
  documents.  The shell is the parameter \<open>os_popen\<close>.  The run-time member \<^verbatim>\<open>oid\<close> of a bucket is an argument.  The theorems say
  what a listing contains for a directory whose content the shell prints.
\<close>

section \<open>Entries\<close>

record dir_entry =
  de_name :: string
  de_instance :: string
  de_size :: uint64
  de_mtime :: "32 word"
  de_etag :: string
  de_owner :: string
  de_owner_display_name :: string
  de_content_type :: string
  de_tag :: string
  de_flags :: "16 word"
  de_versioned_epoch :: uint64

definition new_dir_entry :: dir_entry where
  "new_dir_entry = \<lparr>de_name = [], de_instance = [], de_size = 0, de_mtime = 0, de_etag = [], de_owner = [], de_owner_display_name = [],
     de_content_type = [], de_tag = [], de_flags = 0, de_versioned_epoch = 0\<rparr>"

record obj_ent =
  oe_key :: rgw_obj_key
  oe_ns :: string
  oe_owner :: string
  oe_owner_display_name :: string
  oe_size :: uint64
  oe_mtime :: "32 word"
  oe_etag :: string
  oe_content_type :: string
  oe_tag :: string
  oe_flags :: "32 word"
  oe_versioned_epoch :: uint64

definition is_current :: "obj_ent \<Rightarrow> bool" where
  "is_current e = (and (oe_flags e) 1 = 0 \<or> and (oe_flags e) 3 = 3)"

definition is_delete_marker :: "obj_ent \<Rightarrow> bool" where
  "is_delete_marker e = (and (oe_flags e) 4 \<noteq> 0)"

definition is_visible :: "obj_ent \<Rightarrow> bool" where
  "is_visible e = (is_current e \<and> \<not> is_delete_marker e)"

section \<open>Reading a directory\<close>

text \<open>\<^verbatim>\<open>dirname\<close> and \<^verbatim>\<open>basename\<close> of the C library.\<close>

definition strip_slashes :: "string \<Rightarrow> string" where
  "strip_slashes p = rev (dropWhile (\<lambda>c. c = CHR ''/'') (rev p))"

definition basename :: "string \<Rightarrow> string" where
  "basename p =
     (if p = [] then ''.''
      else let q = strip_slashes p in
        if q = [] then ''/'' else rev (takeWhile (\<lambda>c. c \<noteq> CHR ''/'') (rev q)))"

definition dirname :: "string \<Rightarrow> string" where
  "dirname p =
     (if p = [] then ''.''
      else let q = strip_slashes p in
        if q = [] then ''/''
        else if CHR ''/'' \<notin> set q then ''.''
        else let d = strip_slashes (rev (dropWhile (\<lambda>c. c \<noteq> CHR ''/'') (rev q))) in if d = [] then ''/'' else d)"

text \<open>\<^verbatim>\<open>sscanf\<close> with the format \<^verbatim>\<open>.dir.%s\<close>: a word after the prefix.\<close>

definition scan_dir_oid :: "string \<Rightarrow> string" where
  "scan_dir_oid oid = (if starts_with oid ''.dir.'' then takeWhile (\<lambda>c. \<not> isspace c) (dropWhile isspace (drop 5 oid)) else [])"

definition quoted_path :: "globals \<Rightarrow> string \<Rightarrow> string \<Rightarrow> string" where
  "quoted_path g bucket_name prefix =
     [CHR 0x27] @ c_str (g_buckets_root g) @ ''/'' @ bucket_name @ ''/'' @ c_str prefix @ [CHR 0x27]"

definition ls_command :: "globals \<Rightarrow> string \<Rightarrow> string \<Rightarrow> string" where
  "ls_command g bucket_name prefix = ''ls -1 '' @ quoted_path g bucket_name prefix"

definition is_dir_command :: "globals \<Rightarrow> string \<Rightarrow> string \<Rightarrow> string" where
  "is_dir_command g bucket_name prefix = ''[ -d '' @ quoted_path g bucket_name prefix @ '' ]''"

text \<open>What \<^verbatim>\<open>stat\<close> finds.\<close>

definition sys_stat_node :: "os \<Rightarrow> string \<Rightarrow> os_state \<Rightarrow> inode option" where
  "sys_stat_node os path st =
     (if os_may os (os_fsuid st) MayStat (os_resolve os path) (os_files st) then os_files st (os_resolve os path) else None)"

text \<open>The loop over the lines: \<open>base\<close> is where the names are, \<open>key_prefix\<close> what they get in the listing.  A line has a buffer of
  256 bytes, which also holds the slash of a directory; an unfinished last line makes the loop run past the end.\<close>

definition list_line :: "bucket_world \<Rightarrow> string \<Rightarrow> string \<Rightarrow> os_state \<Rightarrow> string \<Rightarrow> dir_entry string_map \<Rightarrow> dir_entry string_map option" where
  "list_line bw base key_prefix sys name m =
     (if length name \<ge> 256 then None
      else case sys_stat_node (bw_os bw) (c_str (base @ name)) sys of
        None \<Rightarrow> Some m
      | Some node \<Rightarrow>
          let shown = name @ (case node of Directory n \<Rightarrow> ''/'' | Regular mode d \<Rightarrow> []) in
          if length shown \<ge> 256 then None
          else Some (smap_set shown (new_dir_entry\<lparr>de_name := key_prefix @ shown, de_size := word_of_int (inode_size node),
                       de_mtime := ucast (bw_mtime bw (c_str (base @ name)) sys)\<rparr>) m))"

function list_lines :: "bucket_world \<Rightarrow> string \<Rightarrow> string \<Rightarrow> os_state \<Rightarrow> string \<Rightarrow> dir_entry string_map \<Rightarrow> dir_entry string_map option" where
  "list_lines bw base key_prefix sys txt m =
     (let name = takeWhile (\<lambda>c. c \<noteq> LF) txt in
      if name = [] then Some m
      else case list_line bw base key_prefix sys name m of
        None \<Rightarrow> None
      | Some m' \<Rightarrow>
          (case drop (length name) txt of
             [] \<Rightarrow> None
           | c # rest \<Rightarrow> list_lines bw base key_prefix sys rest m'))"
  by pat_completeness auto

termination list_lines
proof (relation "measure (\<lambda>(bw, base, key_prefix, sys, txt, m). length txt)", goal_cases)
  case (2 bw base key_prefix sys lns m name m1 c rest)
  then have "length (drop (length name) lns) = Suc (length rest)" by simp
  then show ?case by simp
qed simp

declare list_lines.simps [simp del]

text \<open>Where a buffer would overrun there is no result.\<close>

definition fits :: "nat \<Rightarrow> string \<Rightarrow> unit option" where
  "fits n s = (if length s < n then Some () else None)"

text \<open>\<^verbatim>\<open>issue_bucket_list_op\<close> adds to the entries of a shard.  For a prefix that is no directory the text the loop runs over is
  assigned anew behind its pointer; \<open>stale\<close> is what the pointer reads then.\<close>

definition issue_bucket_list_op :: "bucket_world \<Rightarrow> (string \<Rightarrow> string \<Rightarrow> string) \<Rightarrow> globals \<Rightarrow> string \<Rightarrow> string \<Rightarrow> os_state \<Rightarrow>
    (dir_entry string_map \<times> os_state) option" where
  "issue_bucket_list_op bw stale g oid filter_prefix sys = do {
     let bucket_name = scan_dir_oid (c_str oid);
     _ \<leftarrow> fits 256 bucket_name;
     _ \<leftarrow> fits 512 (ls_command g bucket_name filter_prefix);
     (files, sys) \<leftarrow> shell_execute (bw_os bw) (ls_command g bucket_name filter_prefix) sys;
     if files = [] then Some ([], sys)
     else do {
       let base_path = g_buckets_root g @ ''/'' @ bucket_name @ ''/'';
       _ \<leftarrow> fits 512 (is_dir_command g bucket_name filter_prefix);
       if filter_prefix = [] then map_option (\<lambda>m. (m, sys)) (list_lines bw base_path [] sys files [])
       else do {
         let (r, sys) = shell_simple (bw_os bw) (is_dir_command g bucket_name filter_prefix) sys;
         if r = 0 then do {
           let dir = filter_prefix @ (if last filter_prefix \<noteq> CHR ''/'' then ''/'' else []);
           map_option (\<lambda>m. (m, sys)) (list_lines bw (base_path @ dir) dir sys files []) }
         else do {
           _ \<leftarrow> fits 512 (c_str filter_prefix);
           let dir_prefix = (let d = dirname (c_str filter_prefix) @ ''/'' in if d = ''./'' then [] else d);
           let files = stale files (basename files);
           map_option (\<lambda>m. (m, sys)) (list_lines bw (base_path @ dir_prefix) dir_prefix sys files []) } } } }"

section \<open>The index of a bucket\<close>

definition dir_oid_prefix :: string where
  "dir_oid_prefix = ''.dir.''"

definition bucket_is_system :: "rgw_bucket \<Rightarrow> bool" where
  "bucket_is_system b = (char_at (bkt_name b) 0 = CHR ''.'')"

definition open_bucket_index_base :: "rgw_bucket \<Rightarrow> string result" where
  "open_bucket_index_base b = (if bucket_is_system b then Inl (- EINVAL) else Inr (dir_oid_prefix @ bkt_marker b))"

definition get_bucket_instance_info :: "os \<Rightarrow> globals \<Rightarrow> rgw_bucket \<Rightarrow> string \<Rightarrow> bucket_info \<Rightarrow> os_state \<Rightarrow> (int \<times> bucket_info \<times> os_state) option" where
  "get_bucket_instance_info os g b bkt_oid info sys =
     get_bucket_instance_from_oid os g (if bkt_oid = [] then get_bucket_meta_oid b else bkt_oid) info sys"

text \<open>All shards, as \<^verbatim>\<open>shard_id\<close> is left at -1.\<close>

definition get_bucket_index_objects :: "string \<Rightarrow> 32 word \<Rightarrow> string list" where
  "get_bucket_index_objects base num_shards =
     (if num_shards = 0 then [base] else map (\<lambda>i. c_str base @ ''.'' @ dec_int_str (sint (word_of_nat i :: 32 word))) [0..<unat num_shards])"

definition open_bucket_index :: "os \<Rightarrow> globals \<Rightarrow> rgw_bucket \<Rightarrow> string \<Rightarrow> os_state \<Rightarrow> (string list result \<times> os_state) option" where
  "open_bucket_index os g b bkt_oid sys =
     (case open_bucket_index_base b of
        Inl e \<Rightarrow> Some (Inl e, sys)
      | Inr base \<Rightarrow> do {
          (r, binfo, sys) \<leftarrow> get_bucket_instance_info os g b bkt_oid new_bucket_info sys;
          Some (if r < 0 then (Inl r, sys) else (Inr (get_bucket_index_objects base (bi_num_shards binfo)), sys)) })"

text \<open>\<^verbatim>\<open>CLSRGWIssueBucketList\<close> lists each shard; a single listing never reports a failure or that it was truncated.\<close>

fun issue_bucket_lists :: "bucket_world \<Rightarrow> (string \<Rightarrow> string \<Rightarrow> string) \<Rightarrow> globals \<Rightarrow> string \<Rightarrow> string list \<Rightarrow> os_state \<Rightarrow>
    (dir_entry string_map list \<times> os_state) option" where
  "issue_bucket_lists bw stale g prefix [] sys = Some ([], sys)"
| "issue_bucket_lists bw stale g prefix (oid # oids) sys = do {
     (m, sys) \<leftarrow> issue_bucket_list_op bw stale g oid prefix sys;
     (ms, sys) \<leftarrow> issue_bucket_lists bw stale g prefix oids sys;
     Some (m # ms, sys) }"

definition make_ent :: "dir_entry \<Rightarrow> obj_ent" where
  "make_ent d =
     \<lparr>oe_key = \<lparr>okey_name = de_name d, okey_instance = de_instance d\<rparr>, oe_ns = [], oe_owner = de_owner d,
      oe_owner_display_name = de_owner_display_name d, oe_size = de_size d, oe_mtime = de_mtime d, oe_etag = de_etag d,
      oe_content_type = de_content_type d, oe_tag = de_tag d, oe_flags = ucast (de_flags d), oe_versioned_epoch = de_versioned_epoch d\<rparr>"

text \<open>The next name of each shard.\<close>

definition candidates :: "dir_entry string_map list \<Rightarrow> nat string_map" where
  "candidates shards =
     fold (\<lambda>(i, es) c. case es of [] \<Rightarrow> c | e # es' \<Rightarrow> smap_set (fst e) i c) (enumerate 0 shards) []"

text \<open>The loop that takes the least candidate, at most \<open>n\<close> times.\<close>

fun merge_shards :: "nat \<Rightarrow> dir_entry string_map list \<Rightarrow> nat string_map \<Rightarrow> obj_ent string_map \<Rightarrow> obj_ent string_map \<times> dir_entry string_map list" where
  "merge_shards (Suc n) shards ((name, i) # cs) m =
     (case shards ! i of
        [] \<Rightarrow> (m, shards)
      | (k, d) # es \<Rightarrow>
          merge_shards n (shards[i := es]) (case es of [] \<Rightarrow> cs | e # es' \<Rightarrow> smap_set (fst e) i cs) (smap_set k (make_ent d) m))"
| "merge_shards n shards cs m = (m, shards)"

text \<open>\<^verbatim>\<open>cls_bucket_list\<close>: the code, the entries, whether there are more, and the last entry.  Where the listing starts is not
  looked at.\<close>

definition cls_bucket_list :: "bucket_world \<Rightarrow> (string \<Rightarrow> string \<Rightarrow> string) \<Rightarrow> globals \<Rightarrow> rgw_bucket \<Rightarrow> string \<Rightarrow> rgw_obj_key \<Rightarrow> string \<Rightarrow> 32 word \<Rightarrow>
    os_state \<Rightarrow> (int \<times> obj_ent string_map \<times> bool \<times> rgw_obj_key \<times> os_state) option" where
  "cls_bucket_list bw stale g b bkt_oid start prefix num_entries sys = do {
     (oids, sys) \<leftarrow> open_bucket_index (bw_os bw) g b bkt_oid sys;
     case oids of
       Inl r \<Rightarrow> Some (r, [], True, start, sys)
     | Inr oids \<Rightarrow> do {
         (shards, sys) \<leftarrow> issue_bucket_lists bw stale g prefix oids sys;
         let (m, rest) = merge_shards (unat num_entries) shards (candidates shards) [];
         Some (0, m, list_ex (\<lambda>es. es \<noteq> []) rest,
           if m = [] then start else \<lparr>okey_name = fst (last m), okey_instance = []\<rparr>, sys) } }"

section \<open>list\_objects\<close>

record list_params =
  lp_prefix :: string
  lp_delim :: string
  lp_marker :: rgw_obj_key
  lp_end_marker :: rgw_obj_key
  lp_ns :: string
  lp_enforce_ns :: bool
  lp_list_versions :: bool

definition new_list_params :: list_params where
  "new_list_params = \<lparr>lp_prefix = [], lp_delim = [], lp_marker = new_obj_key, lp_end_marker = new_obj_key, lp_ns = [], lp_enforce_ns = True,
     lp_list_versions = False\<rparr>"

text \<open>The local variables of the loop and what it fills.  \<^verbatim>\<open>params.marker\<close> is not read again and left out.\<close>

record list_state =
  ls_count :: int
  ls_truncated :: bool
  ls_cur_marker :: rgw_obj_key
  ls_skip_after_delim :: string
  ls_next_marker :: rgw_obj_key
  ls_common_prefixes :: "bool string_map"
  ls_result :: "obj_ent list"

definition find_str_from :: "string \<Rightarrow> string \<Rightarrow> nat \<Rightarrow> nat option" where
  "find_str_from pat s p = (if p > length s then None else map_option (\<lambda>i. p + i) (find_str pat (drop p s)))"

definition obj_key_less :: "rgw_obj_key \<Rightarrow> rgw_obj_key \<Rightarrow> bool" where
  "obj_key_less a b = (okey_name a < okey_name b \<or> okey_name a = okey_name b \<and> okey_instance a < okey_instance b)"

definition name_key :: "string \<Rightarrow> rgw_obj_key" where
  "name_key n = \<lparr>okey_name = n, okey_instance = []\<rparr>"

text \<open>Where the delimiter is in a name, behind the prefix.\<close>

definition delim_at :: "list_params \<Rightarrow> string \<Rightarrow> nat option" where
  "delim_at p name = (if lp_delim p = [] then None else find_str_from (lp_delim p) name (length (lp_prefix p)))"

text \<open>One entry: \<^verbatim>\<open>goto done\<close> is \<^term>\<open>True\<close>.\<close>

definition list_entry :: "list_params \<Rightarrow> rgw_obj_key \<Rightarrow> string \<Rightarrow> int \<Rightarrow> obj_ent \<Rightarrow> list_state \<Rightarrow> bool \<times> list_state" where
  "list_entry p cur_end_marker bigger_than_delim max_num e st =
     (case parse_raw_oid (okey_name (oe_key e)) of
        None \<Rightarrow> (False, st)
      | Some (name, i, n) \<Rightarrow>
          let obj = (oe_key e)\<lparr>okey_name := name\<rparr> in
          if \<not> lp_list_versions p \<and> \<not> is_visible e then (False, st)
          else if lp_enforce_ns p \<and> n \<noteq> lp_ns p then
            if lp_ns p \<noteq> [] then (True, st\<lparr>ls_truncated := False\<rparr>) else (False, st)
          else if okey_name cur_end_marker \<noteq> [] \<and> \<not> obj_key_less obj cur_end_marker then (True, st\<lparr>ls_truncated := False\<rparr>)
          else
            let st = (if ls_count st < max_num then st\<lparr>ls_next_marker := obj\<rparr> else st) in
            if lp_prefix p \<noteq> [] \<and> take (length (lp_prefix p)) name \<noteq> lp_prefix p then (False, st)
            else case delim_at p name of
              Some delim_pos \<Rightarrow>
                let prefix_key = take (delim_pos + 1) name in
                if smap_get (ls_common_prefixes st) prefix_key \<noteq> None then (False, st)
                else if ls_count st \<ge> max_num then (True, st\<lparr>ls_truncated := True\<rparr>)
                else (False, st\<lparr>ls_next_marker := name_key prefix_key, ls_common_prefixes := smap_set prefix_key True (ls_common_prefixes st),
                        ls_skip_after_delim := take delim_pos name @ bigger_than_delim, ls_count := ls_count st + 1\<rparr>)
            | None \<Rightarrow>
                if ls_count st \<ge> max_num then (True, st\<lparr>ls_truncated := True\<rparr>)
                else (False, st\<lparr>ls_result := ls_result st @ [e\<lparr>oe_key := obj, oe_ns := n\<rparr>], ls_count := ls_count st + 1\<rparr>))"

fun list_entries :: "list_params \<Rightarrow> rgw_obj_key \<Rightarrow> string \<Rightarrow> int \<Rightarrow> obj_ent list \<Rightarrow> list_state \<Rightarrow> bool \<times> list_state" where
  "list_entries p cem bigger max_num [] st = (False, st)"
| "list_entries p cem bigger max_num (e # es) st =
     (case list_entry p cem bigger max_num e st of
        (True, st) \<Rightarrow> (True, st)
      | (False, st) \<Rightarrow> list_entries p cem bigger max_num es st)"

text \<open>The outer loop, which may not end: a listing that skips entries is repeated from the start of the directory.\<close>

partial_function (option) list_rounds :: "bucket_world \<Rightarrow> (string \<Rightarrow> string \<Rightarrow> string) \<Rightarrow> globals \<Rightarrow> rgw_bucket \<Rightarrow> string \<Rightarrow> list_params \<Rightarrow> rgw_obj_key \<Rightarrow>
    string \<Rightarrow> string \<Rightarrow> int \<Rightarrow> list_state \<Rightarrow> os_state \<Rightarrow> (int \<times> list_state \<times> os_state) option" where
  "list_rounds bw stale g b bkt_oid p cem bigger cur_prefix max_num st sys =
     (if \<not> (ls_truncated st \<and> ls_count st \<le> max_num) then Some (0, st, sys)
      else do {
        let cur_marker = (if ls_skip_after_delim st > okey_name (ls_cur_marker st) then name_key (ls_skip_after_delim st) else ls_cur_marker st);
        (r, ents, truncated, cur_marker, sys) \<leftarrow>
          cls_bucket_list bw stale g b bkt_oid cur_marker cur_prefix (word_of_int (max_num + 1 - ls_count st)) sys;
        if r < 0 then Some (r, st\<lparr>ls_cur_marker := cur_marker\<rparr>, sys)
        else
          let (stop, st) = list_entries p cem bigger max_num (map snd ents) (st\<lparr>ls_truncated := truncated, ls_cur_marker := cur_marker\<rparr>) in
          if stop then Some (0, st, sys)
          else list_rounds bw stale g b bkt_oid p cem bigger cur_prefix max_num st sys })"

definition delim_successor :: "string \<Rightarrow> string result" where
  "delim_successor delim =
     (if delim = [] then Inr []
      else case decode_utf8 (map byte delim) of
        None \<Rightarrow> Inl (- EINVAL)
      | Some v \<Rightarrow>
          (case encode_utf8 (v + 1) of
             None \<Rightarrow> Inl (- EINVAL)
           | Some bytes \<Rightarrow> Inr (c_str (map char_of bytes))))"

text \<open>\<^verbatim>\<open>list_objects\<close> with the map of common prefixes and the flag it is given: the code, the objects, the prefixes, the flag, the
  next marker.\<close>

definition list_objects :: "bucket_world \<Rightarrow> (string \<Rightarrow> string \<Rightarrow> string) \<Rightarrow> globals \<Rightarrow> rgw_bucket \<Rightarrow> string \<Rightarrow> list_params \<Rightarrow> int \<Rightarrow>
    obj_ent list \<Rightarrow> bool string_map \<Rightarrow> bool \<Rightarrow> os_state \<Rightarrow> (int \<times> obj_ent list \<times> bool string_map \<times> bool \<times> rgw_obj_key \<times> os_state) option" where
  "list_objects bw stale g b bkt_oid p max_num objs prefixes is_truncated sys =
     (if bucket_is_system b then Some (- EINVAL, objs, prefixes, is_truncated, new_obj_key, sys)
      else
        let cur_marker = get_index_key (set_obj (okey_name (lp_marker p)) (keep (set_ns (lp_ns p)) (keep (set_instance (okey_instance (lp_marker p))) new_obj)));
            cem = (if lp_ns p = [] then get_index_key (set_obj (okey_name (lp_end_marker p)) (keep (set_ns (lp_ns p))
                     (keep (set_instance (okey_instance (lp_end_marker p))) new_obj))) else new_obj_key);
            cur_prefix = get_index_key_name (set_obj (lp_prefix p) (keep (set_ns (lp_ns p)) new_obj))
        in case delim_successor (lp_delim p) of
             Inl r \<Rightarrow> Some (r, [], prefixes, is_truncated, new_obj_key, sys)
           | Inr bigger \<Rightarrow> do {
               let cur_marker = (case delim_at p (okey_name cur_marker) of
                                   None \<Rightarrow> cur_marker
                                 | Some delim_pos \<Rightarrow> name_key (take delim_pos (okey_name cur_marker) @ bigger));
               (r, st, sys) \<leftarrow> list_rounds bw stale g b bkt_oid p cem bigger cur_prefix max_num
                 \<lparr>ls_count = 0, ls_truncated = True, ls_cur_marker = cur_marker, ls_skip_after_delim = [], ls_next_marker = new_obj_key,
                  ls_common_prefixes = prefixes, ls_result = []\<rparr> sys;
               Some (r, ls_result st, ls_common_prefixes st, if r < 0 then is_truncated else ls_truncated st, ls_next_marker st, sys) })"

section \<open>RGWListBucket\<close>

record list_bucket =
  lb_cors_exist :: bool
  lb_prefix :: string
  lb_marker :: rgw_obj_key
  lb_next_marker :: rgw_obj_key
  lb_end_marker :: rgw_obj_key
  lb_max_keys :: string
  lb_delimiter :: string
  lb_encoding_type :: string
  lb_list_versions :: bool
  lb_max :: int
  lb_ret :: int
  lb_objs :: "obj_ent list"
  lb_common_prefixes :: "bool string_map"
  lb_default_max :: int
  lb_is_truncated :: bool

definition new_list_bucket :: list_bucket where
  "new_list_bucket = \<lparr>lb_cors_exist = False, lb_prefix = [], lb_marker = new_obj_key, lb_next_marker = new_obj_key, lb_end_marker = new_obj_key,
     lb_max_keys = [], lb_delimiter = [], lb_encoding_type = [], lb_list_versions = False, lb_max = 0, lb_ret = 0, lb_objs = [],
     lb_common_prefixes = [], lb_default_max = 1000, lb_is_truncated = False\<rparr>"

definition list_verify_permission :: "req_state \<Rightarrow> int" where
  "list_verify_permission s = (if verify_bucket_permission s RGW_PERM_READ then 0 else - EACCES)"

text \<open>The number is narrowed to an \<^verbatim>\<open>int\<close>.\<close>

definition parse_max_keys :: "list_bucket \<Rightarrow> int \<times> list_bucket" where
  "parse_max_keys op =
     (if lb_max_keys op \<noteq> [] then
        let (v, endptr, erange) = strtoll10 (c_str (lb_max_keys op)) in
        (if dropWhile isspace endptr \<noteq> [] then - EINVAL else 0, op\<lparr>lb_max := sint (word_of_int v :: 32 word)\<rparr>)
      else (0, op\<lparr>lb_max := lb_default_max op\<rparr>))"

definition list_get_params :: "req_state \<Rightarrow> list_bucket \<Rightarrow> int \<times> list_bucket" where
  "list_get_params s op =
     (let arg = (\<lambda>name. fst (args_get (args (rs_info s)) name));
          op = op\<lparr>lb_list_versions := args_exists (args (rs_info s)) ''versions'', lb_prefix := arg ''prefix''\<rparr>;
          op = (if \<not> lb_list_versions op then op\<lparr>lb_marker := name_key (arg ''marker'')\<rparr>
                else op\<lparr>lb_marker := \<lparr>okey_name = arg ''key-marker'', okey_instance = arg ''version-id-marker''\<rparr>\<rparr>);
          op = op\<lparr>lb_max_keys := arg ''max-keys''\<rparr>;
          (r, op) = parse_max_keys op;
          op = op\<lparr>lb_ret := r\<rparr>
      in if r < 0 then (r, op) else (0, op\<lparr>lb_delimiter := arg ''delimiter'', lb_encoding_type := arg ''encoding-type''\<rparr>))"

definition list_op_params :: "list_bucket \<Rightarrow> list_params" where
  "list_op_params op = new_list_params\<lparr>lp_prefix := lb_prefix op, lp_delim := lb_delimiter op, lp_marker := lb_marker op,
     lp_end_marker := lb_end_marker op, lp_list_versions := lb_list_versions op\<rparr>"

definition list_execute :: "bucket_world \<Rightarrow> (string \<Rightarrow> string \<Rightarrow> string) \<Rightarrow> globals \<Rightarrow> string \<Rightarrow> list_bucket \<Rightarrow> req_state \<Rightarrow> os_state \<Rightarrow>
    (list_bucket \<times> os_state) option" where
  "list_execute bw stale g bkt_oid op s sys =
     (let (r, op) = list_get_params s op;
          op = op\<lparr>lb_ret := r\<rparr>
      in if r < 0 then Some (op, sys)
         else do {
           (r, objs, prefixes, truncated, next_marker, sys) \<leftarrow>
             list_objects bw stale g (rs_bucket s) bkt_oid (list_op_params op) (lb_max op) (lb_objs op) (lb_common_prefixes op) (lb_is_truncated op) sys;
           let op = op\<lparr>lb_ret := r, lb_objs := objs, lb_common_prefixes := prefixes, lb_is_truncated := truncated\<rparr>;
           Some (if r \<ge> 0 \<and> lb_delimiter op \<noteq> [] then op\<lparr>lb_next_marker := next_marker\<rparr> else op, sys) })"

text \<open>The documents.\<close>

definition s3_ns :: "string option" where
  "s3_ns = Some ''http://s3.amazonaws.com/doc/2006-03-01/''"

definition bool_str :: "bool \<Rightarrow> string" where
  "bool_str b = (if b then ''true'' else ''false'')"

definition key_name :: "list_bucket \<Rightarrow> obj_ent \<Rightarrow> string" where
  "key_name op e = (if strcaseeq (c_str (lb_encoding_type op)) ''url'' then url_encode (okey_name (oe_key e)) [] else okey_name (oe_key e))"

definition quoted_etag :: "obj_ent \<Rightarrow> string" where
  "quoted_etag e = take 1023 ([DQUOTE] @ c_str (oe_etag e) @ [DQUOTE])"

definition dump_list_head :: "string \<Rightarrow> string \<Rightarrow> list_bucket \<Rightarrow> req_state \<Rightarrow> fcall list" where
  "dump_list_head marker next_marker op s =
     [DumpString ''Name'' (rs_bucket_name_str s) [], DumpString ''Prefix'' (lb_prefix op) [], DumpString marker (okey_name (lb_marker op)) []] @
     (if lb_is_truncated op \<and> \<not> obj_key_empty (lb_next_marker op) then [DumpString next_marker (okey_name (lb_next_marker op)) []] else []) @
     [DumpInt ''MaxKeys'' (lb_max op)] @
     (if lb_delimiter op \<noteq> [] then [DumpString ''Delimiter'' (lb_delimiter op) []] else []) @
     [DumpString ''IsTruncated'' (bool_str (lb_max op \<noteq> 0 \<and> lb_is_truncated op)) []]"

definition dump_common_prefixes :: "list_bucket \<Rightarrow> fcall list" where
  "dump_common_prefixes op =
     concat (map (\<lambda>(p, b). [OpenSection ''CommonPrefixes'' None [] True, DumpString ''Prefix'' p [], CloseSection]) (lb_common_prefixes op))"

definition dump_content :: "list_bucket \<Rightarrow> obj_ent \<Rightarrow> fcall list" where
  "dump_content op e =
     [OpenSection ''Contents'' None [] True, DumpString ''Key'' (key_name op e) []] @ dump_time ''LastModified'' (uint (oe_mtime e)) @
     [DumpFormat ''ETag'' None True (quoted_etag e), DumpInt ''Size'' (sint (oe_size e)), DumpString ''StorageClass'' ''STANDARD'' []] @
     dump_owner (oe_owner e) (oe_owner_display_name e) ''Owner'' @ [CloseSection]"

definition dump_version :: "list_bucket \<Rightarrow> req_state \<Rightarrow> obj_ent \<Rightarrow> fcall list" where
  "dump_version op s e =
     [OpenSection (if is_delete_marker e then ''DeleteMarker'' else ''Version'') None [] True, DumpString ''Key'' (key_name op e) []] @
     (if rs_system_request s \<and> oe_versioned_epoch e > 0 then [DumpInt ''VersionedEpoch'' (sint (oe_versioned_epoch e))] else []) @
     [DumpString ''VersionId'' (if okey_instance (oe_key e) = [] then ''null'' else okey_instance (oe_key e)) [],
      DumpFormat ''IsLatest'' None False (bool_str (is_current e))] @ dump_time ''LastModified'' (uint (oe_mtime e)) @
     (if is_delete_marker e then []
      else [DumpFormat ''ETag'' None True (quoted_etag e), DumpInt ''Size'' (sint (oe_size e)), DumpString ''StorageClass'' ''STANDARD'' []]) @
     dump_owner (oe_owner e) (oe_owner_display_name e) ''Owner'' @ [CloseSection]"

definition list_document :: "list_bucket \<Rightarrow> req_state \<Rightarrow> fcall list" where
  "list_document op s =
     [OpenSection ''ListBucketResult'' s3_ns [] False] @ dump_list_head ''Marker'' ''NextMarker'' op s @
     (if lb_ret op \<ge> 0 then concat (map (dump_content op) (lb_objs op)) @ dump_common_prefixes op else []) @ [CloseSection]"

definition versioned_document :: "list_bucket \<Rightarrow> req_state \<Rightarrow> fcall list" where
  "versioned_document op s =
     [OpenSection ''ListVersionsResult'' s3_ns [] False] @ dump_list_head ''KeyMarker'' ''NextKeyMarker'' op s @
     (if lb_ret op \<ge> 0 then concat (map (dump_version op s) (lb_objs op)) @ dump_common_prefixes op else []) @ [CloseSection]"

definition list_send_response :: "resp_world \<Rightarrow> list_bucket \<Rightarrow> resp \<Rightarrow> resp option" where
  "list_send_response w op = (\<lambda>(s, io). do {
     st \<leftarrow> dump_errno w (if lb_ret op < 0 then set_req_state_err (lb_ret op) s else s, io);
     st \<leftarrow> end_header w (Some (lb_cors_exist op)) (Some ''application/xml'') (- 1) False st;
     st \<leftarrow> dump_start st;
     if lb_ret op < 0 then Some st
     else do {
       st \<leftarrow> fmts (if lb_list_versions op then versioned_document op (fst st) else list_document op (fst st)) st;
       rgw_flush_formatter_and_reset w st } })"

section \<open>RGWListBuckets\<close>

definition new_bucket_ent :: bucket_ent where
  "new_bucket_ent = \<lparr>ent_bucket = new_bucket, ent_size = 0, ent_size_rounded = 0, ent_creation_time = 0, ent_count = 0\<rparr>"

record list_buckets =
  lbs_ret :: int
  lbs_sent_data :: bool
  lbs_marker :: string
  lbs_limit :: int
  lbs_buckets_count :: "32 word"
  lbs_buckets_objcount :: uint64
  lbs_buckets_size :: uint64
  lbs_buckets_size_rounded :: uint64

definition new_list_buckets :: list_buckets where
  "new_list_buckets = \<lparr>lbs_ret = 0, lbs_sent_data = False, lbs_marker = [], lbs_limit = 10000, lbs_buckets_count = 0, lbs_buckets_objcount = 0,
     lbs_buckets_size = 0, lbs_buckets_size_rounded = 0\<rparr>"

text \<open>\<^verbatim>\<open>boost::split\<close> at line feeds with compressed tokens: runs of them separate, also at both ends.\<close>

function split_lines :: "string \<Rightarrow> string list" where
  "split_lines s =
     (let l = takeWhile (\<lambda>c. c \<noteq> LF) s in
      if l = s then [s] else l # split_lines (dropWhile (\<lambda>c. c = LF) (drop (length l) s)))"
  by pat_completeness auto

lemma split_lines_rest:
  assumes "takeWhile P s \<noteq> s"
  shows "length (dropWhile (\<lambda>c. \<not> P c) (drop (length (takeWhile P s)) s)) < length s"
proof -
  have rest: "drop (length (takeWhile P s)) s = dropWhile P s" by (metis dropWhile_eq_drop)
  have "dropWhile P s \<noteq> []" using assms by (metis append.right_neutral takeWhile_dropWhile_id)
  then obtain x xs where xs: "dropWhile P s = x # xs" "\<not> P x" by (metis hd_dropWhile list.collapse)
  have "length (dropWhile (\<lambda>c. \<not> P c) xs) \<le> length xs" "Suc (length xs) \<le> length s"
    using length_dropWhile_le [of P s] xs(1) by (simp_all add: length_dropWhile_le)
  then show ?thesis using rest xs by simp
qed

termination split_lines
proof (relation "measure length", goal_cases)
  case (2 s l)
  then show ?case using split_lines_rest [of "\<lambda>c. c \<noteq> LF" s] by simp
qed simp

declare split_lines.simps [simp del]

definition listed_bucket :: "uint64 \<Rightarrow> string \<Rightarrow> bucket_ent" where
  "listed_bucket ctime name = new_bucket_ent\<lparr>ent_bucket := new_bucket\<lparr>bkt_name := name\<rparr>, ent_creation_time := ctime\<rparr>"

text \<open>\<^verbatim>\<open>cls_user_bucket_list\<close>: the code, which stays uninitialised (\<open>junk\<close>) when nothing is printed, and the entries; \<open>ctime\<close> is the
  time of the directory of all buckets.\<close>

definition cls_user_bucket_list :: "os \<Rightarrow> int \<Rightarrow> uint64 \<Rightarrow> globals \<Rightarrow> bucket_ent list \<Rightarrow> os_state \<Rightarrow> (int \<times> bucket_ent list \<times> os_state) option" where
  "cls_user_bucket_list os junk ctime g entries sys = do {
     let cmd = ''ls '' @ c_str (g_buckets_root g);
     _ \<leftarrow> fits 512 cmd;
     (files, sys) \<leftarrow> shell_execute os cmd sys;
     Some (if files = [] then (junk, entries, sys)
           else (0, entries @ map (listed_bucket ctime) (split_lines files), sys)) }"

text \<open>\<^verbatim>\<open>rgw_read_user_buckets\<close>: the listing never reports that it was truncated, so its loop runs once.\<close>

definition rgw_read_user_buckets :: "os \<Rightarrow> int \<Rightarrow> uint64 \<Rightarrow> globals \<Rightarrow> os_state \<Rightarrow> (int \<times> bucket_ent string_map \<times> os_state) option" where
  "rgw_read_user_buckets os junk ctime g sys = do {
     (r, entries, sys) \<leftarrow> cls_user_bucket_list os junk ctime g [] sys;
     let r = (if r < 0 then r else 0);
     let r = (if r = - ENOENT then 0 else r);
     Some (if r < 0 then (r, [], sys) else (0, fold (\<lambda>e. smap_set (bkt_name (ent_bucket e)) e) entries [], sys)) }"

definition list_buckets_begin :: "resp_world \<Rightarrow> list_buckets \<Rightarrow> resp \<Rightarrow> (list_buckets \<times> resp) option" where
  "list_buckets_begin w op = (\<lambda>(s, io). do {
     st \<leftarrow> dump_errno w (if lbs_ret op \<noteq> 0 then set_req_state_err (lbs_ret op) s else s, io);
     st \<leftarrow> dump_start st;
     st \<leftarrow> end_header w None (Some ''application/xml'') (- 1) False st;
     if lbs_ret op = 0 then do {
       st \<leftarrow> fmts ([OpenSection ''ListAllMyBucketsResult'' s3_ns [] True] @
                    dump_owner (user_id (rs_user (fst st))) (display_name (rs_user (fst st))) ''Owner'' @ [OpenSection ''Buckets'' None [] True]) st;
       Some (op\<lparr>lbs_sent_data := True\<rparr>, st) }
     else Some (op, st) })"

definition dump_bucket :: "bucket_ent \<Rightarrow> fcall list" where
  "dump_bucket e = [OpenSection ''Bucket'' None [] False, DumpString ''Name'' (bkt_name (ent_bucket e)) []] @
     dump_time ''CreationDate'' (sint (ent_creation_time e)) @ [CloseSection]"

definition list_buckets_data :: "resp_world \<Rightarrow> list_buckets \<Rightarrow> bucket_ent string_map \<Rightarrow> resp \<Rightarrow> resp option" where
  "list_buckets_data w op m st =
     (if \<not> lbs_sent_data op then Some st
      else do { st \<leftarrow> fmts (concat (map (dump_bucket \<circ> snd) m)) st; rgw_flush_formatter w st })"

definition list_buckets_end :: "resp_world \<Rightarrow> list_buckets \<Rightarrow> resp \<Rightarrow> resp option" where
  "list_buckets_end w op st =
     (if lbs_sent_data op then do { st \<leftarrow> fmts [CloseSection, CloseSection] st; rgw_flush_formatter_and_reset w st } else Some st)"

definition count_bucket :: "string \<times> bucket_ent \<Rightarrow> list_buckets \<Rightarrow> list_buckets" where
  "count_bucket = (\<lambda>(name, e) op. op\<lparr>lbs_buckets_size := lbs_buckets_size op + ent_size e,
     lbs_buckets_size_rounded := lbs_buckets_size_rounded op + ent_size_rounded e,
     lbs_buckets_objcount := lbs_buckets_objcount op + ent_count e, lbs_marker := name\<rparr>)"

text \<open>The loop of \<^verbatim>\<open>RGWListBuckets::execute\<close>; the marker is not looked at, so a full chunk is listed again and again.\<close>

partial_function (option) list_buckets_loop :: "os \<Rightarrow> int \<Rightarrow> uint64 \<Rightarrow> resp_world \<Rightarrow> bool \<Rightarrow> uint64 \<Rightarrow> list_buckets \<Rightarrow> resp \<Rightarrow> os_state \<Rightarrow>
    (bool \<times> list_buckets \<times> resp \<times> os_state) option" where
  "list_buckets_loop os junk ctime w started total_count op st sys = do {
     let chunk = (word_of_int (g_rgw_list_buckets_max_chunk (rw_globals w)) :: uint64);
     let read_count = (if lbs_limit op \<ge> 0 then min (word_of_int (lbs_limit op) - total_count) chunk else chunk);
     (r, m, sys) \<leftarrow> rgw_read_user_buckets os junk ctime (rw_globals w) sys;
     let op = op\<lparr>lbs_ret := r\<rparr>;
     if r < 0 then Some (started, op, st, sys)
     else do {
       let op = fold count_bucket m op;
       let op = op\<lparr>lbs_buckets_count := lbs_buckets_count op + word_of_nat (length m)\<rparr>;
       let total_count = total_count + word_of_nat (length m);
       let done = (word_of_nat (length m) < read_count \<or> lbs_limit op \<ge> 0 \<and> total_count \<ge> word_of_int (lbs_limit op));
       (op, st) \<leftarrow> (if started then Some (op, st) else list_buckets_begin w op st);
       (op, st) \<leftarrow> (if m = [] then Some (op, st)
                    else map_option (\<lambda>st. (op\<lparr>lbs_marker := fst (last m)\<rparr>, st)) (list_buckets_data w op m st));
       if done then Some (True, op, st, sys) else list_buckets_loop os junk ctime w True total_count op st sys } }"

definition list_buckets_execute :: "os \<Rightarrow> int \<Rightarrow> uint64 \<Rightarrow> resp_world \<Rightarrow> list_buckets \<Rightarrow> resp \<Rightarrow> os_state \<Rightarrow> (list_buckets \<times> resp \<times> os_state) option" where
  "list_buckets_execute os junk ctime w op st sys = do {
     let op = op\<lparr>lbs_limit := - 1, lbs_ret := 0\<rparr>;
     (started, op, st, sys) \<leftarrow> list_buckets_loop os junk ctime w False 0 op st sys;
     (op, st) \<leftarrow> (if started then Some (op, st) else list_buckets_begin w op st);
     st \<leftarrow> list_buckets_end w op st;
     Some (op, st, sys) }"

section \<open>Merging one shard\<close>

definition ents :: "dir_entry string_map \<Rightarrow> obj_ent string_map" where
  "ents = map (map_prod id make_ent)"

lemma ents_simps [simp]:
  "ents [] = []" "ents (p # m) = (fst p, make_ent (snd p)) # ents m" "ents (m @ m') = ents m @ ents m'" "length (ents m) = length m"
  by (simp_all add: ents_def map_prod_def split_beta)

lemma candidates_single: "candidates [es] = (case es of [] \<Rightarrow> [] | e # es' \<Rightarrow> [(fst e, 0)])"
  by (simp add: candidates_def split: list.splits)

lemma merge_single:
  "ordered_map plain (m @ es) \<Longrightarrow> merge_shards n [es] (candidates [es]) (ents m) = (ents (m @ take n es), [drop n es])"
proof (induction n arbitrary: m es)
  case 0
  then show ?case by simp
next
  case (Suc n)
  show ?case
  proof (cases es)
    case Nil
    then show ?thesis by (simp add: candidates_single)
  next
    case (Cons e es')
    obtain k d where e: "e = (k, d)" by force
    have "\<forall>q \<in> set (ents m). fst q < k"
      using Suc.prems Cons e by (auto simp: ordered_map_def sorted_wrt_append ents_def)
    then have "smap_set k (make_ent d) (ents m) = ents (m @ [e])"
      using e by (simp add: map_set_greatest)
    moreover have "(case es' of [] \<Rightarrow> [] | e # es'' \<Rightarrow> smap_set (fst e) 0 []) = candidates [es']"
      by (simp add: candidates_single split: list.splits)
    moreover have "ordered_map plain ((m @ [e]) @ es')" using Suc.prems Cons by simp
    ultimately show ?thesis
      using Suc.IH [of "m @ [e]" es'] Cons e by (simp add: candidates_single)
  qed
qed

lemma cls_bucket_list_single:
  assumes "open_bucket_index (bw_os bw) g b bkt_oid sys = Some (Inr [oid], sys)"
    and "issue_bucket_list_op bw stale g oid prefix sys = Some (es, sys)" and "ordered_map plain es"
  shows "\<exists>marker. cls_bucket_list bw stale g b bkt_oid start prefix n sys =
    Some (0, ents (take (unat n) es), unat n < length es, marker, sys)"
  using merge_single [of "[]" es "unat n"] assms by (simp add: cls_bucket_list_def not_le)

section \<open>One pass over the entries\<close>

text \<open>What a pass relies on: the file names of one directory, where only a directory has a slash and that at its end.\<close>

definition dir_name :: "string \<Rightarrow> bool" where
  "dir_name n \<longleftrightarrow> CHR ''/'' \<in> set n"

definition plain_name :: "string \<Rightarrow> bool" where
  "plain_name n \<longleftrightarrow> n \<noteq> [] \<and> hd n \<noteq> UND \<and> CHR ''/'' \<notin> set (butlast n)"

definition entry_name :: "obj_ent \<Rightarrow> string" where
  "entry_name e = okey_name (oe_key e)"

definition plain_entry :: "obj_ent \<Rightarrow> bool" where
  "plain_entry e \<longleftrightarrow> plain_name (entry_name e) \<and> is_visible e \<and> oe_ns e = []"

definition plain_list :: "list_params \<Rightarrow> bool" where
  "plain_list p \<longleftrightarrow> lp_prefix p = [] \<and> (lp_delim p = [] \<or> lp_delim p = ''/'') \<and> lp_end_marker p = new_obj_key \<and> lp_ns p = []"

definition listed :: "string \<Rightarrow> string \<Rightarrow> bool" where
  "listed delim n \<longleftrightarrow> delim = [] \<or> \<not> dir_name n"

lemma starts_with_char: "starts_with s [c] \<longleftrightarrow> s \<noteq> [] \<and> hd s = c"
  by (cases s) (auto simp: starts_with_def)

lemma starts_with_char_drop: "starts_with (drop i s) [c] \<longleftrightarrow> i < length s \<and> s ! i = c"
  by (auto simp: starts_with_char hd_drop_conv_nth)

lemma find_char_None: "c \<notin> set s \<Longrightarrow> find_str [c] s = None"
  by (auto simp: find_str_def find_None_iff starts_with_char_drop)

lemma find_char_last: "c \<notin> set s \<Longrightarrow> find_str [c] (s @ [c]) = Some (length s)"
  unfolding find_str_def find_Some_iff starts_with_char_drop
  by (intro exI [of _ "length s"]) (auto simp: nth_append simp del: upt_Suc)

lemma parse_plain_name: "plain_name n \<Longrightarrow> parse_raw_oid n = Some (n, [], [])"
  by (cases n) (simp_all add: plain_name_def parse_raw_oid_def char_at_def)

lemma find_delim:
  assumes "plain_name n" and "plain_list p"
  shows "delim_at p n = (if listed (lp_delim p) n then None else Some (length n - 1))"
proof -
  have n: "n = butlast n @ [last n]" using assms(1) by (simp add: plain_name_def)
  have "find_str ''/'' n = Some (length n - 1)" if "CHR ''/'' \<in> set n"
  proof -
    have "last n = CHR ''/''" using that assms(1) n by (metis plain_name_def in_set_conv_decomp_first in_set_butlast_appendI set_append UnE set_ConsD empty_iff list.set(1))
    then show ?thesis using find_char_last [of "CHR ''/''" "butlast n"] assms(1) n by (simp add: plain_name_def)
  qed
  then show ?thesis using assms(2) by (auto simp: delim_at_def plain_list_def find_str_from_def listed_def dir_name_def find_char_None)
qed

lemma list_entry_plain:
  assumes "plain_list p" and "plain_entry e" and "okey_name cem = []" and "smap_get (ls_common_prefixes st) (entry_name e) = None"
  shows "if ls_count st \<ge> m then list_entry p cem bigger m e st = (True, st\<lparr>ls_truncated := True\<rparr>)
    else \<exists>st'. list_entry p cem bigger m e st = (False, st') \<and> ls_count st' = ls_count st + 1 \<and> ls_truncated st' = ls_truncated st \<and>
      ls_result st' = ls_result st @ (if listed (lp_delim p) (entry_name e) then [e] else []) \<and>
      ls_common_prefixes st' = (if listed (lp_delim p) (entry_name e) then ls_common_prefixes st
        else smap_set (entry_name e) True (ls_common_prefixes st))"
proof -
  have e: "plain_name (okey_name (oe_key e))" "is_visible e" "oe_ns e = []" and p: "lp_prefix p = []" "lp_ns p = []"
    using assms(1,2) by (simp_all add: plain_entry_def entry_name_def plain_list_def)
  have same: "e\<lparr>oe_key := (oe_key e)\<lparr>okey_name := okey_name (oe_key e)\<rparr>, oe_ns := []\<rparr> = e" using e(3) by (cases e) simp
  have whole: "take (Suc (length (okey_name (oe_key e)) - 1)) (okey_name (oe_key e)) = okey_name (oe_key e)"
    using e(1) by (simp add: plain_name_def)
  show ?thesis
    using assms(3,4) e(2) p same whole
    by (auto simp: list_entry_def parse_plain_name [OF e(1)] find_delim [OF e(1) assms(1)] entry_name_def Let_def)
qed

lemma list_entries_plain:
  assumes "plain_list p" and "\<forall>e \<in> set es. plain_entry e" and "okey_name cem = []" and "sorted_wrt (<) (map entry_name es)"
    and "\<forall>q \<in> set (ls_common_prefixes st). \<forall>e \<in> set es. fst q < entry_name e"
  shows "\<exists>st'. list_entries p cem bigger m es st = (nat (m - ls_count st) < length es, st') \<and>
    ls_truncated st' = (nat (m - ls_count st) < length es \<or> ls_truncated st) \<and>
    ls_result st' = ls_result st @ filter (\<lambda>e. listed (lp_delim p) (entry_name e)) (take (nat (m - ls_count st)) es) \<and>
    ls_common_prefixes st' = ls_common_prefixes st @
      map (\<lambda>e. (entry_name e, True)) (filter (\<lambda>e. \<not> listed (lp_delim p) (entry_name e)) (take (nat (m - ls_count st)) es))"
  using assms
proof (induction es arbitrary: st)
  case Nil
  then show ?case by simp
next
  case (Cons e es)
  let ?n = "entry_name e"
  have new: "smap_get (ls_common_prefixes st) ?n = None"
    using Cons.prems(5) by (auto simp: map_get_None)
  note step = list_entry_plain [OF Cons.prems(1) _ Cons.prems(3) new, of m bigger]
  show ?case
  proof (cases "ls_count st \<ge> m")
    case True
    then show ?thesis using step Cons.prems(2) by simp
  next
    case False
    then obtain st1 where st1: "list_entry p cem bigger m e st = (False, st1)" "ls_count st1 = ls_count st + 1" "ls_truncated st1 = ls_truncated st"
      "ls_result st1 = ls_result st @ (if listed (lp_delim p) ?n then [e] else [])"
      "ls_common_prefixes st1 = (if listed (lp_delim p) ?n then ls_common_prefixes st else smap_set ?n True (ls_common_prefixes st))"
      using step Cons.prems(2) by auto
    have last: "smap_set ?n True (ls_common_prefixes st) = ls_common_prefixes st @ [(?n, True)]"
      using Cons.prems(5) by (intro map_set_greatest) simp
    have "\<forall>q \<in> set (ls_common_prefixes st1). \<forall>e \<in> set es. fst q < entry_name e"
      using Cons.prems(4,5) by (auto simp: st1(5) last)
    then obtain st' where "list_entries p cem bigger m es st1 = (nat (m - ls_count st1) < length es, st')"
      "ls_truncated st' = (nat (m - ls_count st1) < length es \<or> ls_truncated st1)"
      "ls_result st' = ls_result st1 @ filter (\<lambda>e. listed (lp_delim p) (entry_name e)) (take (nat (m - ls_count st1)) es)"
      "ls_common_prefixes st' = ls_common_prefixes st1 @
        map (\<lambda>e. (entry_name e, True)) (filter (\<lambda>e. \<not> listed (lp_delim p) (entry_name e)) (take (nat (m - ls_count st1)) es))"
      using Cons.IH [of st1] Cons.prems by auto
    moreover have "nat (m - ls_count st) = Suc (nat (m - ls_count st1))" using False st1(2) by simp
    ultimately show ?thesis using st1 by (simp add: last)
  qed
qed

section \<open>A whole listing\<close>

text \<open>The shard of a bucket and what its directory holds.\<close>

definition shard_listing :: "bucket_world \<Rightarrow> (string \<Rightarrow> string \<Rightarrow> string) \<Rightarrow> globals \<Rightarrow> rgw_bucket \<Rightarrow> string \<Rightarrow> os_state \<Rightarrow> dir_entry string_map \<Rightarrow> bool" where
  "shard_listing bw stale g b bkt_oid sys es \<longleftrightarrow>
     \<not> bucket_is_system b \<and> open_bucket_index (bw_os bw) g b bkt_oid sys = Some (Inr [dir_oid_prefix @ bkt_marker b], sys) \<and>
     issue_bucket_list_op bw stale g (dir_oid_prefix @ bkt_marker b) [] sys = Some (es, sys) \<and> ordered_map plain es \<and>
     (\<forall>(k, d) \<in> set es. de_name d = k \<and> plain_entry (make_ent d))"

lemma delim_successor_plain: "plain_list p \<Longrightarrow> \<exists>bigger. delim_successor (lp_delim p) = Inr bigger"
proof -
  have "delim_successor [] = Inr []" "delim_successor ''/'' = Inr (c_str [char_of (48 :: nat)])"
    by (simp_all add: delim_successor_def decode_utf8_def encode_utf8_def utf8_index_def max_val_def)
  then show "plain_list p \<Longrightarrow> ?thesis" by (auto simp: plain_list_def)
qed

lemma root_prefix: "get_index_key_name (set_obj [] (keep (set_ns []) new_obj)) = []"
  by code_simp

lemma no_end_marker: "okey_name (get_index_key (set_obj (okey_name new_obj_key) (keep (set_ns []) (keep (set_instance (okey_instance new_obj_key)) new_obj)))) = []"
  by code_simp

lemma entry_name_make: "entry_name (make_ent d) = de_name d"
  by (simp add: entry_name_def make_ent_def)

lemma shard_names:
  assumes "shard_listing bw stale g b bkt_oid sys es"
  shows "map entry_name (map snd (ents es)) = map fst es" and "sorted_wrt (<) (map fst es)" and "\<forall>e \<in> set (map snd (ents es)). plain_entry e"
  using assms by (auto simp: shard_listing_def ents_def entry_name_make ordered_map_def comp_def plain_def)

lemma list_rounds_plain:
  assumes "plain_list p" and "shard_listing bw stale g b bkt_oid sys es" and "0 \<le> m" and "m < 2 ^ 31" and "okey_name cem = []"
    and st: "ls_count st = 0" "ls_truncated st" "ls_common_prefixes st = []" "ls_result st = []"
  shows "\<exists>st'. list_rounds bw stale g b bkt_oid p cem bigger [] m st sys = Some (0, st', sys) \<and>
    ls_result st' = filter (\<lambda>e. listed (lp_delim p) (entry_name e)) (take (nat m) (map snd (ents es))) \<and>
    map fst (ls_common_prefixes st') = filter (\<lambda>n. \<not> listed (lp_delim p) n) (take (nat m) (map fst es)) \<and>
    ls_truncated st' = (nat m < length es)"
proof -
  note names = shard_names [OF assms(2)]
  define num where "num = (word_of_int (m + 1) :: 32 word)"
  have num: "unat num = Suc (nat m)"
  proof -
    have "num = word_of_nat (Suc (nat m))" using assms(3) by (simp add: num_def add.commute)
    then show ?thesis using unat_word_of_nat32 [of "Suc (nat m)"] assms(4) by simp
  qed
  let ?cur = "if ls_skip_after_delim st > okey_name (ls_cur_marker st) then name_key (ls_skip_after_delim st) else ls_cur_marker st"
  obtain marker where list: "cls_bucket_list bw stale g b bkt_oid ?cur [] num sys =
      Some (0, ents (take (Suc (nat m)) es), Suc (nat m) < length es, marker, sys)"
    using cls_bucket_list_single [of bw g b bkt_oid sys _ stale "[]" es ?cur num] assms(2) unfolding shard_listing_def num by blast
  define st0 where "st0 = st\<lparr>ls_truncated := Suc (nat m) < length es, ls_cur_marker := marker\<rparr>"
  let ?es = "map snd (ents (take (Suc (nat m)) es))"
  have es: "?es = take (Suc (nat m)) (map snd (ents es))" by (simp add: ents_def take_map)
  have "\<forall>e \<in> set ?es. plain_entry e" using names(3) unfolding es by (meson in_set_takeD)
  moreover have "sorted_wrt (<) (map entry_name ?es)"
    using names(1,2) unfolding es by (metis take_map sorted_wrt_take)
  ultimately obtain st' where st': "list_entries p cem bigger m ?es st0 = (nat m < length ?es, st')"
    "ls_truncated st' = (nat m < length ?es \<or> ls_truncated st0)"
    "ls_result st' = filter (\<lambda>e. listed (lp_delim p) (entry_name e)) (take (nat m) ?es)"
    "ls_common_prefixes st' = map (\<lambda>e. (entry_name e, True)) (filter (\<lambda>e. \<not> listed (lp_delim p) (entry_name e)) (take (nat m) ?es))"
    using list_entries_plain [OF assms(1) _ assms(5), of ?es st0 bigger m] st by (auto simp: st0_def)
  have taken: "take (nat m) ?es = take (nat m) (map snd (ents es))" unfolding es by (simp add: min_def)
  have trunc: "ls_truncated st' = (nat m < length es)" using st'(2) by (auto simp: st0_def)
  have prefixes: "map fst (ls_common_prefixes st') = filter (\<lambda>n. \<not> listed (lp_delim p) n) (take (nat m) (map fst es))"
    unfolding st'(4) taken by (simp add: filter_map comp_def take_map flip: names(1))
  have "list_rounds bw stale g b bkt_oid p cem bigger [] m st sys = Some (0, st', sys)"
  proof -
    have again: "list_rounds bw stale g b bkt_oid p cem bigger [] m st' sys = Some (0, st', sys)" if "\<not> nat m < length es"
      using that by (subst list_rounds.simps) (simp add: trunc)
    show ?thesis
      using list st'(1) st assms(3) again by (subst list_rounds.simps) (simp add: st0_def num_def Let_def)
  qed
  then show ?thesis using st'(3) taken prefixes trunc by simp
qed

lemma list_objects_plain:
  assumes "plain_list p" and "shard_listing bw stale g b bkt_oid sys es" and "0 \<le> m" and "m < 2 ^ 31"
  shows "\<exists>prefixes marker. list_objects bw stale g b bkt_oid p m objs [] tr sys =
      Some (0, filter (\<lambda>e. listed (lp_delim p) (entry_name e)) (take (nat m) (map snd (ents es))), prefixes, nat m < length es, marker, sys) \<and>
    map fst prefixes = filter (\<lambda>n. \<not> listed (lp_delim p) n) (take (nat m) (map fst es))"
proof -
  obtain bigger where bigger: "delim_successor (lp_delim p) = Inr bigger" using delim_successor_plain [OF assms(1)] by blast
  have p: "lp_prefix p = []" "lp_ns p = []" "lp_end_marker p = new_obj_key" using assms(1) by (simp_all add: plain_list_def)
  define c where "c = get_index_key (set_obj (okey_name (lp_marker p)) (keep (set_ns (lp_ns p)) (keep (set_instance (okey_instance (lp_marker p))) new_obj)))"
  define c' where "c' = (case delim_at p (okey_name c) of None \<Rightarrow> c | Some delim_pos \<Rightarrow> name_key (take delim_pos (okey_name c) @ bigger))"
  have sys: "\<not> bucket_is_system b" using assms(2) by (simp add: shard_listing_def)
  obtain st' where st': "list_rounds bw stale g b bkt_oid p (get_index_key (set_obj (okey_name new_obj_key) (keep (set_ns [])
        (keep (set_instance (okey_instance new_obj_key)) new_obj)))) bigger [] m
      \<lparr>ls_count = 0, ls_truncated = True, ls_cur_marker = c', ls_skip_after_delim = [], ls_next_marker = new_obj_key, ls_common_prefixes = [],
       ls_result = []\<rparr> sys = Some (0, st', sys)"
    "ls_result st' = filter (\<lambda>e. listed (lp_delim p) (entry_name e)) (take (nat m) (map snd (ents es)))"
    "map fst (ls_common_prefixes st') = filter (\<lambda>n. \<not> listed (lp_delim p) n) (take (nat m) (map fst es))"
    "ls_truncated st' = (nat m < length es)"
    using list_rounds_plain [OF assms no_end_marker, of "\<lparr>ls_count = 0, ls_truncated = True, ls_cur_marker = c', ls_skip_after_delim = [],
      ls_next_marker = new_obj_key, ls_common_prefixes = [], ls_result = []\<rparr>" bigger] by auto
  show ?thesis
    using sys bigger st'(2-) by (simp add: list_objects_def p root_prefix Let_def st'(1) [unfolded c'_def c_def p])
qed

section \<open>From the output of the shell to the entries\<close>

definition lines :: "string list \<Rightarrow> string" where
  "lines fs = concat (map (\<lambda>n. n @ [LF]) fs)"

definition file_name :: "string \<Rightarrow> bool" where
  "file_name n \<longleftrightarrow> plain_name n \<and> \<not> dir_name n \<and> LF \<notin> set n \<and> NUL \<notin> set n \<and> length n < 255"

definition shown_name :: "os \<Rightarrow> string \<Rightarrow> os_state \<Rightarrow> string \<Rightarrow> string" where
  "shown_name os base sys n =
     (case sys_stat_node os (c_str (base @ n)) sys of Some (Directory k) \<Rightarrow> n @ ''/'' | _ \<Rightarrow> n)"

definition shown_entry :: "bucket_world \<Rightarrow> string \<Rightarrow> os_state \<Rightarrow> string \<Rightarrow> string \<times> dir_entry" where
  "shown_entry bw base sys n =
     (shown_name (bw_os bw) base sys n,
      new_dir_entry\<lparr>de_name := shown_name (bw_os bw) base sys n,
        de_size := word_of_int (inode_size (the (sys_stat_node (bw_os bw) (c_str (base @ n)) sys))),
        de_mtime := ucast (bw_mtime bw (c_str (base @ n)) sys)\<rparr>)"

lemma list_lines_names:
  assumes "\<forall>n \<in> set fs. file_name n \<and> sys_stat_node (bw_os bw) (c_str (base @ n)) sys \<noteq> None"
  shows "list_lines bw base [] sys (lines fs) m = Some (fold (\<lambda>(k, d). smap_set k d) (map (shown_entry bw base sys) fs) m)"
  using assms
proof (induction fs arbitrary: m)
  case Nil
  then show ?case by (simp add: list_lines.simps lines_def)
next
  case (Cons n fs)
  obtain node where node: "sys_stat_node (bw_os bw) (c_str (base @ n)) sys = Some node" using Cons.prems by auto
  have n: "n \<noteq> []" "LF \<notin> set n" "length n < 255" using Cons.prems by (auto simp: file_name_def plain_name_def)
  have line: "takeWhile (\<lambda>c. c \<noteq> LF) (lines (n # fs)) = n" using n(2) by (simp add: lines_def takeWhile_append)
  have rest: "drop (length n) (lines (n # fs)) = LF # lines fs" by (simp add: lines_def)
  have "list_line bw base [] sys n m = Some ((\<lambda>(k, d). smap_set k d) (shown_entry bw base sys n) m)"
    using node n(3) by (simp add: list_line_def shown_entry_def shown_name_def Let_def split: inode.splits)
  then show ?case
    using Cons.IH Cons.prems n(1) by (subst list_lines.simps) (simp add: line rest Let_def)
qed

lemma keys_smap_set: "fst ` set (smap_set k v m) = insert k (fst ` set m)"
proof (induction m)
  case (Cons p m)
  then show ?case by (cases p) (simp add: insert_commute)
qed simp

lemma entries_smap_set: "set (smap_set k v m) \<subseteq> insert (k, v) (set m)"
  by (induction m) (auto split: if_splits)

lemma keys_fold_smap: "fst ` set (fold (\<lambda>(k, d). smap_set k d) kvs m) = fst ` set kvs \<union> fst ` set m"
proof (induction kvs arbitrary: m)
  case (Cons p kvs)
  then show ?case by (cases p) (simp add: keys_smap_set)
qed simp

lemma entries_fold_smap: "set (fold (\<lambda>(k, d). smap_set k d) kvs m) \<subseteq> set kvs \<union> set m"
proof (induction kvs arbitrary: m)
  case (Cons p kvs)
  then show ?case using entries_smap_set [of "fst p" "snd p" m] by (cases p) fastforce
qed simp

lemma shown_plain:
  assumes "file_name n"
  shows "plain_name (shown_name os base sys n)"
  using assms by (auto simp: shown_name_def file_name_def plain_name_def dir_name_def dest: in_set_butlastD split: option.splits inode.splits)

lemma shown_visible: "plain_name (fst (shown_entry bw base sys n)) \<Longrightarrow> plain_entry (make_ent (snd (shown_entry bw base sys n)))"
  by (simp add: shown_entry_def plain_entry_def entry_name_def make_ent_def new_dir_entry_def is_visible_def is_current_def is_delete_marker_def)

text \<open>The member \<^verbatim>\<open>oid\<close> that \<^verbatim>\<open>get_bucket_info\<close> leaves in the bucket of a request.\<close>

definition bucket_oid :: "string \<Rightarrow> string" where
  "bucket_oid name = get_bucket_meta_oid (new_bucket\<lparr>bkt_name := name, bkt_bucket_id := ''bucket_id''\<rparr>)"

text \<open>A bucket whose directory holds the given names, which \<^verbatim>\<open>ls -1\<close> prints in some order.\<close>

definition bucket_base :: "globals \<Rightarrow> string \<Rightarrow> string" where
  "bucket_base g name = g_buckets_root g @ ''/'' @ name @ ''/''"

definition bucket_listing :: "bucket_world \<Rightarrow> globals \<Rightarrow> string \<Rightarrow> string list \<Rightarrow> os_state \<Rightarrow> bool" where
  "bucket_listing bw g name fs sys \<longleftrightarrow>
     bucket_name_ok name \<and> list_all (\<lambda>c. \<not> isspace c) name \<and> hd name \<noteq> CHR ''.'' \<and> dir_test (bw_os bw) g name sys = Some (0, sys) \<and>
     length (is_dir_command g name []) < 512 \<and> os_popen (bw_os bw) (ls_command g name []) (os_files sys) = Some (lines fs, 0, os_files sys) \<and>
     length (lines fs) < 512 \<and>
     (\<forall>n \<in> set fs. file_name n \<and> sys_stat_node (bw_os bw) (c_str (bucket_base g name @ n)) sys \<noteq> None)"

lemma scan_dir_oid_name:
  assumes "bucket_name_ok name" and "list_all (\<lambda>c. \<not> isspace c) name"
  shows "scan_dir_oid (c_str (dir_oid_prefix @ name)) = name"
proof -
  have "c_str (dir_oid_prefix @ name) = dir_oid_prefix @ name"
    using assms(1) by (intro c_str_id) (auto simp: no_nul_def bucket_name_ok_def dir_oid_prefix_def)
  moreover have "dropWhile isspace name = name" "takeWhile (\<lambda>c. \<not> isspace c) name = name"
    using assms by (auto simp: list_all_iff dropWhile_eq_self_iff takeWhile_eq_all_conv bucket_name_ok_def)
  ultimately show ?thesis by (simp add: scan_dir_oid_def dir_oid_prefix_def starts_with_def)
qed

lemma length_ls_command: "length (ls_command g name prefix) < length (is_dir_command g name prefix)"
  by (simp add: ls_command_def is_dir_command_def)

lemma lines_no_nul: "\<forall>n \<in> set fs. file_name n \<Longrightarrow> c_str (lines fs) = lines fs"
  by (intro c_str_id) (auto simp: no_nul_def lines_def file_name_def)

lemma issue_bucket_list_names:
  assumes "bucket_listing bw g name fs sys"
  shows "issue_bucket_list_op bw stale g (dir_oid_prefix @ name) [] sys =
    Some (fold (\<lambda>(k, d). smap_set k d) (map (shown_entry bw (bucket_base g name) sys) fs) [], sys)"
proof -
  note b = assms [unfolded bucket_listing_def]
  have name: "scan_dir_oid (c_str (dir_oid_prefix @ name)) = name" using scan_dir_oid_name b by blast
  have len: "length name < 256" using dir_test_short [of "bw_os bw" g name sys] b by (auto simp: bucket_name_ok_def)
  have "shell_execute (bw_os bw) (ls_command g name []) sys = Some (lines fs, sys)"
    using b lines_no_nul [of fs] by (simp add: shell_execute_def)
  moreover have "lines fs = [] \<longleftrightarrow> fs = []" by (cases fs) (simp_all add: lines_def)
  ultimately show ?thesis
    using len b length_ls_command [of g name "[]"] list_lines_names [of fs bw "bucket_base g name" sys "[]"]
    by (simp add: issue_bucket_list_op_def name fits_def bucket_base_def)
qed

lemma bucket_not_system: "bucket_name_ok name \<Longrightarrow> hd name \<noteq> CHR ''.'' \<Longrightarrow> \<not> bucket_is_system (bi_bucket (found_bucket name))"
  by (cases name) (auto simp: bucket_is_system_def found_bucket_def char_at_def bucket_name_ok_def)

lemma open_bucket_index_names:
  assumes "bucket_listing bw g name fs sys"
  shows "open_bucket_index (bw_os bw) g (bi_bucket (found_bucket name)) (bucket_oid name) sys = Some (Inr [dir_oid_prefix @ name], sys)"
proof -
  note b = assms [unfolded bucket_listing_def]
  have "get_bucket_instance_from_oid (bw_os bw) g (bucket_oid name) new_bucket_info sys = Some (0, found_bucket name, sys)"
    unfolding bucket_oid_def using b by (intro get_bucket_instance_present) simp_all
  moreover have "bucket_oid name \<noteq> []" by (simp add: bucket_oid_def get_bucket_meta_oid_def RGW_BUCKET_INSTANCE_MD_PREFIX_def)
  moreover have "\<not> bucket_is_system (bi_bucket (found_bucket name))" using bucket_not_system b by blast
  moreover have "bi_num_shards (found_bucket name) = 0" "bkt_marker (bi_bucket (found_bucket name)) = name"
    by (simp_all add: found_bucket_def new_bucket_info_def)
  ultimately show ?thesis
    by (simp add: open_bucket_index_def open_bucket_index_base_def get_bucket_instance_info_def get_bucket_index_objects_def)
qed

lemma shard_listing_names:
  fixes bw g name fs sys
  defines "es \<equiv> fold (\<lambda>(k, d). smap_set k d) (map (shown_entry bw (bucket_base g name) sys) fs) []"
  assumes "bucket_listing bw g name fs sys"
  shows "shard_listing bw stale g (bi_bucket (found_bucket name)) (bucket_oid name) sys es"
    and "map fst es = sorted_list_of_set (shown_name (bw_os bw) (bucket_base g name) sys ` set fs)"
    and "set es \<subseteq> shown_entry bw (bucket_base g name) sys ` set fs"
proof -
  note b = assms(2) [unfolded bucket_listing_def]
  show sub: "set es \<subseteq> shown_entry bw (bucket_base g name) sys ` set fs"
    using entries_fold_smap [of "map (shown_entry bw (bucket_base g name) sys) fs" "[]"] by (simp add: es_def)
  have ord: "ordered_map plain es" unfolding es_def by (rule std_map.ok_fold_upd) simp
  have "fst ` set es = shown_name (bw_os bw) (bucket_base g name) sys ` set fs"
    by (simp add: es_def keys_fold_smap image_image shown_entry_def)
  moreover have "sorted_wrt (<) (map fst es)" using ord by (simp add: ordered_map_def comp_def plain_def)
  ultimately show "map fst es = sorted_list_of_set (shown_name (bw_os bw) (bucket_base g name) sys ` set fs)"
    by (metis list.set_map sorted_list_of_set.idem_if_sorted_distinct strict_sorted_iff)
  have "de_name d = k \<and> plain_entry (make_ent d)" if kd: "(k, d) \<in> set es" for k d
  proof -
    obtain n where n: "n \<in> set fs" "(k, d) = shown_entry bw (bucket_base g name) sys n" using sub kd by blast
    then have "plain_name (fst (shown_entry bw (bucket_base g name) sys n))" using b shown_plain by (simp add: shown_entry_def)
    then show ?thesis using shown_visible [of bw "bucket_base g name" sys n] n(2) by (simp add: shown_entry_def)
  qed
  moreover have "\<not> bucket_is_system (bi_bucket (found_bucket name))" using bucket_not_system b by blast
  moreover have "bkt_marker (bi_bucket (found_bucket name)) = name" by (simp add: found_bucket_def)
  ultimately show "shard_listing bw stale g (bi_bucket (found_bucket name)) (bucket_oid name) sys es"
    using ord open_bucket_index_names [OF assms(2)] issue_bucket_list_names [OF assms(2)] by (auto simp: shard_listing_def es_def)
qed

section \<open>What a request for a listing gets\<close>

lemma list_get_params_rest:
  "list_get_params s op = (r, op') \<Longrightarrow>
     lb_end_marker op' = lb_end_marker op \<and> lb_objs op' = lb_objs op \<and> lb_common_prefixes op' = lb_common_prefixes op"
  by (auto simp: list_get_params_def parse_max_keys_def Let_def split: prod.splits if_splits)

text \<open>C11: A listing of a bucket without a prefix has the names of its directory in order, directories with a slash; with the
  delimiter slash these are common prefixes.  It has the first names up to the limit and is truncated when there are more.
  This holds for every marker: a client that asks for the next page gets the first one again.\<close>

theorem list_bucket_first_page:
  assumes "bucket_listing bw g name fs sys" and "rs_bucket s = bi_bucket (found_bucket name)"
    and "list_get_params s new_list_bucket = (0, op)" and "lb_prefix op = []" and "lb_delimiter op = [] \<or> lb_delimiter op = ''/''"
    and "0 \<le> lb_max op" and "lb_max op < 2 ^ 31"
  shows "\<exists>op'. list_execute bw stale g (bucket_oid name) new_list_bucket s sys = Some (op', sys) \<and> lb_ret op' = 0 \<and>
    (let names = sorted_list_of_set (shown_name (bw_os bw) (bucket_base g name) sys ` set fs);
         page = take (nat (lb_max op)) names
     in map entry_name (lb_objs op') = filter (listed (lb_delimiter op)) page \<and>
        map fst (lb_common_prefixes op') = filter (\<lambda>n. \<not> listed (lb_delimiter op) n) page \<and>
        lb_is_truncated op' = (nat (lb_max op) < length names)) \<and>
    (\<forall>e \<in> set (lb_objs op'). \<exists>n \<in> set fs. entry_name e = shown_name (bw_os bw) (bucket_base g name) sys n \<and>
       oe_size e = word_of_int (inode_size (the (sys_stat_node (bw_os bw) (c_str (bucket_base g name @ n)) sys))))"
proof -
  define es where "es = fold (\<lambda>(k, d). smap_set k d) (map (shown_entry bw (bucket_base g name) sys) fs) []"
  note es = shard_listing_names [OF assms(1), folded es_def]
  note rest = list_get_params_rest [OF assms(3)]
  have "plain_list (list_op_params op)" "lp_delim (list_op_params op) = lb_delimiter op"
    using assms(4,5) rest by (simp_all add: plain_list_def list_op_params_def new_list_params_def new_list_bucket_def)
  from list_objects_plain [OF this(1) es(1) assms(6,7), where objs = "lb_objs op" and tr = "lb_is_truncated op", unfolded this(2)]
  obtain prefixes marker where list: "list_objects bw stale g (bi_bucket (found_bucket name)) (bucket_oid name) (list_op_params op) (lb_max op)
        (lb_objs op) [] (lb_is_truncated op) sys =
      Some (0, filter (\<lambda>e. listed (lb_delimiter op) (entry_name e)) (take (nat (lb_max op)) (map snd (ents es))), prefixes,
        nat (lb_max op) < length es, marker, sys)"
    "map fst prefixes = filter (\<lambda>n. \<not> listed (lb_delimiter op) n) (take (nat (lb_max op)) (map fst es))"
    by blast
  have names: "map entry_name (filter (\<lambda>e. listed (lb_delimiter op) (entry_name e)) (take k (map snd (ents es)))) =
      filter (listed (lb_delimiter op)) (take k (map fst es))" for k
    unfolding shard_names(1) [OF es(1), symmetric] take_map filter_map by (simp add: comp_def)
  have sizes: "\<exists>n \<in> set fs. entry_name e = shown_name (bw_os bw) (bucket_base g name) sys n \<and>
      oe_size e = word_of_int (inode_size (the (sys_stat_node (bw_os bw) (c_str (bucket_base g name @ n)) sys)))"
    if "e \<in> set (map snd (ents es))" for e
    using that es(3) by (force simp: ents_def shown_entry_def make_ent_def entry_name_def)
  have "lb_common_prefixes op = []" using rest by (simp add: new_list_bucket_def)
  then have exec: "\<exists>op'. list_execute bw stale g (bucket_oid name) new_list_bucket s sys = Some (op', sys) \<and> lb_ret op' = 0 \<and>
      lb_objs op' = filter (\<lambda>e. listed (lb_delimiter op) (entry_name e)) (take (nat (lb_max op)) (map snd (ents es))) \<and>
      lb_common_prefixes op' = prefixes \<and> lb_is_truncated op' = (nat (lb_max op) < length es)"
    using list(1) assms(2,3) by (simp add: list_execute_def list_op_params_def Let_def)
  then obtain op' where op': "list_execute bw stale g (bucket_oid name) new_list_bucket s sys = Some (op', sys)" "lb_ret op' = 0"
    "lb_objs op' = filter (\<lambda>e. listed (lb_delimiter op) (entry_name e)) (take (nat (lb_max op)) (map snd (ents es)))"
    "lb_common_prefixes op' = prefixes" "lb_is_truncated op' = (nat (lb_max op) < length es)" by blast
  have all: "\<forall>e \<in> set (lb_objs op'). \<exists>n \<in> set fs. entry_name e = shown_name (bw_os bw) (bucket_base g name) sys n \<and>
      oe_size e = word_of_int (inode_size (the (sys_stat_node (bw_os bw) (c_str (bucket_base g name @ n)) sys)))"
    unfolding op'(3) by (intro ballI sizes) (meson filter_is_subset in_set_takeD subsetD)
  show ?thesis
    unfolding Let_def es(2) [symmetric] length_map
    by (intro exI [of _ op'] conjI op'(1,2) all) (simp_all only: op'(3-5) names list(2))
qed

definition sample_list_os :: os where
  "sample_list_os = sample_dir_os\<lparr>os_popen := (\<lambda>cmd files.
     if cmd = ''[ -d /fisamba/docs ]'' then Some ([], 0, files)
     else if cmd = ''ls -1 '' @ [CHR 0x27] @ ''/fisamba/docs/'' @ [CHR 0x27] then Some (lines [''new'', ''a''], 0, files)
     else Some ([], 1, files))\<rparr>"

definition sample_list_world :: bucket_world where
  "sample_list_world = sample_bucket_world\<lparr>bw_os := sample_list_os\<rparr>"

definition sample_list_dirs :: os_state where
  "sample_list_dirs = \<lparr>os_files = [''/fisamba/docs/new'' \<mapsto> Directory 4096, ''/fisamba/docs/a'' \<mapsto> Regular 420 ''text''], os_fsuid = 0\<rparr>"

definition sample_list_req :: req_state where
  "sample_list_req = (let s = new_req_state new_env in
     s\<lparr>rs_bucket := bi_bucket (found_bucket ''docs''),
       rs_info := (rs_info s)\<lparr>args := new_args\<lparr>val_map := [(''marker'', ''a''), (''max-keys'', ''1'')]\<rparr>\<rparr>\<rparr>)"

lemma sample_list_commands:
  "g_buckets_root sample_globals = ''/fisamba''"
  "dir_command sample_globals ''docs'' = ''[ -d /fisamba/docs ]''"
  "ls_command sample_globals ''docs'' [] = ''ls -1 '' @ [CHR 0x27] @ ''/fisamba/docs/'' @ [CHR 0x27]"
  "length (is_dir_command sample_globals ''docs'' []) = 23"
  by code_simp+

lemma sample_shown:
  "sys_stat_node sample_list_os (c_str (bucket_base sample_globals ''docs'' @ ''new'')) sample_list_dirs = Some (Directory 4096)"
  "sys_stat_node sample_list_os (c_str (bucket_base sample_globals ''docs'' @ ''a'')) sample_list_dirs = Some (Regular 420 ''text'')"
  by (simp_all add: sys_stat_node_def sample_list_os_def sample_dir_os_def sample_list_dirs_def bucket_base_def sample_list_commands c_str_def)

lemma sample_bucket_listing: "bucket_listing sample_list_world sample_globals ''docs'' [''new'', ''a''] sample_list_dirs"
proof -
  have "bucket_name_ok ''docs''" "list_all (\<lambda>c. \<not> isspace c) ''docs''" by code_simp+
  moreover have "dir_test sample_list_os sample_globals ''docs'' sample_list_dirs = Some (0, sample_list_dirs)"
    by (simp add: dir_test_def sample_list_commands shell_simple_def sample_list_os_def)
  moreover have "file_name ''new''" "file_name ''a''" "length (lines [''new'', ''a'']) = 6" by code_simp+
  ultimately show ?thesis
    by (simp add: bucket_listing_def sample_list_world_def sample_list_commands sample_shown) (simp add: sample_list_os_def)
qed

lemma sample_list_params:
  "list_get_params sample_list_req new_list_bucket =
     (0, new_list_bucket\<lparr>lb_marker := name_key ''a'', lb_max_keys := ''1'', lb_max := 1\<rparr>)"
  by code_simp

theorem list_bucket_first_page_witness:
  "\<exists>op'. list_execute sample_list_world (\<lambda>old new. new) sample_globals (bucket_oid ''docs'') new_list_bucket sample_list_req sample_list_dirs =
      Some (op', sample_list_dirs) \<and> map entry_name (lb_objs op') = [''a''] \<and> lb_is_truncated op'"
proof -
  have "rs_bucket sample_list_req = bi_bucket (found_bucket ''docs'')" by (simp add: sample_list_req_def Let_def)
  note page = list_bucket_first_page [OF sample_bucket_listing this sample_list_params]
  have "bw_os sample_list_world = sample_list_os" by (simp add: sample_list_world_def)
  then have "sorted_list_of_set (shown_name (bw_os sample_list_world) (bucket_base sample_globals ''docs'') sample_list_dirs ` set [''new'', ''a'']) =
      [''a'', ''new/'']"
    by (simp add: shown_name_def sample_shown)
  note page [of "\<lambda>old new. new", unfolded this Let_def]
  moreover have "lb_max (new_list_bucket\<lparr>lb_marker := name_key ''a'', lb_max_keys := ''1'', lb_max := 1\<rparr>) = 1"
    "lb_delimiter (new_list_bucket\<lparr>lb_marker := name_key ''a'', lb_max_keys := ''1'', lb_max := 1\<rparr>) = []"
    "lb_prefix (new_list_bucket\<lparr>lb_marker := name_key ''a'', lb_max_keys := ''1'', lb_max := 1\<rparr>) = []"
    by (simp_all add: new_list_bucket_def)
  ultimately show ?thesis by (simp add: listed_def) (elim exE conjE, intro exI conjI)
qed

section \<open>All buckets\<close>

lemma split_lines_line:
  assumes "LF \<notin> set n" and "r = [] \<or> hd r \<noteq> LF"
  shows "split_lines (n @ LF # r) = n # split_lines r"
proof -
  have line: "takeWhile (\<lambda>c. c \<noteq> LF) (n @ LF # r) = n" using assms(1) by (induction n) auto
  have rest: "dropWhile (\<lambda>c. c = LF) (drop (length n) (n @ LF # r)) = r" using assms(2) by (cases r) auto
  have "n \<noteq> n @ LF # r" by simp
  then show ?thesis by (subst split_lines.simps) (simp only: Let_def line rest if_False)
qed

lemma split_lines_names:
  assumes "\<forall>n \<in> set fs. n \<noteq> [] \<and> LF \<notin> set n"
  shows "split_lines (lines fs) = fs @ [[]]"
  using assms
proof (induction fs)
  case Nil
  show ?case by (subst split_lines.simps) (simp add: lines_def)
next
  case (Cons n fs)
  have "lines fs = [] \<or> hd (lines fs) \<noteq> LF"
  proof (cases fs)
    case (Cons n' fs')
    with Cons.prems have "n' \<noteq> []" "LF \<notin> set n'" by auto
    then show ?thesis using Cons by (cases n') (auto simp: lines_def)
  qed (simp add: lines_def)
  then show ?case using split_lines_line [of n "lines fs"] Cons by (simp add: lines_def)
qed

lemma fold_listed_buckets:
  "fold (\<lambda>e. smap_set (bkt_name (ent_bucket e)) e) (map (listed_bucket ctime) fs) m =
     fold (\<lambda>(k, d). smap_set k d) (map (\<lambda>n. (n, listed_bucket ctime n)) fs) m"
  by (induction fs arbitrary: m) (simp_all add: listed_bucket_def)

text \<open>The list of all buckets has every name of the directory and one bucket with an empty name, all of them with the time
  of the directory itself.\<close>

lemma read_user_buckets_names:
  assumes "os_popen os (''ls '' @ c_str (g_buckets_root g)) (os_files sys) = Some (lines fs, 0, os_files sys)" and "fs \<noteq> []"
    and "\<forall>n \<in> set fs. n \<noteq> [] \<and> LF \<notin> set n \<and> NUL \<notin> set n" and "length (lines fs) < 512" and "length (g_buckets_root g) < 500"
  shows "\<exists>m. rgw_read_user_buckets os junk ctime g sys = Some (0, m, sys) \<and> map fst m = sorted_list_of_set (insert [] (set fs)) \<and>
    ent_creation_time ` snd ` set m = {ctime}"
proof -
  define kvs where "kvs = map (\<lambda>n. (n, listed_bucket ctime n)) (fs @ [[]])"
  define m where "m = fold (\<lambda>(k, d). smap_set k d) kvs []"
  have out: "c_str (lines fs) = lines fs" using assms(3) by (intro c_str_id) (auto simp: no_nul_def lines_def)
  have some: "lines fs \<noteq> []" using assms(2) by (cases fs) (simp_all add: lines_def)
  have short: "length (c_str (g_buckets_root g)) < 500" using assms(5) length_c_str [of "g_buckets_root g"] by linarith
  have "shell_execute os (''ls '' @ c_str (g_buckets_root g)) sys = Some (lines fs, sys)"
    using assms(1,4) out by (simp add: shell_execute_def)
  then have "cls_user_bucket_list os junk ctime g [] sys = Some (0, map (listed_bucket ctime) (fs @ [[]]), sys)"
    using some short split_lines_names [of fs] assms(3) by (simp add: cls_user_bucket_list_def fits_def)
  then have read: "rgw_read_user_buckets os junk ctime g sys = Some (0, m, sys)"
    unfolding rgw_read_user_buckets_def m_def kvs_def fold_listed_buckets [symmetric] by simp
  have "ordered_map plain m" unfolding m_def by (rule std_map.ok_fold_upd) simp
  then have sorted: "sorted_wrt (<) (map fst m)" by (simp add: ordered_map_def comp_def plain_def)
  have keys: "set (map fst m) = insert [] (set fs)"
    unfolding m_def set_map keys_fold_smap by (simp add: kvs_def image_image)
  have names: "map fst m = sorted_list_of_set (insert [] (set fs))"
    unfolding keys [symmetric] using sorted sorted_list_of_set.idem_if_sorted_distinct [of "map fst m"] by (simp only: strict_sorted_iff)
  have "ent_creation_time (snd p) = ctime" if "p \<in> set m" for p
    using subsetD [OF entries_fold_smap [of kvs "[]"], folded m_def, OF that] by (auto simp: kvs_def listed_bucket_def)
  then have "ent_creation_time ` snd ` set m \<subseteq> {ctime}" by blast
  moreover have "ent_creation_time ` snd ` set m \<noteq> {}" using keys by (cases m) simp_all
  ultimately have "ent_creation_time ` snd ` set m = {ctime}" by (simp only: subset_singleton_iff simp_thms)
  with read names show ?thesis by blast
qed

end
