(* ===== verification/Object_Store.thy ===== *)
theory Object_Store
  imports Objects
begin

text \<open>
  Correctness of the operations on objects, over the definitions of \<^verbatim>\<open>Objects\<close>.  The loops that send and store an object
  in chunks are related to the whole of its bytes; the lemmas on the single stages (open, read or receive, write, statistics,
  response) then give what a request for an object, a range of it, or the storing of one does to the files and to the
  client.
\<close>

section \<open>The loop that sends an object\<close>

definition chunk_ok :: "globals \<Rightarrow> bool" where
  "chunk_ok g \<longleftrightarrow> 0 < unat (g_rgw_max_chunk_size g) \<and> unat (g_rgw_max_chunk_size g) < 2 ^ 31"

lemma sint_word_of_int64: "- (2 ^ 63) \<le> i \<Longrightarrow> i < 2 ^ 63 \<Longrightarrow> sint (word_of_int i :: uint64) = i"
  by (simp add: sint_sbintrunc' signed_take_bit_int_eq_self)

lemma unat_word_of_int64: "0 \<le> i \<Longrightarrow> i < 2 ^ 64 \<Longrightarrow> unat (word_of_int i :: uint64) = nat i"
  by (simp add: unat_eq_nat_uint uint_word_of_int)

lemma c_int_id: "- (2 ^ 31) \<le> i \<Longrightarrow> i < 2 ^ 31 \<Longrightarrow> c_int i = i"
  by (simp add: c_int_def sint_sbintrunc' signed_take_bit_int_eq_self)

lemma send_data_sent:
  "fcgx_writes (rw_lib w) \<Longrightarrow> go_ret op = 0 \<Longrightarrow> go_sent_header op \<Longrightarrow>
     send_response_data w bl op (s, io) = Some (op, (s, if go_get_data op then sent bl io else io))"
  by (simp add: send_response_data_def cio_put_def cio_write_sent)

lemma sent_Nil [simp]: "sent [] io = io"
  by (simp add: sent_def)

lemma take_drop_step: "k \<le> n \<Longrightarrow> take k (drop a d) @ take (n - k) (drop (a + k) d) = take n (drop a d)"
  using take_add [of k "n - k" "drop a d"] by (simp add: add.commute)

lemma get_loop_sends:
  assumes w: "fcgx_writes (rw_lib w)" and os: "os_reads os" and chunk: "chunk_ok (rw_globals w)"
    and op: "go_ret op = 0" "go_sent_header op" and d: "length d < 2 ^ 63"
  shows "left = int n \<Longrightarrow> pos_at + n \<le> length d \<Longrightarrow>
    (if is_ranged op then 0 \<le> go_ofs op \<and> pos_at = nat (go_ofs op) + unat cur else pos_at = fpos) \<Longrightarrow>
    get_loop os w (Regular m d) left cur fpos op (s, io) =
      Some (True, op, (s, if go_get_data op then sent (take n (drop pos_at d)) io else io))"
proof (induction n arbitrary: left cur fpos pos_at io rule: less_induct)
  case (less n)
  show ?case
  proof (cases "n = 0")
    case True
    then show ?thesis using less.prems(1) by (subst get_loop.simps) simp
  next
    case False
    define c where "c = unat (g_rgw_max_chunk_size (rw_globals w))"
    define k where "k = min n c"
    have c: "0 < c" "c < 2 ^ 31" using chunk by (auto simp: chunk_ok_def c_def)
    have k: "0 < k" "k \<le> n" "k < 2 ^ 31" using c False by (auto simp: k_def)
    have len: "(if unat (g_rgw_max_chunk_size (rw_globals w)) > nat left then left else int (unat (g_rgw_max_chunk_size (rw_globals w)))) = int k"
      using less.prems(1) by (auto simp: k_def c_def)
    have uk: "unat (word_of_nat k :: uint64) = k" using k by (simp add: unat_word_of_nat64)
    have bytes: "length (take k (drop pos_at d)) = k" using less.prems(2) k by simp
    have read: "(if is_ranged op then pread_fd os (word_of_int (int k)) (sint (word_of_int (go_ofs op) + cur)) (Regular m d)
        else read_fd os (word_of_int (int k)) (Regular m d) fpos) = Some (int k, take k (drop pos_at d))"
    proof (cases "is_ranged op")
      case True
      then have at: "0 \<le> go_ofs op" "pos_at = nat (go_ofs op) + unat cur" using less.prems(3) by simp_all
      have "word_of_int (go_ofs op) + cur = (word_of_int (int pos_at) :: uint64)" using at by simp
      then have "sint (word_of_int (go_ofs op) + cur) = int pos_at"
        using less.prems(2) d sint_word_of_int64 [of "int pos_at"] by simp
      then show ?thesis using True os k bytes by (simp add: pread_fd_take uk)
    next
      case False
      then show ?thesis using less.prems(3) os k bytes by (simp add: read_fd_take uk)
    qed
    define left' where "left' = sint (word_of_int left - g_rgw_max_chunk_size (rw_globals w))"
    have "word_of_int left - g_rgw_max_chunk_size (rw_globals w) = word_of_int (int n - int c)"
      using less.prems(1) by (simp add: c_def)
    then have left': "left' = int n - int c"
      unfolding left'_def using c less.prems(2) d sint_word_of_int64 [of "int n - int c"] by simp
    define st' where "st' = (s, if go_get_data op then sent (take k (drop pos_at d)) io else io)"
    have pos: "(left \<le> 0) = False" using less.prems(1) False by simp
    have ck: "c_int (int k) = int k" using k by (simp add: c_int_id)
    have step: "get_loop os w (Regular m d) left cur fpos op (s, io) =
        get_loop os w (Regular m d) left' (cur + word_of_int (int k)) (fpos + k) op st'"
      by (subst get_loop.simps) (simp only: pos Let_def len read bind.bind_lunit prod.case ck bytes left'_def [symmetric] if_False
          send_data_sent [OF w op] st'_def [symmetric] simp_thms)
    show ?thesis
    proof (cases "n \<le> c")
      case True
      then have "get_loop os w (Regular m d) left' cur' fpos' op st' = Some (True, op, st')" for cur' fpos'
        using left' by (subst get_loop.simps) simp
      moreover have "k = n" using True by (simp add: k_def)
      ultimately show ?thesis using step by (simp add: st'_def)
    next
      case False
      then have kc: "k = c" "c < n" by (simp_all add: k_def)
      have "unat (cur + word_of_int (int k)) = unat cur + k" if "is_ranged op"
        using less.prems(2,3) that d kc by (simp add: unat_word_ariths unat_word_of_nat64)
      then have "get_loop os w (Regular m d) left' (cur + word_of_int (int k)) (fpos + k) op st' =
          Some (True, op, (s, if go_get_data op then sent (take (n - k) (drop (pos_at + k) d)) (snd st') else snd st'))"
        unfolding st'_def snd_conv using kc left' less.prems k
        by (intro less.IH) (auto split: if_splits)
      then show ?thesis using step k(2) by (simp add: st'_def take_drop_step)
    qed
  qed
qed

section \<open>The head of a response without error\<close>

definition end_lines :: "req_state \<Rightarrow> string option \<Rightarrow> string" where
  "end_lines s ctype =
     header_line ''x-amz-request-id'' (c_str (rs_trans_id s)) @
     (if bi_requester_pays (rs_bucket_info s) then header_line ''x-amz-request-charged'' ''requester'' else []) @
     (case ctype of None \<Rightarrow> [] | Some c \<Rightarrow> header_line ''Content-Type'' c) @ [CR, LF]"

definition status_line :: "resp_world \<Rightarrow> int \<Rightarrow> string" where
  "status_line w code = ''Status: '' @ dec_int_str code @ '' '' @ http_status_name w code @ [CR, LF]"

text \<open>A request of the S3 interface whose response has not begun.\<close>

definition fresh_response :: "req_state \<Rightarrow> bool" where
  "fresh_response s \<longleftrightarrow> rs_formatter s = Some (FXml (new_xml_formatter False)) \<and> \<not> is_swift s \<and> short_text (rs_trans_id s)"

lemma fresh_flush: "rs_formatter s = Some (FXml (new_xml_formatter False)) \<Longrightarrow> rgw_flush_formatter_and_reset w (s, io) = Some (s, io)"
  by (cases s) (simp add: rgw_flush_formatter_and_reset_def rgw_flush_formatter_def xf_flush_def xf_reset_def new_xml_formatter_def
      xf_finish_pending_string_def newline_if_def)

lemma end_header_plain:
  assumes "fcgx_writes (rw_lib w)" and "fresh_response s" and "\<not> is_err (rs_err s)" and "op \<noteq> Some True"
    and "\<And>c. ctype = Some c \<Longrightarrow> short_text c"
  shows "end_header w op ctype (- 1) False (s, io) = Some (s, (sent (end_lines s ctype) io)\<lparr>cio_account := True\<rparr>)"
proof -
  have id: "short_text (c_str (rs_trans_id s))" using assms(2) length_c_str [of "rs_trans_id s"] by (simp add: fresh_response_def)
  define pays where "pays = (if bi_requester_pays (rs_bucket_info s) then header_line ''x-amz-request-charged'' ''requester'' else [])"
  have "(if \<not> is_err (rs_err s) \<and> bi_requester_pays (rs_bucket_info s) then header w ''x-amz-request-charged'' ''requester'' (s, i) else Some (s, i))
      = Some (s, sent pays i)" for i
    using assms(1,3) by (simp add: pays_def header_sent)
  then show ?thesis
    using assms id
    by (cases ctype) (auto simp: end_header_def dump_trans_id_def fresh_response_def header_sent no_cors_headers fresh_flush
        complete_header_def cio_print_sent end_lines_def pays_def [symmetric] xf_get_len_def new_xml_formatter_def)
qed

section \<open>The head of an object's response\<close>

definition plain_get :: "resp_world \<Rightarrow> req_state \<Rightarrow> bool" where
  "plain_get w s \<longleftrightarrow> fresh_response s \<and> \<not> rs_system_request s \<and> response_params (args (rs_info s)) = (None, []) \<and>
     short_text (http_status_name w 200) \<and> short_text (http_status_name w 206) \<and>
     smap_get (rt_rgw_to_http_attrs (rw_tables w)) RGW_ATTR_ETAG = None"

definition object_lines :: "nat \<Rightarrow> string \<Rightarrow> string" where
  "object_lines len etag =
     header_line ''Content-Length'' (dec len) @ header_line ''Accept-Ranges'' ''none'' @
     header_line ''Last-Modified'' ''Thu, 01 Jan 1970 00:00:00 GMT'' @ header_line ''ETag'' ([DQUOTE] @ etag @ [DQUOTE])"

lemma epoch_date: "gmtime 0 = Some d \<Longrightarrow> http_date d = ''Thu, 01 Jan 1970 00:00:00 GMT''"
proof -
  have "map_option http_date (gmtime 0) = Some ''Thu, 01 Jan 1970 00:00:00 GMT''" by code_simp
  then show "gmtime 0 = Some d \<Longrightarrow> http_date d = ''Thu, 01 Jan 1970 00:00:00 GMT''" by simp
qed

lemma dump_last_modified_epoch:
  "fcgx_writes (rw_lib w) \<Longrightarrow> dump_last_modified w 0 (s, io) = Some (s, sent (header_line ''Last-Modified'' ''Thu, 01 Jan 1970 00:00:00 GMT'') io)"
proof -
  assume w: "fcgx_writes (rw_lib w)"
  have "\<exists>d. gmtime 0 = Some d" using gmtime_timegm [of 0] by auto
  then obtain d where "gmtime 0 = Some d" by blast
  then show ?thesis using w epoch_date [of d] by (simp add: dump_last_modified_def dump_time_header_def header_sent)
qed

lemma etag_attr_name: "c_str RGW_ATTR_ETAG = RGW_ATTR_ETAG" "RGW_ATTR_ETAG \<noteq> RGW_ATTR_CONTENT_TYPE" "\<not> starts_with RGW_ATTR_ETAG RGW_ATTR_META_PREFIX"
  by code_simp+

definition range_line :: "get_obj \<Rightarrow> req_state \<Rightarrow> string" where
  "range_line op s =
     (if go_range_str op = None then []
      else ''Content-Range: bytes '' @ dec_int_str (sint (word_of_int (go_start op) :: uint64)) @ ''-'' @
        dec_int_str (sint (word_of_int (go_end op) :: uint64)) @ ''/'' @ dec_int_str (sint (rs_obj_size s)) @ [CR, LF])"

lemma dump_range_sent:
  "fcgx_writes (rw_lib w) \<Longrightarrow> go_range_str op = Some r \<Longrightarrow>
     dump_range w (word_of_int (go_start op)) (word_of_int (go_end op)) (rs_obj_size s) (s, io) = Some (s, sent (range_line op s) io)"
  using dec_int_str_length [of "word_of_int (go_start op)"] dec_int_str_length [of "word_of_int (go_end op)"] dec_int_str_length [of "rs_obj_size s"]
  by (simp add: range_line_def dump_range_def emit_sent)

lemma no_range_line: "go_range_str op = None \<Longrightarrow> range_line op s = []"
  by (simp add: range_line_def)

lemma object_headers_sent:
  assumes "fcgx_writes (rw_lib w)" and "plain_get w s" and "go_attrs op = [(RGW_ATTR_ETAG, etag @ [NUL])]" and "go_lastmod op = 0"
    and "no_nul etag" and "etag \<noteq> []" and "length etag < 1000"
  shows "object_headers w op (s, io) = Some ([], (None, []), op, (s, sent (range_line op s @ object_lines (unat (go_total_len op)) etag) io))"
proof -
  have "c_str (etag @ [NUL]) = etag" using assms(5) by (simp add: c_str_def no_nul_def takeWhile_append)
  moreover have "smap_get [(RGW_ATTR_ETAG, etag @ [NUL])] RGW_ATTR_ETAG = Some (etag @ [NUL])" by simp
  ultimately show ?thesis
    using assms unfolding plain_get_def
    by (cases "go_range_str op") (simp_all add: object_headers_def dump_range_sent no_range_line dump_content_length_sent dump_last_modified_epoch dump_etag_def fresh_response_def header_sent
        object_lines_def etag_attr_name)
qed

lemma ok_status:
  assumes "\<not> is_swift s"
  shows "http_ret (rs_err (set_req_state_err 0 s)) = 200" "http_ret (rs_err (set_req_state_err STATUS_PARTIAL_CONTENT s)) = 206"
proof -
  have "search_err 0 RGW_HTTP_ERRORS = Some (200, [])" "search_err STATUS_PARTIAL_CONTENT RGW_HTTP_ERRORS = Some (206, [])" by code_simp+
  then show "http_ret (rs_err (set_req_state_err 0 s)) = 200" "http_ret (rs_err (set_req_state_err STATUS_PARTIAL_CONTENT s)) = 206"
    using assms by (simp_all add: set_req_state_err_def set_err_code_def is_swift_def Let_def)
qed

lemma set_req_state_err_keeps:
  "rs_bucket_info (set_req_state_err e s) = rs_bucket_info s" "rs_info (set_req_state_err e s) = rs_info s"
  "rs_system_request (set_req_state_err e s) = rs_system_request s" "rs_obj_size (set_req_state_err e s) = rs_obj_size s"
  by (auto simp: set_req_state_err_def set_err_code_def Let_def split: option.splits if_splits)

text \<open>Everything in front of the data.\<close>

definition object_head :: "resp_world \<Rightarrow> get_obj \<Rightarrow> req_state \<Rightarrow> string \<Rightarrow> string" where
  "object_head w op s etag =
     range_line op s @ object_lines (unat (go_total_len op)) etag @ status_line w (if go_partial_content op then 206 else 200) @
     end_lines s (Some ''binary/octet-stream'')"

lemma send_head_sent:
  assumes "fcgx_writes (rw_lib w)" and "plain_get w s" and "go_attrs op = [(RGW_ATTR_ETAG, etag @ [NUL])]" and "go_lastmod op = 0"
    and "no_nul etag" and "etag \<noteq> []" and "length etag < 1000" and "go_ret op = 0" and "\<not> go_sent_header op" and "\<not> go_cors_exist op"
  shows "\<exists>s'. send_response_data w [] op (s, io) =
    Some (op\<lparr>go_sent_header := True\<rparr>, (s', (sent (object_head w op s etag) io)\<lparr>cio_account := True\<rparr>))"
proof -
  let ?s = "set_req_state_err (if go_partial_content op then STATUS_PARTIAL_CONTENT else 0) s"
  have code: "http_ret (rs_err ?s) = (if go_partial_content op then 206 else 200)"
    using assms(2) ok_status [of s] by (simp add: plain_get_def fresh_response_def)
  have status: "dump_errno w (?s, i) = Some (?s, sent (status_line w (if go_partial_content op then 206 else 200)) i)" for i
    using assms(1,2) code by (subst dump_errno_sent) (simp_all add: plain_get_def status_line_def)
  have "end_header w (Some (go_cors_exist op)) (Some ''binary/octet-stream'') (- 1) False (?s, i) =
      Some (?s, (sent (end_lines ?s (Some ''binary/octet-stream'')) i)\<lparr>cio_account := True\<rparr>)" for i
    using assms(1,2,10) code
    by (intro end_header_plain) (auto simp: plain_get_def fresh_response_def set_req_state_err_other is_err_def)
  moreover have "end_lines ?s c = end_lines s c" for c
    by (simp add: end_lines_def set_req_state_err_other set_req_state_err_keeps)
  ultimately have "send_response_data w [] op (s, io) = Some (op\<lparr>go_sent_header := True\<rparr>,
      (?s, (sent (object_head w op s etag) io)\<lparr>cio_account := True\<rparr>))"
    using assms(8,9) status unfolding send_response_data_def object_headers_sent [OF assms(1-7)]
    by (cases "go_partial_content op") (simp_all add: cio_put_def cio_write_sent [OF assms(1)] object_head_def)
  then show ?thesis by blast
qed

section \<open>Sending a file\<close>

lemma get_send_file_sent:
  assumes "fcgx_writes (rw_lib w)" and "plain_get w s" and "os_reads os" and "chunk_ok (rw_globals w)" and "length d < 2 ^ 63"
    and "go_attrs op = []" and "go_lastmod op = 0" and "go_ret op = 0" and "\<not> go_sent_header op" and "\<not> go_cors_exist op"
    and "no_nul etag" and "etag \<noteq> []" and "length etag < 1000"
    and etag: "(if is_ranged op then map_option (\<lambda>e. (e, sys)) (range_etag os md5 (int n) (go_ofs op) (Regular m d)) else md5sum_etag os path sys)
      = Some (etag @ [NUL], sys)"
    and at: "pos_at + n \<le> length d" "if is_ranged op then 0 \<le> go_ofs op \<and> pos_at = nat (go_ofs op) else pos_at = 0"
  shows "\<exists>op' s' io'. get_send_file os md5 w path (Regular m d) (int n) op (s, io) sys = Some (op', (s', io'), sys) \<and>
    cio_out io' = cio_out io @ object_head w op s etag @ (if go_get_data op then take n (drop pos_at d) else [])"
proof -
  define op1 where "op1 = op\<lparr>go_attrs := [(RGW_ATTR_ETAG, etag @ [NUL])]\<rparr>"
  have op1: "go_attrs op1 = [(RGW_ATTR_ETAG, etag @ [NUL])]" "go_lastmod op1 = 0" "go_ret op1 = 0" "\<not> go_sent_header op1" "\<not> go_cors_exist op1"
    "is_ranged op1 = is_ranged op" "go_ofs op1 = go_ofs op" "go_get_data op1 = go_get_data op" "object_head w op1 s etag = object_head w op s etag"
    using assms(6-10) by (simp_all add: op1_def is_ranged_def object_head_def range_line_def)
  define op2 where "op2 = op1\<lparr>go_sent_header := True\<rparr>"
  have op2: "go_ret op2 = 0" "go_sent_header op2" "is_ranged op2 = is_ranged op" "go_ofs op2 = go_ofs op" "go_get_data op2 = go_get_data op"
    using op1 by (simp_all add: op2_def is_ranged_def)
  obtain s' where head: "send_response_data w [] op1 (s, io) =
      Some (op2, (s', (sent (object_head w op s etag) io)\<lparr>cio_account := True\<rparr>))"
    using send_head_sent [OF assms(1,2) op1(1,2) assms(11-13) op1(3-5), of io] op1(9) by (auto simp: op2_def)
  have loop: "get_loop os w (Regular m d) (int n) 0 0 op2 (s', i) =
      Some (True, op2, (s', if go_get_data op2 then sent (take n (drop pos_at d)) i else i))" for i
    using at op2 by (intro get_loop_sends [OF assms(1,3,4) op2(1,2) assms(5)]) simp_all
  have "get_send_file os md5 w path (Regular m d) (int n) op (s, io) sys = Some (op2, (s',
      if go_get_data op2 then sent (take n (drop pos_at d)) ((sent (object_head w op s etag) io)\<lparr>cio_account := True\<rparr>)
      else (sent (object_head w op s etag) io)\<lparr>cio_account := True\<rparr>), sys)"
    unfolding get_send_file_def etag using assms(6)
    by (simp add: head [unfolded op1_def] loop send_data_sent [OF assms(1) op2(1,2)])
  then show ?thesis using op2(5) by simp
qed

section \<open>Digests\<close>

text \<open>What \<^verbatim>\<open>md5sum\<close> prints for a file whose path needs no quoting: the digest, two blanks and the path.\<close>

definition plain_path :: "string \<Rightarrow> bool" where
  "plain_path p \<longleftrightarrow> p \<noteq> [] \<and> hd p \<noteq> CHR ''-'' \<and> (\<forall>c \<in> set p. isalpha c \<or> isdigit c \<or> c \<in> set ''/._-'')"

definition md5sum_prints :: "os \<Rightarrow> (string \<Rightarrow> string) \<Rightarrow> bool" where
  "md5sum_prints os md5 \<longleftrightarrow> (\<forall>path files m d. plain_path path \<longrightarrow> files (os_resolve os path) = Some (Regular m d) \<longrightarrow>
     os_popen os (''md5sum '' @ path) files = Some (buf_to_hex (md5 d) @ ''  '' @ path @ [LF], 0, files))"

definition md5_digest :: "(string \<Rightarrow> string) \<Rightarrow> bool" where
  "md5_digest md5 \<longleftrightarrow> (\<forall>d. length (md5 d) = 16)"

lemma length_buf_to_hex: "length (buf_to_hex b) = 2 * length b"
  by (induction b) (simp_all add: buf_to_hex_def hex2_lower_def)

lemma buf_to_hex_chars: "c \<in> set (buf_to_hex b) \<Longrightarrow> \<not> isspace c \<and> c \<noteq> NUL"
proof -
  have "list_all (\<lambda>c. \<not> isspace c \<and> c \<noteq> NUL) xdigits_lower" by code_simp
  then have "\<not> isspace (hex_lower n) \<and> hex_lower n \<noteq> NUL" if "n < 16" for n
    using hex_in_xdigits(1) [OF that] by (auto simp: list_all_iff)
  then show "c \<in> set (buf_to_hex b) \<Longrightarrow> \<not> isspace c \<and> c \<noteq> NUL"
    by (auto simp: buf_to_hex_def hex2_lower_def)
qed

lemma buf_to_hex_etag:
  assumes "md5_digest md5"
  shows "no_nul (buf_to_hex (md5 d))" "buf_to_hex (md5 d) \<noteq> []" "length (buf_to_hex (md5 d)) < 1000" "length (buf_to_hex (md5 d)) = 32"
proof -
  show l: "length (buf_to_hex (md5 d)) = 32" using assms by (simp add: md5_digest_def length_buf_to_hex)
  then show "buf_to_hex (md5 d) \<noteq> []" "length (buf_to_hex (md5 d)) < 1000" by auto
  show "no_nul (buf_to_hex (md5 d))" using buf_to_hex_chars by (auto simp: no_nul_def)
qed

lemma scan_word_first: "t \<noteq> [] \<Longrightarrow> (\<And>c. c \<in> set t \<Longrightarrow> \<not> isspace c) \<Longrightarrow> isspace b \<Longrightarrow> scan_word (t @ b # rest) = Some t"
  by (cases t) (simp_all add: scan_word_def takeWhile_append Let_def)

lemma md5sum_etag_eq:
  assumes "md5sum_prints os md5" and "md5_digest md5" and "plain_path path" and "length path < 470"
    and "os_files sys (os_resolve os path) = Some (Regular m d)"
  shows "md5sum_etag os path sys = Some (buf_to_hex (md5 d) @ [NUL], sys)"
proof -
  let ?h = "buf_to_hex (md5 d)"
  have popen: "os_popen os (''md5sum '' @ path) (os_files sys) = Some (?h @ ''  '' @ path @ [LF], 0, os_files sys)"
    using assms(1,3,5) unfolding md5sum_prints_def by blast
  have "\<forall>c \<in> set path. c \<noteq> NUL" using assms(3) by (auto simp: plain_path_def isalpha_def isupper_def islower_def isdigit_def)
  then have "NUL \<notin> set (?h @ ''  '' @ path @ [LF])"
    using buf_to_hex_etag(1) [OF assms(2), of d] by (auto simp: no_nul_def)
  then have "shell_execute os (''md5sum '' @ path) sys = Some (?h @ ''  '' @ path @ [LF], sys)"
    using popen assms(4) buf_to_hex_etag(4) [OF assms(2), of d] c_str_id [of "?h @ ''  '' @ path @ [LF]"]
    by (simp add: shell_execute_def no_nul_def)
  moreover have "scan_word (?h @ ''  '' @ path @ [LF]) = Some ?h"
    using buf_to_hex_etag(2) [OF assms(2), of d] buf_to_hex_chars scan_word_first [of ?h "CHR '' ''" "'' '' @ path @ [LF]"]
    by (simp add: blank_space)
  ultimately show ?thesis using assms(4) by (simp add: md5sum_etag_def)
qed

section \<open>Reading an object\<close>

definition unconditional :: "req_state \<Rightarrow> bool" where
  "unconditional s \<longleftrightarrow> env_get (rs_env s) ''HTTP_IF_MODIFIED_SINCE'' None = None \<and> env_get (rs_env s) ''HTTP_IF_UNMODIFIED_SINCE'' None = None"

text \<open>A file that a path names and a user may read.\<close>

definition readable_file :: "os \<Rightarrow> string \<Rightarrow> os_state \<Rightarrow> nat \<Rightarrow> string \<Rightarrow> bool" where
  "readable_file os path sys m d \<longleftrightarrow> os_files sys (os_resolve os path) = Some (Regular m d) \<and>
     os_may os (os_fsuid sys) MayStat (os_resolve os path) (os_files sys) \<and> os_may os (os_fsuid sys) MayRead (os_resolve os path) (os_files sys)"

lemma plain_get_obj_size: "plain_get w (s\<lparr>rs_obj_size := n\<rparr>) = plain_get w s"
  by (simp add: plain_get_def fresh_response_def is_swift_def)

lemma end_lines_obj_size: "end_lines (s\<lparr>rs_obj_size := n\<rparr>) c = end_lines s c"
  by (simp add: end_lines_def)

lemma get_execute_file:
  assumes "readable_file os (request_path (rw_globals w) s) sys m d"
    and "get_init_common (get_get_params s op) = (0, op1)" and "go_ret op1 = 0"
  shows "get_execute os md5 junk w op (s, io) sys =
    get_send_file os md5 w (request_path (rw_globals w) s) (Regular m d)
      (if is_ranged op1 then go_end op1 - go_ofs op1 else int (length d))
      (op1\<lparr>go_total_len := word_of_nat (length d)\<rparr>) (s\<lparr>rs_obj_size := word_of_nat (length d)\<rparr>, io) sys"
proof -
  have "op1\<lparr>go_ret := 0\<rparr> = op1" using assms(3) by simp
  then show ?thesis using assms(1,2)
    by (simp add: get_execute_def readable_file_def sys_stat_def sys_open_read_def inode_size_def is_ranged_def Let_def)
qed

text \<open>A request for a whole object is answered with its length, its digest and exactly the bytes of the file,
  whatever the size of the chunks in which the file is read; a request for the head is answered with the same
  header and no data.\<close>

lemma get_object_complete:
  assumes "fcgx_writes (rw_lib w)" and "os_reads os" and "md5sum_prints os md5" and "md5_digest md5" and "chunk_ok (rw_globals w)"
    and "plain_get w s" and "unconditional s" and "env_get (rs_env s) ''HTTP_RANGE'' None = None"
    and "readable_file os (request_path (rw_globals w) s) sys m d" and "length d < 2 ^ 63"
    and "plain_path (request_path (rw_globals w) s)" and "length (request_path (rw_globals w) s) < 470"
  shows "\<exists>op' s' io'. get_execute os md5 junk w (snd (get_prefetch_data s (new_get_obj get_data))) (s, io) sys = Some (op', (s', io'), sys) \<and>
    cio_out io' = cio_out io @ object_lines (length d) (buf_to_hex (md5 d)) @ status_line w 200 @ end_lines s (Some ''binary/octet-stream'') @
      (if get_data then d else [])"
proof -
  define op1 where "op1 = get_get_params s (new_get_obj get_data)"
  have init: "get_init_common (get_get_params s (snd (get_prefetch_data s (new_get_obj get_data)))) = (0, op1)"
    using assms(7,8)
    by (simp add: get_prefetch_data_def get_init_common_def init_range_def opt_time_def unconditional_def op1_def get_get_params_def new_get_obj_def)
  define op2 where "op2 = op1\<lparr>go_total_len := word_of_nat (length d)\<rparr>"
  let ?s = "s\<lparr>rs_obj_size := word_of_nat (length d)\<rparr>"
  have op: "go_ret op1 = 0" "\<not> is_ranged op1" "go_attrs op2 = []" "go_lastmod op2 = 0" "go_ret op2 = 0" "\<not> go_sent_header op2" "\<not> go_cors_exist op2"
    "\<not> is_ranged op2" "go_get_data op2 = get_data" "go_range_str op2 = None" "\<not> go_partial_content op2" "unat (go_total_len op2) = length d"
    using assms(8,10) by (simp_all add: op2_def op1_def get_get_params_def new_get_obj_def is_ranged_def unat_word_of_nat64)
  have exec: "get_execute os md5 junk w (snd (get_prefetch_data s (new_get_obj get_data))) (s, io) sys =
      get_send_file os md5 w (request_path (rw_globals w) s) (Regular m d) (int (length d)) op2 (?s, io) sys"
    using get_execute_file [OF assms(9) init op(1)] op(2) by (simp add: op2_def)
  have etag: "(if is_ranged op2 then map_option (\<lambda>e. (e, sys)) (range_etag os md5 (int (length d)) (go_ofs op2) (Regular m d))
      else md5sum_etag os (request_path (rw_globals w) s) sys) = Some (buf_to_hex (md5 d) @ [NUL], sys)"
    using md5sum_etag_eq [OF assms(3,4,11,12)] assms(9) op(8) by (simp add: readable_file_def)
  have "plain_get w ?s" using assms(6) by (simp add: plain_get_obj_size)
  moreover have "object_head w op2 ?s t = object_lines (length d) t @ status_line w 200 @ end_lines s (Some ''binary/octet-stream'')" for t
    using op(10-12) by (simp add: object_head_def no_range_line end_lines_obj_size)
  ultimately show ?thesis
    using get_send_file_sent [OF assms(1) _ assms(2,5,10) op(3-7) buf_to_hex_etag(1-3) [OF assms(4)] etag, of ?s 0 io] op(8,9) exec by auto
qed

section \<open>Reading a range\<close>

lemma atoll_dec: "int n < 2 ^ 63 \<Longrightarrow> atoll (dec n) = int n"
  using strtoll10_dec [of "[]" n] by (simp add: atoll_def)

lemma dec_no_minus: "CHR ''-'' \<notin> set (dec n)" "NUL \<notin> set (dec n)"
  using dec_digits [of n] by (auto simp: isdigit_def)

lemma dec_zero: "dec 0 = ''0''"
  by code_simp

lemma range_spec_bytes: "range_spec (''bytes='' @ s) = Some s"
proof -
  have "find_str ''bytes='' (''bytes='' @ s) = Some 0"
    unfolding find_str_def by (subst upt_conv_Cons) (simp_all add: starts_with_def)
  then show ?thesis by (simp add: range_spec_def)
qed

lemma parse_range_bytes:
  assumes "a \<le> b" and "int b < 2 ^ 63"
  shows "parse_range (''bytes='' @ dec a @ ''-'' @ dec b) 0 (- 1) = (0, int a, int b, True)"
proof -
  have "c_str (''bytes='' @ dec a @ ''-'' @ dec b) = ''bytes='' @ dec a @ ''-'' @ dec b"
    using dec_no_minus(2) by (intro c_str_id) (auto simp: no_nul_def)
  moreover have "takeWhile (\<lambda>c. c \<noteq> CHR ''-'') (dec a @ ''-'' @ dec b) = dec a" "dropWhile (\<lambda>c. c \<noteq> CHR ''-'') (dec a @ ''-'' @ dec b) = ''-'' @ dec b"
    using dec_no_minus(1) [of a] by (auto simp: takeWhile_append dropWhile_append)
  ultimately show ?thesis using assms by (simp add: parse_range_def range_spec_bytes [simplified] atoll_dec Let_def)
qed

lemma range_etag_eq:
  assumes "os_reads os" and "pos_at + n \<le> length d" and "n < 2 ^ 32 - 4096"
  shows "range_etag os md5 (int n) (int pos_at) (Regular m d) = Some (buf_to_hex (md5 (take n (drop pos_at d))) @ [NUL])"
proof -
  have "unat (word_of_nat n :: uint64) = n" using assms(3) by (intro unat_word_of_nat64) simp
  then show ?thesis using assms by (simp add: range_etag_def pread_fd_take)
qed

text \<open>C16: A request for the bytes from \<open>a\<close> to \<open>b\<close> of an object, both included by the definition of HTTP, is answered with
  one byte less, the one at \<open>b\<close> missing; the header announces the length of the whole object and a range that starts at 0.\<close>

theorem range_request_response:
  assumes "fcgx_writes (rw_lib w)" and "os_reads os" and "md5_digest md5" and "chunk_ok (rw_globals w)"
    and "plain_get w s" and "unconditional s" and "env_get (rs_env s) ''HTTP_RANGE'' None = Some (''bytes='' @ dec a @ ''-'' @ dec b)"
    and "readable_file os (request_path (rw_globals w) s) sys m d" and "length d < 2 ^ 63"
    and "a \<le> b" and "b < length d" and "b - a < 2 ^ 32 - 4096"
  shows "\<exists>op' s' io'. get_execute os md5 junk w (snd (get_prefetch_data s (new_get_obj True))) (s, io) sys = Some (op', (s', io'), sys) \<and>
    cio_out io' = cio_out io @ ''Content-Range: bytes 0-'' @ dec b @ ''/'' @ dec (length d) @ [CR, LF] @
      object_lines (length d) (buf_to_hex (md5 (take (b - a) (drop a d)))) @ status_line w 206 @ end_lines s (Some ''binary/octet-stream'') @
      take (b - a) (drop a d)"
proof -
  let ?r = "''bytes='' @ dec a @ ''-'' @ dec b"
  define op0 where "op0 = (new_get_obj True)\<lparr>go_range_str := Some ?r, go_ofs := int a, go_end := int b, go_partial_content := True, go_range_parsed := True\<rparr>"
  define op1 where "op1 = get_get_params s op0"
  have b: "int b < 2 ^ 63" using assms(9,11) by simp
  have pre: "snd (get_prefetch_data s (new_get_obj True)) = op0"
    using assms(7) parse_range_bytes [OF assms(10) b] by (simp add: get_prefetch_data_def set_range_def new_get_obj_def op0_def)
  have init: "get_init_common (get_get_params s (snd (get_prefetch_data s (new_get_obj True)))) = (0, op1)"
    unfolding pre using assms(6,7)
    by (simp add: get_init_common_def init_range_def opt_time_def unconditional_def op1_def get_get_params_def op0_def new_get_obj_def)
  define op2 where "op2 = op1\<lparr>go_total_len := word_of_nat (length d)\<rparr>"
  let ?s = "s\<lparr>rs_obj_size := word_of_nat (length d)\<rparr>"
  have op: "go_ret op1 = 0" "is_ranged op1" "go_attrs op2 = []" "go_lastmod op2 = 0" "go_ret op2 = 0" "\<not> go_sent_header op2" "\<not> go_cors_exist op2"
    "is_ranged op2" "go_get_data op2" "go_range_str op2 \<noteq> None" "go_partial_content op2" "unat (go_total_len op2) = length d"
    "go_ofs op2 = int a" "go_end op1 - go_ofs op1 = int (b - a)" "go_end op2 = int b" "go_start op2 = 0"
    using assms(7,9,10) by (simp_all add: op2_def op1_def op0_def get_get_params_def new_get_obj_def is_ranged_def unat_word_of_nat64 of_nat_diff)
  have exec: "get_execute os md5 junk w (snd (get_prefetch_data s (new_get_obj True))) (s, io) sys =
      get_send_file os md5 w (request_path (rw_globals w) s) (Regular m d) (int (b - a)) op2 (?s, io) sys"
    using get_execute_file [OF assms(8) init op(1)] op(2,14) by (simp add: op2_def)
  let ?e = "buf_to_hex (md5 (take (b - a) (drop a d)))"
  have etag: "(if is_ranged op2 then map_option (\<lambda>e. (e, sys)) (range_etag os md5 (int (b - a)) (go_ofs op2) (Regular m d))
      else md5sum_etag os (request_path (rw_globals w) s) sys) = Some (?e @ [NUL], sys)"
    using range_etag_eq [OF assms(2) _ assms(12), of a d md5 m] assms(10,11) op(8,13) by simp
  have "sint (word_of_nat b :: uint64) = int b" "sint (word_of_nat (length d) :: uint64) = int (length d)"
    using sint_word_of_int64 [of "int b"] sint_word_of_int64 [of "int (length d)"] b assms(9) by simp_all
  then have "range_line op2 ?s = ''Content-Range: bytes 0-'' @ dec b @ ''/'' @ dec (length d) @ [CR, LF]"
    using op(10,15,16) by (simp add: range_line_def dec_int_str_def dec_zero)
  then have "object_head w op2 ?s ?e = ''Content-Range: bytes 0-'' @ dec b @ ''/'' @ dec (length d) @ [CR, LF] @
      object_lines (length d) ?e @ status_line w 206 @ end_lines s (Some ''binary/octet-stream'')"
    using op(11,12) by (simp add: object_head_def end_lines_obj_size)
  moreover have "plain_get w ?s" using assms(5) by (simp add: plain_get_obj_size)
  moreover have at: "a + (b - a) \<le> length d" "if is_ranged op2 then 0 \<le> go_ofs op2 \<and> a = nat (go_ofs op2) else a = 0"
    using assms(10,11) op(8,13) by simp_all
  ultimately show ?thesis
    using get_send_file_sent [OF assms(1) _ assms(2,4,9) op(3-7) buf_to_hex_etag(1-3) [OF assms(3)] etag at, of ?s io] op(9)
    by (simp only: exec if_True append_assoc)
qed

section \<open>Storing an object\<close>

definition put_size_ok :: "globals \<Rightarrow> nat \<Rightarrow> bool" where
  "put_size_ok g n \<longleftrightarrow> int n \<le> g_rgw_max_put_size g \<and> g_rgw_max_put_size g < 2 ^ 63"

lemma put_get_data_reads:
  assumes "fcgx_reads (rw_lib w)" and "chunk_ok (rw_globals w)" and "put_size_ok (rw_globals w) (length body)"
    and "rs_length s = Some l" and "atoll l = int (length body)" and "k \<le> length body" and "po_ofs op = int k"
    and "cio_in io = drop k body @ rest"
  defines "j \<equiv> min (length body - k) (unat (g_rgw_max_chunk_size (rw_globals w)))"
  shows "\<exists>md io'. put_get_data w op (s, io) = (int j, take j (drop k body), op\<lparr>po_supplied_md5_b64 := md\<rparr>, (s, io')) \<and>
    cio_in io' = drop (k + j) body @ rest \<and> cio_out io' = cio_out io \<and> cio_account io' = cio_account io"
proof -
  let ?c = "g_rgw_max_chunk_size (rw_globals w)" and ?max = "g_rgw_max_put_size (rw_globals w)"
  have len: "length body < 2 ^ 63" using assms(3) by (simp add: put_size_ok_def)
  have diff: "atoll l - po_ofs op = int (length body - k)" using assms(5-7) by simp
  have u: "unat (word_of_nat (length body - k) :: uint64) = length body - k" using len by (intro unat_word_of_nat64) simp
  define cl where "cl = (if (word_of_int (int (length body - k)) :: uint64) > ?c then ?c else word_of_int (int (length body - k)))"
  have cl: "unat cl = j" using u by (auto simp: cl_def j_def word_less_nat_alt min_def)
  have j: "j < 2 ^ 31" "j \<le> length body - k" using assms(2) by (auto simp: j_def chunk_ok_def)
  have "uint cl = int j" by (simp flip: cl)
  then have cj: "nat (c_int (uint cl)) = j" using j(1) by (simp add: c_int_id)
  obtain io' where io': "(if cl \<noteq> 0 then cio_read (rw_lib w) (nat (c_int (uint cl))) io else ([], io)) = (take j (drop k body), io')"
    "cio_in io' = drop (k + j) body @ rest" "cio_out io' = cio_out io" "cio_account io' = cio_account io"
  proof (cases "cl = 0")
    case True
    then have "j = 0" using cl by simp
    then show ?thesis using that [of io] True assms(8) by simp
  next
    case False
    have "take j (drop k body @ rest) = take j (drop k body)" "drop j (drop k body @ rest) = drop (k + j) body @ rest"
      using j(2) by (simp_all add: add.commute)
    then show ?thesis using that [of "(io\<lparr>cio_in := drop (k + j) body @ rest\<rparr>)\<lparr>cio_bytes_received := cio_bytes_received io + of_nat j\<rparr>"] False assms(1,8) j(2)
      by (simp add: cio_read_def read_data_def fcgx_reads_def cj Let_def)
  qed
  have bytes: "length (take j (drop k body)) = j" using j(2) by simp
  have limit: "((word_of_int (po_ofs op) + word_of_int (int j) :: uint64) > word_of_int ?max) = False"
  proof -
    have kj: "k + j \<le> length body" using j(2) assms(6) by simp
    then have "unat (word_of_nat (k + j) :: uint64) = k + j" using len by (intro unat_word_of_nat64) simp
    moreover have "unat (word_of_int ?max :: uint64) = nat ?max" using assms(3) by (intro unat_word_of_int64) (simp_all add: put_size_ok_def)
    moreover have "k + j \<le> nat ?max" using kj assms(3) unfolding put_size_ok_def by linarith
    ultimately show ?thesis using assms(7) by (simp add: word_less_nat_alt not_less flip: of_nat_add)
  qed
  have "put_get_data w op (s, io) = (int j, take j (drop k body),
      if po_ofs op = 0 then op\<lparr>po_supplied_md5_b64 := env_get (rs_env s) ''HTTP_CONTENT_MD5'' None\<rparr> else op, (s, io'))"
    unfolding put_get_data_def
    by (simp only: prod.case Let_def assms(4) option.case diff cl_def [symmetric] io'(1) bytes limit if_False)
  moreover have "\<exists>md. (if po_ofs op = 0 then op\<lparr>po_supplied_md5_b64 := env_get (rs_env s) ''HTTP_CONTENT_MD5'' None\<rparr> else op) = op\<lparr>po_supplied_md5_b64 := md\<rparr>"
    by (cases "po_ofs op = 0") (auto intro: exI [of _ "po_supplied_md5_b64 op"])
  ultimately obtain md where "put_get_data w op (s, io) = (int j, take j (drop k body), op\<lparr>po_supplied_md5_b64 := md\<rparr>, (s, io'))" by auto
  then show ?thesis using io'(2-4) by blast
qed

lemma sys_write_appends:
  "os_writes os \<Longrightarrow> os_files sys (os_resolve os path) = Some (Regular m d) \<Longrightarrow>
     sys_write os path bl sys = (int (length bl), sys\<lparr>os_files := (os_files sys)(os_resolve os path \<mapsto> Regular m (d @ bl))\<rparr>)"
  by (simp add: sys_write_def os_writes_def Let_def)

lemma put_loop_stores:
  assumes "fcgx_reads (rw_lib w)" and "chunk_ok (rw_globals w)" and "put_size_ok (rw_globals w) (length body)" and "os_writes os"
    and "rs_length s = Some l" and "atoll l = int (length body)"
  shows "k \<le> length body \<Longrightarrow> po_ofs op = int k \<Longrightarrow> cio_in io = drop k body @ rest \<Longrightarrow>
    os_files sys (os_resolve os path) = Some (Regular m (f @ take k body)) \<Longrightarrow>
    \<exists>md io'. put_loop os w path h op (s, io) sys =
      Some (True, h @ drop k body, op\<lparr>po_ofs := int (length body), po_supplied_md5_b64 := md\<rparr>, (s, io'),
        sys\<lparr>os_files := (os_files sys)(os_resolve os path \<mapsto> Regular m (f @ body))\<rparr>) \<and>
      cio_in io' = rest \<and> cio_out io' = cio_out io \<and> cio_account io' = cio_account io"
proof (induction "length body - k" arbitrary: k op io sys h rule: less_induct)
  case less
  define j where "j = min (length body - k) (unat (g_rgw_max_chunk_size (rw_globals w)))"
  obtain md io1 where get: "put_get_data w op (s, io) = (int j, take j (drop k body), op\<lparr>po_supplied_md5_b64 := md\<rparr>, (s, io1))"
    and io1: "cio_in io1 = drop (k + j) body @ rest" "cio_out io1 = cio_out io" "cio_account io1 = cio_account io"
    using put_get_data_reads [OF assms(1-3,5,6) less.prems(1-3)] unfolding j_def by blast
  show ?case
  proof (cases "j = 0")
    case True
    then have k: "k = length body" using less.prems(1) assms(2) by (auto simp: j_def chunk_ok_def min_def split: if_splits)
    have same: "sys\<lparr>os_files := (os_files sys)(os_resolve os path \<mapsto> Regular m (f @ body))\<rparr> = sys"
      using less.prems(4) k by (simp add: fun_upd_idem)
    have "op\<lparr>po_ofs := int (length body), po_supplied_md5_b64 := md\<rparr> = op\<lparr>po_supplied_md5_b64 := md\<rparr>"
      using less.prems(2) k by simp
    then show ?thesis using io1 True k same
      by (intro exI [of _ md] exI [of _ io1]) (subst put_loop.simps, simp add: get)
  next
    case False
    let ?sys = "sys\<lparr>os_files := (os_files sys)(os_resolve os path \<mapsto> Regular m ((f @ take k body) @ take j (drop k body)))\<rparr>"
    let ?op = "op\<lparr>po_supplied_md5_b64 := md, po_ofs := int (k + j)\<rparr>"
    have j: "0 < j" "k + j \<le> length body" using False less.prems(1) by (auto simp: j_def)
    have kj: "take k body @ take j (drop k body) = take (k + j) body" by (simp add: take_add)
    have step: "put_loop os w path h op (s, io) sys = put_loop os w path (h @ take j (drop k body)) ?op (s, io1) ?sys"
      using j less.prems(2) by (subst put_loop.simps) (simp add: get sys_write_appends [OF assms(4) less.prems(4)])
    have "\<exists>md' io'. put_loop os w path (h @ take j (drop k body)) ?op (s, io1) ?sys =
        Some (True, (h @ take j (drop k body)) @ drop (k + j) body, ?op\<lparr>po_ofs := int (length body), po_supplied_md5_b64 := md'\<rparr>, (s, io'),
          ?sys\<lparr>os_files := (os_files ?sys)(os_resolve os path \<mapsto> Regular m (f @ body))\<rparr>) \<and>
        cio_in io' = rest \<and> cio_out io' = cio_out io1 \<and> cio_account io' = cio_account io1"
      using j io1(1) kj by (intro less.hyps) simp_all
    moreover have "take j (drop k body) @ drop (k + j) body = drop k body"
      using append_take_drop_id [of j "drop k body"] by (simp add: add.commute)
    ultimately show ?thesis using step io1 by simp
  qed
qed

section \<open>The statistics file\<close>

definition may_access :: "os \<Rightarrow> 32 word \<Rightarrow> string \<Rightarrow> bool" where
  "may_access os uid path \<longleftrightarrow> (\<forall>acc files. os_may os uid acc (os_resolve os path) files)"

definition count_object :: "uint64 \<Rightarrow> uint64 \<Rightarrow> sys_info \<Rightarrow> sys_info" where
  "count_object entries bytes i =
     i\<lparr>si_num_entries := atoi_counter (si_num_entries i) + entries, si_total_size := atoi_counter (si_total_size i) + bytes,
       si_total_size_rounded := atoi_counter (si_total_size_rounded i)\<rparr>"

lemma sync_stat_cong:
  "si_num_entries i = si_num_entries j \<Longrightarrow> si_total_size i = si_total_size j \<Longrightarrow> si_total_size_rounded i = si_total_size_rounded j \<Longrightarrow>
     sync_stat i = sync_stat j"
  by (simp add: sync_stat_def)

lemma update_stat_counts:
  assumes "os_writes os" and "may_access os (os_fsuid sys) path" and "no_nul path"
    and "os_files sys (os_resolve os path) = Some (Regular m (sync_stat i))"
  shows "update_stat os path entries bytes sys =
    Some (sys\<lparr>os_files := (os_files sys)(os_resolve os path \<mapsto> Regular m (sync_stat (count_object entries bytes i)))\<rparr>)"
proof -
  have p: "c_str path = path" using assms(3) by (rule c_str_id)
  have may: "os_may os (os_fsuid sys) acc (os_resolve os path) files" for acc files using assms(2) by (simp add: may_access_def)
  have read: "fopen_read os path sys = Some (sync_stat i)" using assms(4) may by (simp add: fopen_read_def sys_open_read_def)
  define j where "j = new_sys_info\<lparr>si_file := path, si_total_size := atoi_counter (si_total_size i), si_num_entries := atoi_counter (si_num_entries i),
      si_total_size_rounded := atoi_counter (si_total_size_rounded i)\<rparr>"
  have parse: "parse_conf (Some (sync_stat i)) (CHR '':'') si_get_params (new_sys_info\<lparr>si_file := path\<rparr>) = Some (0, j)"
    by (simp add: parse_sync_stat j_def)
  define j' where "j' = j\<lparr>si_num_entries := si_num_entries j + entries, si_total_size := si_total_size j + bytes\<rparr>"
  have j': "si_file j' = path" "sync_stat j' = sync_stat (count_object entries bytes i)"
    by (auto simp: j'_def j_def count_object_def intro!: sync_stat_cong)
  have opened: "sys_open_write os (os_new_mode os) True path sys =
      Some (sys\<lparr>os_files := (os_files sys)(os_resolve os path \<mapsto> Regular m [])\<rparr>)"
    using assms(4) may by (simp add: sys_open_write_def)
  have "sync_stat_file os j' sys = sys\<lparr>os_files := (os_files sys)(os_resolve os path \<mapsto> Regular m (sync_stat j'))\<rparr>"
    using opened sys_write_appends [OF assms(1), of "sys\<lparr>os_files := (os_files sys)(os_resolve os path \<mapsto> Regular m [])\<rparr>" path m "[]"]
    by (simp add: sync_stat_file_def j'(1) p)
  then show ?thesis unfolding update_stat_def p read parse by (simp add: j'_def [symmetric] j'(2))
qed

section \<open>Storing and reading back\<close>

text \<open>A request that stores a body: no part of a larger upload, with a length that is the size of the body.\<close>

definition plain_put :: "resp_world \<Rightarrow> req_state \<Rightarrow> string \<Rightarrow> bool" where
  "plain_put w s body \<longleftrightarrow> \<not> obj_key_empty (rs_object s) \<and> \<not> args_exists (args (rs_info s)) ''uploadId'' \<and>
     rs_length s = Some (dec (length body)) \<and> put_size_ok (rw_globals w) (length body) \<and> chunk_ok (rw_globals w)"

definition no_quota :: "put_obj \<Rightarrow> quota_handler \<Rightarrow> bool" where
  "no_quota op h \<longleftrightarrow> \<not> quota_enabled (po_bucket_quota op) \<and> \<not> quota_enabled (po_user_quota op) \<and>
     \<not> quota_enabled (qh_def_bucket_quota h) \<and> \<not> quota_enabled (qh_def_user_quota h)"

lemma store_check_quota_none: "no_quota op h \<Longrightarrow> store_check_quota qw f owner b (po_user_quota op) (po_bucket_quota op) n h = Some (0, h)"
  by (simp add: store_check_quota_def handler_check_quota_def no_quota_def)

lemma open_and_chmod:
  assumes "may_access os (os_fsuid sys) path" and "\<And>n. os_files sys (os_resolve os path) \<noteq> Some (Directory n)"
  shows "\<exists>sys1. sys_open_write os mode True path sys = Some sys1 \<and>
    sys_chmod os 4095 path sys1 = sys\<lparr>os_files := (os_files sys)(os_resolve os path \<mapsto> Regular 4095 [])\<rparr>"
proof -
  have may: "os_may os (os_fsuid sys) acc (os_resolve os path) files" for acc files using assms(1) by (simp add: may_access_def)
  show ?thesis
  proof (cases "os_files sys (os_resolve os path)")
    case None
    then show ?thesis using may by (simp add: sys_open_write_def sys_chmod_def)
  next
    case (Some n)
    then show ?thesis using may assms(2) by (cases n) (simp_all add: sys_open_write_def sys_chmod_def)
  qed
qed

lemma put_store_file:
  assumes "fcgx_reads (rw_lib w)" and "os_writes os" and "plain_put w s body" and "cio_in io = body @ rest" and "no_quota op h"
    and "may_access os (os_fsuid sys) (request_path (rw_globals w) s)"
    and "\<And>n. os_files sys (os_resolve os (request_path (rw_globals w) s)) \<noteq> Some (Directory n)"
    and "po_ofs op = 0"
  shows "\<exists>op' io'. put_store os md5 qw w True op (s, io) h sys =
      Some (op', (s\<lparr>rs_obj_size := word_of_nat (length body)\<rparr>, io'), h,
        sys\<lparr>os_files := (os_files sys)(os_resolve os (request_path (rw_globals w) s) \<mapsto> Regular 4095 body)\<rparr>) \<and>
    po_ret op' = 0 \<and> po_etag op' = buf_to_hex (md5 body) \<and> po_cors_exist op' = po_cors_exist op \<and> po_mtime op' = po_mtime op \<and>
    cio_in io' = rest \<and> cio_out io' = cio_out io"
proof -
  let ?path = "request_path (rw_globals w) s"
  note put = assms(3) [unfolded plain_put_def]
  obtain sys1 where opened: "sys_open_write os (os_junk_mode os) True ?path sys = Some sys1"
    and chmod: "sys_chmod os 4095 ?path sys1 = sys\<lparr>os_files := (os_files sys)(os_resolve os ?path \<mapsto> Regular 4095 [])\<rparr>"
    using open_and_chmod [OF assms(6,7)] by blast
  have len: "atoll (dec (length body)) = int (length body)" using put by (intro atoll_dec) (simp add: put_size_ok_def)
  let ?sys = "sys\<lparr>os_files := (os_files sys)(os_resolve os ?path \<mapsto> Regular 4095 [])\<rparr>"
  have "os_files ?sys (os_resolve os ?path) = Some (Regular 4095 ([] @ take 0 body))" "0 \<le> length body" "po_ofs op = int 0"
    "cio_in io = drop 0 body @ rest" "chunk_ok (rw_globals w)" "put_size_ok (rw_globals w) (length body)" "rs_length s = Some (dec (length body))"
    using put assms(4,8) by simp_all
  note start = this
  obtain md io' where loop: "put_loop os w ?path [] op (s, io) (sys\<lparr>os_files := (os_files sys)(os_resolve os ?path \<mapsto> Regular 4095 [])\<rparr>) =
      Some (True, body, op\<lparr>po_ofs := int (length body), po_supplied_md5_b64 := md\<rparr>, (s, io'),
        sys\<lparr>os_files := (os_files sys)(os_resolve os ?path \<mapsto> Regular 4095 body)\<rparr>)"
    and io': "cio_in io' = rest" "cio_out io' = cio_out io"
    using put_loop_stores [OF assms(1) start(5,6) assms(2) start(7) len start(2,3,4,1), of "[]"] by auto
  let ?op = "op\<lparr>po_ofs := int (length body), po_supplied_md5_b64 := md\<rparr>"
  have quota: "store_check_quota qw f owner b (po_user_quota op) (po_bucket_quota op) n h = Some (0, h)" for f owner b n
    using assms(5) by (rule store_check_quota_none)
  have "put_store os md5 qw w True op (s, io) h sys =
      Some (?op\<lparr>po_ret := 0, po_etag := buf_to_hex (md5 body)\<rparr>, (s\<lparr>rs_obj_size := word_of_nat (length body)\<rparr>, io'), h,
        sys\<lparr>os_files := (os_files sys)(os_resolve os ?path \<mapsto> Regular 4095 body)\<rparr>)"
    using put by (simp add: put_store_def opened chmod loop quota)
  then show ?thesis using io' by auto
qed

text \<open>What storing an object does to the files: the object has the body, and the statistics count it.\<close>

definition stored_files :: "string \<Rightarrow> string \<Rightarrow> string \<Rightarrow> nat \<Rightarrow> sys_info \<Rightarrow> filesys \<Rightarrow> filesys" where
  "stored_files p body q m i files =
     files(p \<mapsto> Regular 4095 body, q \<mapsto> Regular m (sync_stat (count_object 1 (word_of_nat (length body)) i)))"

lemma drop_privs_privileged:
  "os_privileged os \<Longrightarrow> drop_privs os u sys = (os_fsuid sys, sys\<lparr>os_fsuid := ucast u\<rparr>)"
  "os_privileged os \<Longrightarrow> restore_privs os old sys = sys\<lparr>os_fsuid := old\<rparr>"
  by (simp_all add: drop_privs_def restore_privs_def os_privileged_def)

lemma put_execute_stores:
  fixes w s os
  defines "p \<equiv> request_path (rw_globals w) s" and "q \<equiv> bucket_stat_path (rw_globals w) s"
  assumes "fcgx_reads (rw_lib w)" and "os_writes os" and "os_privileged os" and "0 \<le> params_ret"
    and "plain_put w s body" and "cio_in io = body @ rest" and "no_quota new_put_obj h"
    and "may_access os (ucast (auid (rs_user s))) p" and "may_access os (ucast (auid (rs_user s))) q"
    and "os_resolve os p \<noteq> os_resolve os q" and "no_nul q"
    and "\<And>n. os_files sys (os_resolve os p) \<noteq> Some (Directory n)"
    and "os_files sys (os_resolve os q) = Some (Regular m (sync_stat i))"
  shows "\<exists>op' s' io'. put_execute os md5 qw params_ret w new_put_obj (s, io) h sys =
      Some (op', (s', io'), h, sys\<lparr>os_files := stored_files (os_resolve os p) body (os_resolve os q) m i (os_files sys)\<rparr>) \<and>
    po_ret op' = 0 \<and> po_etag op' = buf_to_hex (md5 body) \<and> po_cors_exist op' = False \<and> po_mtime op' = 0 \<and>
    s' = s\<lparr>rs_obj_size := word_of_nat (length body)\<rparr> \<and> cio_in io' = rest \<and> cio_out io' = cio_out io"
proof -
  let ?sys = "sys\<lparr>os_fsuid := ucast (auid (rs_user s))\<rparr>"
  let ?s = "s\<lparr>rs_obj_size := word_of_nat (length body)\<rparr>"
  have op: "(new_put_obj\<lparr>po_ret := 0\<rparr>) = new_put_obj" "po_ofs new_put_obj = 0" "po_cors_exist new_put_obj = False" "po_mtime new_put_obj = 0"
    by (simp_all add: new_put_obj_def)
  obtain op' io' where store: "put_store os md5 qw w True new_put_obj (s, io) h ?sys =
      Some (op', (?s, io'), h, ?sys\<lparr>os_files := (os_files sys)(os_resolve os p \<mapsto> Regular 4095 body)\<rparr>)"
    and op': "po_ret op' = 0" "po_etag op' = buf_to_hex (md5 body)" "po_cors_exist op' = False" "po_mtime op' = 0" "cio_in io' = rest" "cio_out io' = cio_out io"
    using put_store_file [OF assms(3,4,7,8,9), of ?sys md5 qw] assms(10,14) op unfolding p_def by auto
  let ?sys1 = "?sys\<lparr>os_files := (os_files sys)(os_resolve os p \<mapsto> Regular 4095 body)\<rparr>"
  have q: "bucket_stat_path (rw_globals w) ?s = q" by (simp add: q_def bucket_stat_path_def)
  have "os_files ?sys1 (os_resolve os q) = Some (Regular m (sync_stat i))" using assms(12,15) by simp
  then have "update_stat os q 1 (word_of_nat (length body)) ?sys1 =
      Some (?sys1\<lparr>os_files := stored_files (os_resolve os p) body (os_resolve os q) m i (os_files sys)\<rparr>)"
    using update_stat_counts [OF assms(4) _ assms(13), of ?sys1 m i] assms(11) by (simp add: stored_files_def)
  then have don: "put_done os (rw_globals w) (os_fsuid sys) ?s ?sys1 = Some (sys\<lparr>os_files := stored_files (os_resolve os p) body (os_resolve os q) m i (os_files sys)\<rparr>)"
    using assms(5) by (simp add: put_done_def q drop_privs_privileged)
  have "put_checks params_ret new_put_obj s = 0" using assms(6,7) by (simp add: put_checks_def plain_put_def new_put_obj_def)
  moreover have "po_obj_manifest new_put_obj = None" by (simp add: new_put_obj_def)
  ultimately have "put_execute os md5 qw params_ret w new_put_obj (s, io) h sys = Some (op', (?s, io'), h,
      sys\<lparr>os_files := stored_files (os_resolve os p) body (os_resolve os q) m i (os_files sys)\<rparr>)"
    using store don by (simp add: put_execute_def drop_privs_privileged [OF assms(5)] op(1))
  then show ?thesis using op' by blast
qed

text \<open>The operating system and the digest behave as documented.\<close>

definition os_ok :: "os \<Rightarrow> (string \<Rightarrow> string) \<Rightarrow> bool" where
  "os_ok os md5 \<longleftrightarrow> os_reads os \<and> os_writes os \<and> os_privileged os \<and> md5sum_prints os md5 \<and> md5_digest md5"

text \<open>A request that may store and read the file of an object: the paths are plain, apart from each other and accessible, and
  the bucket has a statistics file.\<close>

definition object_place :: "os \<Rightarrow> globals \<Rightarrow> req_state \<Rightarrow> os_state \<Rightarrow> nat \<Rightarrow> sys_info \<Rightarrow> bool" where
  "object_place os g s sys m i \<longleftrightarrow>
     (let p = request_path g s; q = bucket_stat_path g s; uid = ucast (auid (rs_user s)) in
      may_access os uid p \<and> may_access os uid q \<and> may_access os (os_fsuid sys) p \<and> os_resolve os p \<noteq> os_resolve os q \<and>
      no_nul q \<and> plain_path p \<and> length p < 470 \<and> (\<forall>n. os_files sys (os_resolve os p) \<noteq> Some (Directory n)) \<and>
      os_files sys (os_resolve os q) = Some (Regular m (sync_stat i)))"

text \<open>C1: An object that was stored is read back: the bytes of the request that stores it, received in chunks, are
  the file of the object, the statistics count one entry and the size, the user id of the thread is restored, and a
  later request for the object is answered with the length, the digest that the first answer announced, and these bytes.\<close>

theorem put_get_roundtrip:
  assumes "fcgx_reads (rw_lib w)" and "fcgx_writes (rw_lib w)" and "os_ok os md5" and "0 \<le> params_ret"
    and "plain_put w s body" and "cio_in io = body @ rest" and "no_quota new_put_obj h" and "object_place os (rw_globals w) s sys m i"
    and "plain_get w s2" and "unconditional s2" and "env_get (rs_env s2) ''HTTP_RANGE'' None = None"
    and "request_path (rw_globals w) s2 = request_path (rw_globals w) s"
  shows "\<exists>op st sys'. put_execute os md5 qw params_ret w new_put_obj (s, io) h sys = Some (op, st, h, sys') \<and>
    po_ret op = 0 \<and> po_etag op = buf_to_hex (md5 body) \<and> os_fsuid sys' = os_fsuid sys \<and>
    os_files sys' (os_resolve os (bucket_stat_path (rw_globals w) s)) = Some (Regular m (sync_stat (count_object 1 (word_of_nat (length body)) i))) \<and>
    (\<exists>op2 s2' io2'. get_execute os md5 junk w (snd (get_prefetch_data s2 (new_get_obj True))) (s2, io2) sys' = Some (op2, (s2', io2'), sys') \<and>
       cio_out io2' = cio_out io2 @ object_lines (length body) (po_etag op) @ status_line w 200 @ end_lines s2 (Some ''binary/octet-stream'') @ body)"
proof -
  let ?p = "request_path (rw_globals w) s" and ?q = "bucket_stat_path (rw_globals w) s"
  note os = assms(3) [unfolded os_ok_def] and place = assms(8) [unfolded object_place_def Let_def]
  define sys' where "sys' = sys\<lparr>os_files := stored_files (os_resolve os ?p) body (os_resolve os ?q) m i (os_files sys)\<rparr>"
  obtain op s' io' where put: "put_execute os md5 qw params_ret w new_put_obj (s, io) h sys = Some (op, (s', io'), h, sys')"
    "po_ret op = 0" "po_etag op = buf_to_hex (md5 body)"
    using put_execute_stores [OF assms(1) _ _ assms(4,5,6,7), of os sys m i md5 qw] os place unfolding sys'_def by blast
  have files: "os_files sys' (os_resolve os ?p) = Some (Regular 4095 body)"
    "os_files sys' (os_resolve os ?q) = Some (Regular m (sync_stat (count_object 1 (word_of_nat (length body)) i)))"
    using place by (simp_all add: sys'_def stored_files_def)
  have "readable_file os ?p sys' 4095 body" using files(1) place by (simp add: readable_file_def sys'_def may_access_def)
  moreover have "length body < 2 ^ 63" "chunk_ok (rw_globals w)" using assms(5) by (simp_all add: plain_put_def put_size_ok_def)
  ultimately have "\<exists>op2 s2' io2'. get_execute os md5 junk w (snd (get_prefetch_data s2 (new_get_obj True))) (s2, io2) sys' = Some (op2, (s2', io2'), sys') \<and>
      cio_out io2' = cio_out io2 @ object_lines (length body) (buf_to_hex (md5 body)) @ status_line w 200 @ end_lines s2 (Some ''binary/octet-stream'') @ body"
    using get_object_complete [OF assms(2) _ _ _ _ assms(9-11), where sys = sys' and m = 4095 and d = body and os = os and ?md5.0 = md5 and get_data = True] os place assms(12)
    by simp
  moreover have "os_fsuid sys' = os_fsuid sys" by (simp add: sys'_def)
  ultimately show ?thesis using put files(2) by (intro exI [of _ op] exI [of _ "(s', io')"] exI [of _ sys']) simp
qed

definition sample_os :: os where
  "sample_os =
     \<lparr>os_resolve = id, os_may = (\<lambda>uid acc path files. True), os_read = (\<lambda>n rest. n), os_write = (\<lambda>data d. int (length data)),
      os_setfsuid = (\<lambda>old new. new),
      os_popen = (\<lambda>cmd files.
        if starts_with cmd ''md5sum '' then
          case files (drop 7 cmd) of
            Some (Regular m d) \<Rightarrow> Some (buf_to_hex (replicate 16 CR) @ ''  '' @ drop 7 cmd @ [LF], 0, files)
          | _ \<Rightarrow> Some ([], 1, files)
        else Some ([], 0, files)),
      os_rename = (\<lambda>uid src dst files. Inr (files(dst := files src, src := None))), os_new_mode = 420, os_junk_mode = 0\<rparr>"

definition sample_md5 :: "string \<Rightarrow> string" where
  "sample_md5 d = replicate 16 CR"

lemma sample_os_ok: "os_ok sample_os sample_md5"
  by (simp add: os_ok_def os_reads_def os_writes_def os_privileged_def md5sum_prints_def md5_digest_def sample_os_def sample_md5_def starts_with_def)

definition sample_obj_world :: resp_world where
  "sample_obj_world = sample_world_resp\<lparr>rw_globals := main_defaults [] globals_init\<rparr>"

definition sample_obj_req :: req_state where
  "sample_obj_req = (new_req_state new_env)\<lparr>rs_formatter := Some (FXml (new_xml_formatter False)), rs_bucket := new_bucket\<lparr>bkt_name := ''docs''\<rparr>,
     rs_object := new_obj_key\<lparr>okey_name := ''readme''\<rparr>, rs_length := Some ''5'', rs_trans_id := ''tx1''\<rparr>"

definition sample_sys :: os_state where
  "sample_sys = \<lparr>os_files = [''/fisamba/docs/.bucket/stat'' \<mapsto> Regular 420 (sync_stat new_sys_info)], os_fsuid = 0\<rparr>"

lemma sample_obj_paths:
  "request_path (rw_globals sample_obj_world) sample_obj_req = ''/fisamba/docs/readme''"
  "bucket_stat_path (rw_globals sample_obj_world) sample_obj_req = ''/fisamba/docs/.bucket/stat''"
  by code_simp+

lemma sample_obj_world_io: "fcgx_reads (rw_lib sample_obj_world)" "fcgx_writes (rw_lib sample_obj_world)" "chunk_ok (rw_globals sample_obj_world)"
  using sample_fcgx_ok by (simp_all add: sample_obj_world_def sample_world_resp_def chunk_ok_def main_defaults_def)

lemma sample_obj_place: "object_place sample_os (rw_globals sample_obj_world) sample_obj_req sample_sys 420 new_sys_info"
proof -
  have "plain_path ''/fisamba/docs/readme''" by code_simp
  then show ?thesis by (simp add: object_place_def sample_obj_paths may_access_def sample_os_def sample_sys_def no_nul_def)
qed

lemma sample_plain_get: "plain_get sample_obj_world sample_obj_req"
proof -
  have "http_status_name sample_obj_world 200 = ''OK''" "http_status_name sample_obj_world 206 = ''Partial Content''"
    "response_params (args (rs_info sample_obj_req)) = (None, [])" "smap_get (rt_rgw_to_http_attrs (rw_tables sample_obj_world)) RGW_ATTR_ETAG = None"
    by code_simp+
  then show ?thesis by (simp add: plain_get_def fresh_response_def sample_obj_req_def is_swift_def new_req_state_def)
qed

definition sample_range_req :: req_state where
  "sample_range_req = sample_obj_req\<lparr>rs_env := env_init [''HTTP_RANGE=bytes=1-3''] new_env\<rparr>"

definition sample_range_sys :: os_state where
  "sample_range_sys = \<lparr>os_files = [''/fisamba/docs/readme'' \<mapsto> Regular 420 ''hello''], os_fsuid = 0\<rparr>"

lemma sample_plain_put: "plain_put sample_obj_world sample_obj_req ''hello''"
proof -
  have "rs_length sample_obj_req = Some (dec (length ''hello''))" "\<not> args_exists (args (rs_info sample_obj_req)) ''uploadId''"
    "\<not> obj_key_empty (rs_object sample_obj_req)" "put_size_ok (rw_globals sample_obj_world) (length ''hello'')" by code_simp+
  then show ?thesis using sample_obj_world_io(3) by (simp only: plain_put_def simp_thms)
qed

definition sample_quota_world :: "nat quota_world" where
  "sample_quota_world = \<lparr>qw_clock = (\<lambda>n. (0, 0)), qw_opened = (0, []), qw_enc = (\<lambda>n. []), qw_dec = (\<lambda>e s. None), qw_new = 0, qw_overrun = new_sys_info\<rparr>"

lemma sample_no_quota: "no_quota new_put_obj (generate_handler (rw_globals sample_obj_world))"
  by (simp add: no_quota_def new_put_obj_def new_quota_def generate_handler_def default_quota_def sample_obj_world_def main_defaults_def globals_init_def)

lemma sample_unconditional: "unconditional sample_obj_req" "env_get (rs_env sample_obj_req) ''HTTP_RANGE'' None = None"
  by code_simp+

theorem range_request_response_witness:
  "\<exists>op' s' io'. get_execute sample_os sample_md5 0 sample_obj_world (snd (get_prefetch_data sample_range_req (new_get_obj True)))
      (sample_range_req, new_client_io []) sample_range_sys = Some (op', (s', io'), sample_range_sys) \<and>
    cio_out io' = ''Content-Range: bytes 0-3/5'' @ [CR, LF] @ object_lines 5 (buf_to_hex (replicate 16 CR)) @ status_line sample_obj_world 206 @
      end_lines sample_range_req (Some ''binary/octet-stream'') @ ''el''"
proof -
  have range: "env_get (rs_env sample_range_req) ''HTTP_RANGE'' None = Some (''bytes='' @ dec 1 @ ''-'' @ dec 3)" "unconditional sample_range_req"
    "request_path (rw_globals sample_obj_world) sample_range_req = ''/fisamba/docs/readme''" by code_simp+
  have "readable_file sample_os ''/fisamba/docs/readme'' sample_range_sys 420 ''hello''"
    by (simp add: readable_file_def sample_os_def sample_range_sys_def)
  then have readable: "readable_file sample_os (request_path (rw_globals sample_obj_world) sample_range_req) sample_range_sys 420 ''hello''"
    unfolding range(3) .
  have get: "plain_get sample_obj_world sample_range_req" using sample_plain_get by (simp add: plain_get_def fresh_response_def is_swift_def sample_range_req_def)
  have digits: "dec 3 = ''3''" "dec 5 = ''5''" by code_simp+
  have os: "os_reads sample_os" "md5_digest sample_md5" using sample_os_ok by (simp_all add: os_ok_def)
  have len: "length ''hello'' = 5" "take (3 - 1) (drop 1 ''hello'') = ''el''" by simp_all
  show ?thesis
    using range_request_response [OF sample_obj_world_io(2) os sample_obj_world_io(3) get range(2,1) readable, where junk = 0 and io = "new_client_io []"]
    unfolding len sample_md5_def digits by (simp add: new_client_io_def)
qed

theorem put_get_roundtrip_witness:
  "\<exists>op st sys'. put_execute sample_os sample_md5 sample_quota_world 0 sample_obj_world new_put_obj
      (sample_obj_req, new_client_io ''hello'') (generate_handler (rw_globals sample_obj_world)) sample_sys =
      Some (op, st, generate_handler (rw_globals sample_obj_world), sys') \<and>
    (\<exists>op2 s2 io2. get_execute sample_os sample_md5 0 sample_obj_world (snd (get_prefetch_data sample_obj_req (new_get_obj True)))
      (sample_obj_req, new_client_io []) sys' = Some (op2, (s2, io2), sys') \<and>
      cio_out io2 = object_lines 5 (buf_to_hex (replicate 16 CR)) @ status_line sample_obj_world 200 @
        end_lines sample_obj_req (Some ''binary/octet-stream'') @ ''hello'')"
proof -
  have "cio_in (new_client_io ''hello'') = ''hello'' @ []" by (simp add: new_client_io_def)
  from put_get_roundtrip [OF sample_obj_world_io(1,2) sample_os_ok _ sample_plain_put this sample_no_quota sample_obj_place
      sample_plain_get sample_unconditional refl, where params_ret = 0 and qw = sample_quota_world and junk = 0 and ?io2.0 = "new_client_io []"]
  obtain op st sys' op2 s2 io2 where "put_execute sample_os sample_md5 sample_quota_world 0 sample_obj_world new_put_obj
      (sample_obj_req, new_client_io ''hello'') (generate_handler (rw_globals sample_obj_world)) sample_sys =
      Some (op, st, generate_handler (rw_globals sample_obj_world), sys')" and etag: "po_etag op = buf_to_hex (sample_md5 ''hello'')"
    and "get_execute sample_os sample_md5 0 sample_obj_world (snd (get_prefetch_data sample_obj_req (new_get_obj True)))
      (sample_obj_req, new_client_io []) sys' = Some (op2, (s2, io2), sys')"
    and out: "cio_out io2 = cio_out (new_client_io []) @ object_lines (length ''hello'') (po_etag op) @ status_line sample_obj_world 200 @
      end_lines sample_obj_req (Some ''binary/octet-stream'') @ ''hello''"
    by blast
  moreover from out have "cio_out io2 = object_lines 5 (buf_to_hex (replicate 16 CR)) @ status_line sample_obj_world 200 @
      end_lines sample_obj_req (Some ''binary/octet-stream'') @ ''hello''"
    unfolding etag by (simp add: new_client_io_def sample_md5_def numeral_eq_Suc)
  ultimately show ?thesis by blast
qed

end
