(* ===== verification/Request_Queue.thy ===== *)
theory Request_Queue
  imports Rgw_Prelude "HOL-Library.Multiset"
begin

text \<open>
  The threads of the gateway: \<^verbatim>\<open>RGWFCGXProcess\<close> (\<^verbatim>\<open>src/rgw/rgw_main.cc\<close>) with the ring of free connections
  (\<^verbatim>\<open>src/common/QueueRing.h\<close>), the queue of accepted requests and the workers of the thread pool
  (\<^verbatim>\<open>src/common/WorkQueue.cc\<close>).  Each access to an atomic counter and each section under a lock is a step of a relation,
  so that giving a connection back takes two steps, between which other threads run; the counters of the ring, 64-bit
  numbers in the source, are unbounded.  A waiting thread wakes only when its bucket has an entry.
  The theorems show that the ring is a queue, that a connection never serves two requests, that the accepting thread is
  never left waiting without a request at work, and that under a fair schedule every accepted request is served and ends.
\<close>

section \<open>Queues\<close>

locale fifo =
  fixes rep :: "'q \<Rightarrow> 'a list \<Rightarrow> bool" and enq :: "'a \<Rightarrow> 'q \<Rightarrow> 'q" and deq :: "'q \<Rightarrow> ('a \<times> 'q) option"
  assumes enq_rep: "rep q xs \<Longrightarrow> rep (enq x q) (xs @ [x])"
    and deq_empty: "rep q [] \<Longrightarrow> deq q = None"
    and deq_first: "rep q (x # xs) \<Longrightarrow> \<exists>q'. deq q = Some (x, q') \<and> rep q' xs"
begin

lemma enq_all: "rep q xs \<Longrightarrow> rep (fold enq ys q) (xs @ ys)"
proof (induction ys arbitrary: q xs)
  case (Cons y ys)
  from Cons.IH [OF enq_rep [OF Cons.prems]] show ?case by simp
qed simp

lemma deq_Some: "rep q xs \<Longrightarrow> deq q = Some (x, q') \<Longrightarrow> \<exists>ys. xs = x # ys \<and> rep q' ys"
  using deq_empty deq_first by (cases xs) (fastforce+)

end

section \<open>QueueRing\<close>

record 'a queue_ring =
  qr_buckets :: "'a list list"
  qr_read :: nat
  qr_write :: nat

definition new_queue_ring :: "nat \<Rightarrow> 'a queue_ring" where
  "new_queue_ring n = \<lparr>qr_buckets = replicate n [], qr_read = 0, qr_write = 0\<rparr>"

text \<open>A writer takes the number of its bucket and then appends to it.\<close>

definition qr_write_ticket :: "'a queue_ring \<Rightarrow> nat \<times> 'a queue_ring" where
  "qr_write_ticket q = (let w = qr_write q + 1 in (w mod length (qr_buckets q), q\<lparr>qr_write := w\<rparr>))"

definition bucket_enqueue :: "nat \<Rightarrow> 'a \<Rightarrow> 'a queue_ring \<Rightarrow> 'a queue_ring" where
  "bucket_enqueue b e q = q\<lparr>qr_buckets := (qr_buckets q)[b := qr_buckets q ! b @ [e]]\<rparr>"

definition qr_enqueue :: "'a \<Rightarrow> 'a queue_ring \<Rightarrow> 'a queue_ring" where
  "qr_enqueue e q = (let (b, q) = qr_write_ticket q in bucket_enqueue b e q)"

text \<open>A reader takes the number of its bucket, and then an entry of it or has to wait.\<close>

definition qr_ticket :: "'a queue_ring \<Rightarrow> nat \<times> 'a queue_ring" where
  "qr_ticket q = (let r = qr_read q + 1 in (r mod length (qr_buckets q), q\<lparr>qr_read := r\<rparr>))"

definition bucket_dequeue :: "nat \<Rightarrow> 'a queue_ring \<Rightarrow> ('a \<times> 'a queue_ring) option" where
  "bucket_dequeue b q =
     (case qr_buckets q ! b of [] \<Rightarrow> None | e # es \<Rightarrow> Some (e, q\<lparr>qr_buckets := (qr_buckets q)[b := es]\<rparr>))"

definition qr_dequeue :: "'a queue_ring \<Rightarrow> ('a \<times> 'a queue_ring) option" where
  "qr_dequeue q = (let (b, q) = qr_ticket q in bucket_dequeue b q)"

text \<open>The ring holds the entries \<open>xs\<close>, which were written with the numbers after \<open>base\<close>.\<close>

definition ring_rep :: "nat \<Rightarrow> 'a queue_ring \<Rightarrow> 'a list \<Rightarrow> bool" where
  "ring_rep base q xs \<longleftrightarrow> qr_buckets q \<noteq> [] \<and> qr_write q = base + length xs \<and>
     (\<forall>b < length (qr_buckets q). qr_buckets q ! b =
        map ((!) xs) (filter (\<lambda>i. (base + 1 + i) mod length (qr_buckets q) = b) [0..<length xs]))"

lemma ring_rep_new: "0 < n \<Longrightarrow> ring_rep 0 (new_queue_ring n) []"
  by (auto simp: ring_rep_def new_queue_ring_def)

lemma ring_rep_read: "ring_rep base (q\<lparr>qr_read := r\<rparr>) xs = ring_rep base q xs"
  by (simp add: ring_rep_def)

lemma ring_rep_enqueue:
  assumes "ring_rep base q xs"
  shows "ring_rep base (qr_enqueue e q) (xs @ [e])"
proof -
  let ?n = "length (qr_buckets q)"
  have nth: "map ((!) (xs @ [e])) (filter P [0..<length xs]) = map ((!) xs) (filter P [0..<length xs])" for P
    by (auto simp: nth_append)
  show ?thesis
    using assms unfolding ring_rep_def qr_enqueue_def qr_write_ticket_def bucket_enqueue_def
    by (auto simp: Let_def nth_list_update nth nth_append)
qed

lemma ring_rep_dequeue:
  assumes "ring_rep base q (x # xs)"
  shows "\<exists>q'. bucket_dequeue ((base + 1) mod length (qr_buckets q)) q = Some (x, q') \<and> ring_rep (base + 1) q' xs \<and>
    qr_read q' = qr_read q \<and> length (qr_buckets q') = length (qr_buckets q)"
proof -
  let ?n = "length (qr_buckets q)" and ?b = "(base + 1) mod length (qr_buckets q)"
  have n: "0 < ?n" and w: "qr_write q = base + Suc (length xs)" using assms by (auto simp: ring_rep_def)
  have bucket: "qr_buckets q ! b = (if ?b = b then [x] else []) @
      map ((!) xs) (filter (\<lambda>i. (base + 1 + 1 + i) mod ?n = b) [0..<length xs])" if "b < ?n" for b
  proof -
    have "qr_buckets q ! b = map ((!) (x # xs)) (filter (\<lambda>i. (base + 1 + i) mod ?n = b) [0..<length (x # xs)])"
      using assms that unfolding ring_rep_def by blast
    also have "filter (\<lambda>i. (base + 1 + i) mod ?n = b) [0..<length (x # xs)] =
        (if ?b = b then [0] else []) @ map Suc (filter (\<lambda>i. (base + 1 + 1 + i) mod ?n = b) [0..<length xs])"
      by (simp add: upt_conv_Cons filter_map o_def del: upt_Suc flip: map_Suc_upt)
    finally show ?thesis by (simp add: o_def)
  qed
  have b: "?b < ?n" using n by simp
  let ?q' = "q\<lparr>qr_buckets := (qr_buckets q)[?b := map ((!) xs) (filter (\<lambda>i. (base + 1 + 1 + i) mod ?n = ?b) [0..<length xs])]\<rparr>"
  have "bucket_dequeue ?b q = Some (x, ?q')" using bucket [OF b] by (simp add: bucket_dequeue_def)
  moreover have "ring_rep (base + 1) ?q' xs"
    using n w bucket by (auto simp: ring_rep_def nth_list_update)
  ultimately show ?thesis by (intro exI [of _ ?q']) simp
qed

lemma ring_rep_wait: "ring_rep base q [] \<Longrightarrow> bucket_dequeue ((base + 1) mod length (qr_buckets q)) q = None"
  by (auto simp: ring_rep_def bucket_dequeue_def)

interpretation ring: fifo "\<lambda>q. ring_rep (qr_read q) q" qr_enqueue qr_dequeue
proof
  fix q xs and x :: 'a
  show "ring_rep (qr_read q) q xs \<Longrightarrow> ring_rep (qr_read (qr_enqueue x q)) (qr_enqueue x q) (xs @ [x])"
    using ring_rep_enqueue [of "qr_read q" q xs x] by (simp add: qr_enqueue_def qr_write_ticket_def bucket_enqueue_def Let_def)
  show "ring_rep (qr_read q) q [] \<Longrightarrow> qr_dequeue q = None"
    using ring_rep_wait [of "qr_read q" "q\<lparr>qr_read := qr_read q + 1\<rparr>"] by (simp add: qr_dequeue_def qr_ticket_def ring_rep_read Let_def)
  show "ring_rep (qr_read q) q (x # xs) \<Longrightarrow> \<exists>q'. qr_dequeue q = Some (x, q') \<and> ring_rep (qr_read q') q' xs"
    using ring_rep_dequeue [of "qr_read q" "q\<lparr>qr_read := qr_read q + 1\<rparr>" x xs]
    by (auto simp: qr_dequeue_def qr_ticket_def ring_rep_read Let_def)
qed

section \<open>The threads\<close>

text \<open>What the accepting thread does: it is about to allocate a request, waits for a bucket of the ring, waits for a
  client on a connection, gives the connection back after a failure, or has left its loop.  A worker waits for a request,
  handles one, or gives the connection of the request back.\<close>

datatype 'c acceptor = AIdle | AWaiting nat | AHolding 'c | AReleasing 'c nat | AStopped

datatype ('c, 'r) worker = WIdle | WBusy 'c 'r | WReleasing 'c nat

record ('c, 'r) process_state =
  ps_ring :: "'c queue_ring"
  ps_acceptor :: "'c acceptor"
  ps_queue :: "('c \<times> 'r) list"
  ps_workers :: "('c, 'r) worker list"

definition wq_enqueue :: "'a \<Rightarrow> 'a list \<Rightarrow> 'a list" where
  "wq_enqueue req q = q @ [req]"

definition wq_dequeue :: "'a list \<Rightarrow> ('a \<times> 'a list) option" where
  "wq_dequeue q = (case q of [] \<Rightarrow> None | req # q \<Rightarrow> Some (req, q))"

interpretation wq: fifo "(=)" wq_enqueue wq_dequeue
  by unfold_locales (auto simp: wq_enqueue_def wq_dequeue_def)

text \<open>A few more connections than threads, and the state when the threads have started.\<close>

definition max_connections :: "nat \<Rightarrow> nat" where
  "max_connections num_threads = num_threads + num_threads div 8"

definition start_process :: "'c list \<Rightarrow> nat \<Rightarrow> ('c, 'r) process_state" where
  "start_process conns num_threads =
     \<lparr>ps_ring = fold qr_enqueue conns (new_queue_ring (length conns)), ps_acceptor = AIdle, ps_queue = [],
      ps_workers = replicate num_threads WIdle\<rparr>"

datatype 'r event = Alloc | Wake | Accept 'r | Reject | Leave | Start nat | Finish nat | Release nat

text \<open>The steps: allocating a request takes a connection from the ring or waits for one; an accepted request is queued; a failing
  accept ends the loop; a worker takes the first request and, when it is done, gives the connection back.\<close>

inductive pstep :: "'r event \<Rightarrow> ('c, 'r) process_state \<Rightarrow> ('c, 'r) process_state \<Rightarrow> bool" where
  alloc: "ps_acceptor s = AIdle \<Longrightarrow> qr_ticket (ps_ring s) = (b, q) \<Longrightarrow> bucket_dequeue b q = Some (c, q') \<Longrightarrow>
    pstep Alloc s (s\<lparr>ps_ring := q', ps_acceptor := AHolding c\<rparr>)"
| alloc_wait: "ps_acceptor s = AIdle \<Longrightarrow> qr_ticket (ps_ring s) = (b, q) \<Longrightarrow> bucket_dequeue b q = None \<Longrightarrow>
    pstep Alloc s (s\<lparr>ps_ring := q, ps_acceptor := AWaiting b\<rparr>)"
| wake: "ps_acceptor s = AWaiting b \<Longrightarrow> bucket_dequeue b (ps_ring s) = Some (c, q') \<Longrightarrow>
    pstep Wake s (s\<lparr>ps_ring := q', ps_acceptor := AHolding c\<rparr>)"
| accept: "ps_acceptor s = AHolding c \<Longrightarrow>
    pstep (Accept r) s (s\<lparr>ps_acceptor := AIdle, ps_queue := wq_enqueue (c, r) (ps_queue s)\<rparr>)"
| reject: "ps_acceptor s = AHolding c \<Longrightarrow> qr_write_ticket (ps_ring s) = (b, q) \<Longrightarrow>
    pstep Reject s (s\<lparr>ps_acceptor := AReleasing c b, ps_ring := q\<rparr>)"
| leave: "ps_acceptor s = AReleasing c b \<Longrightarrow>
    pstep Leave s (s\<lparr>ps_acceptor := AStopped, ps_ring := bucket_enqueue b c (ps_ring s)\<rparr>)"
| start: "w < length (ps_workers s) \<Longrightarrow> ps_workers s ! w = WIdle \<Longrightarrow> wq_dequeue (ps_queue s) = Some ((c, r), q) \<Longrightarrow>
    pstep (Start w) s (s\<lparr>ps_queue := q, ps_workers := (ps_workers s)[w := WBusy c r]\<rparr>)"
| finish: "w < length (ps_workers s) \<Longrightarrow> ps_workers s ! w = WBusy c r \<Longrightarrow> qr_write_ticket (ps_ring s) = (b, q) \<Longrightarrow>
    pstep (Finish w) s (s\<lparr>ps_workers := (ps_workers s)[w := WReleasing c b], ps_ring := q\<rparr>)"
| release: "w < length (ps_workers s) \<Longrightarrow> ps_workers s ! w = WReleasing c b \<Longrightarrow>
    pstep (Release w) s (s\<lparr>ps_workers := (ps_workers s)[w := WIdle], ps_ring := bucket_enqueue b c (ps_ring s)\<rparr>)"

inductive reachable :: "'c list \<Rightarrow> nat \<Rightarrow> ('c, 'r) process_state \<Rightarrow> bool" for conns num_threads where
  init: "reachable conns num_threads (start_process conns num_threads)"
| step: "reachable conns num_threads s \<Longrightarrow> pstep e s s' \<Longrightarrow> reachable conns num_threads s'"

section \<open>Connections are conserved\<close>

definition acceptor_held :: "'c acceptor \<Rightarrow> 'c list" where
  "acceptor_held a = (case a of AHolding c \<Rightarrow> [c] | _ \<Rightarrow> [])"

definition worker_held :: "('c, 'r) worker \<Rightarrow> 'c list" where
  "worker_held w = (case w of WBusy c r \<Rightarrow> [c] | _ \<Rightarrow> [])"

definition acceptor_pending :: "'c acceptor \<Rightarrow> ('c \<times> nat) list" where
  "acceptor_pending a = (case a of AReleasing c b \<Rightarrow> [(c, b)] | _ \<Rightarrow> [])"

definition worker_pending :: "('c, 'r) worker \<Rightarrow> ('c \<times> nat) list" where
  "worker_pending w = (case w of WReleasing c b \<Rightarrow> [(c, b)] | _ \<Rightarrow> [])"

text \<open>The connections that wait for a client or belong to a request, and those on their way back to a bucket.\<close>

definition held_conns :: "('c, 'r) process_state \<Rightarrow> 'c list" where
  "held_conns s = acceptor_held (ps_acceptor s) @ map fst (ps_queue s) @ concat (map worker_held (ps_workers s))"

definition pending_conns :: "('c, 'r) process_state \<Rightarrow> ('c \<times> nat) list" where
  "pending_conns s = acceptor_pending (ps_acceptor s) @ concat (map worker_pending (ps_workers s))"

lemmas place_defs = acceptor_held_def worker_held_def acceptor_pending_def worker_pending_def

lemma mset_concat_map_update:
  "w < length ws \<Longrightarrow> mset (concat (map f (ws[w := y]))) + mset (f (ws ! w)) = mset (concat (map f ws)) + mset (f y)"
proof (induction ws arbitrary: w)
  case (Cons x ws)
  then show ?case by (cases w) (auto simp: ac_simps)
qed simp

lemma mset_concat_update:
  "b < length bs \<Longrightarrow> mset (concat (bs[b := y])) + mset (bs ! b) = mset (concat bs) + mset y"
  using mset_concat_map_update [of b bs id y] by simp

text \<open>The numbers that writers have taken and the reader has not: the list \<open>xs\<close> has their connections, each with whether it
  has reached its bucket.\<close>

definition ticket_bucket :: "nat \<Rightarrow> 'a queue_ring \<Rightarrow> nat \<Rightarrow> nat" where
  "ticket_bucket base q i = (base + 1 + i) mod length (qr_buckets q)"

definition tickets_rep :: "nat \<Rightarrow> 'a queue_ring \<Rightarrow> ('a \<times> nat) multiset \<Rightarrow> ('a \<times> bool) list \<Rightarrow> bool" where
  "tickets_rep base q pend xs \<longleftrightarrow> length xs \<le> length (qr_buckets q) \<and> qr_write q = base + length xs \<and>
     (\<forall>i < length xs. qr_buckets q ! ticket_bucket base q i = (if snd (xs ! i) then [fst (xs ! i)] else [])) \<and>
     (\<forall>b < length (qr_buckets q). b \<notin> ticket_bucket base q ` {..<length xs} \<longrightarrow> qr_buckets q ! b = []) \<and>
     pend = image_mset (\<lambda>i. (fst (xs ! i), ticket_bucket base q i)) (mset_set {i. i < length xs \<and> \<not> snd (xs ! i)})"

lemma ticket_bucket_inj:
  "ticket_bucket base q i = ticket_bucket base q j \<Longrightarrow> i < length (qr_buckets q) \<Longrightarrow> j < length (qr_buckets q) \<Longrightarrow> i = j"
proof (induction i j rule: linorder_wlog)
  case (le i j)
  then have "length (qr_buckets q) dvd (base + 1 + j) - (base + 1 + i)" unfolding ticket_bucket_def by (metis mod_eq_dvd_iff_nat add_le_cancel_left)
  then show ?case using le by (auto dest!: dvd_imp_le)
qed simp

lemma ticket_bucket_less: "qr_buckets q \<noteq> [] \<Longrightarrow> ticket_bucket base q i < length (qr_buckets q)"
  by (simp add: ticket_bucket_def)

lemma tickets_rep_ticket:
  assumes "tickets_rep base q pend xs" and "length xs < length (qr_buckets q)" and "qr_write_ticket q = (b, q')"
  shows "tickets_rep base q' (add_mset (c, b) pend) (xs @ [(c, False)])"
proof -
  have q': "q' = q\<lparr>qr_write := qr_write q + 1\<rparr>" "b = ticket_bucket base q (length xs)"
    using assms(1,3) by (auto simp: qr_write_ticket_def ticket_bucket_def tickets_rep_def Let_def)
  have tb: "ticket_bucket base q' = ticket_bucket base q" by (simp add: fun_eq_iff ticket_bucket_def q'(1))
  have "b < length (qr_buckets q)" using assms(2) q'(2) ticket_bucket_less [of q base "length xs"] by (cases "qr_buckets q") auto
  moreover have "b \<notin> ticket_bucket base q ` {..<length xs}" using ticket_bucket_inj [of base q "length xs"] assms(2) q'(2) by fastforce
  ultimately have empty: "qr_buckets q ! b = []" using assms(1) unfolding tickets_rep_def by blast
  have "{i. i < length (xs @ [(c, False)]) \<and> \<not> snd ((xs @ [(c, False)]) ! i)} = insert (length xs) {i. i < length xs \<and> \<not> snd (xs ! i)}"
    by (auto simp: nth_append)
  then have "image_mset (\<lambda>i. (fst ((xs @ [(c, False)]) ! i), ticket_bucket base q i)) (mset_set {i. i < length (xs @ [(c, False)]) \<and> \<not> snd ((xs @ [(c, False)]) ! i)})
     = add_mset (c, b) pend"
    using assms(1) q'(2) by (auto simp: tickets_rep_def nth_append intro!: image_mset_cong)
  then show ?thesis using assms empty q' unfolding tickets_rep_def tb
    by (auto simp: nth_append less_Suc_eq)
qed

lemma tickets_rep_push:
  assumes "tickets_rep base q (add_mset (c, b) pend) xs"
  shows "\<exists>i < length xs. xs ! i = (c, False) \<and> tickets_rep base (bucket_enqueue b c q) pend (xs[i := (c, True)])"
proof -
  let ?P = "{i. i < length xs \<and> \<not> snd (xs ! i)}" and ?f = "\<lambda>i. (fst (xs ! i), ticket_bucket base q i)"
  have pend: "add_mset (c, b) pend = image_mset ?f (mset_set ?P)" using assms by (simp add: tickets_rep_def)
  then have "(c, b) \<in># image_mset ?f (mset_set ?P)" by (metis union_single_eq_member)
  then obtain i where "i < length xs" "\<not> snd (xs ! i)" "c = fst (xs ! i)" "b = ticket_bucket base q i" by auto
  then have i: "i < length xs" "xs ! i = (c, False)" "b = ticket_bucket base q i" by (auto simp: prod_eq_iff)
  let ?xs = "xs[i := (c, True)]" and ?q = "bucket_enqueue b c q"
  have tb: "ticket_bucket base ?q = ticket_bucket base q" by (simp add: fun_eq_iff ticket_bucket_def bucket_enqueue_def)
  have "mset_set ?P = add_mset i (mset_set (?P - {i}))" using i by (intro mset_set.remove) auto
  then have "pend = image_mset ?f (mset_set (?P - {i}))" using pend i by auto
  also have "?P - {i} = {j. j < length ?xs \<and> \<not> snd (?xs ! j)}" using i(1) by (auto simp: nth_list_update split: if_splits)
  also have "image_mset ?f (mset_set \<dots>) = image_mset (\<lambda>j. (fst (?xs ! j), ticket_bucket base q j)) (mset_set \<dots>)"
    using i by (intro image_mset_cong) (auto simp: nth_list_update)
  finally have pend': "pend = image_mset (\<lambda>j. (fst (?xs ! j), ticket_bucket base q j)) (mset_set {j. j < length ?xs \<and> \<not> snd (?xs ! j)})" .
  have "i < length (qr_buckets q)" using assms i(1) by (simp add: tickets_rep_def)
  then have b: "b < length (qr_buckets q)" using i(3) ticket_bucket_less [of q base i] by (cases "qr_buckets q") auto
  have other: "ticket_bucket base q j \<noteq> b" if "j < length xs" "j \<noteq> i" for j
    using ticket_bucket_inj [of base q j i] that i assms by (auto simp: tickets_rep_def)
  have "qr_buckets q ! b = []" using assms i by (auto simp: tickets_rep_def)
  then have "qr_buckets ?q ! ticket_bucket base q j = (if snd (?xs ! j) then [fst (?xs ! j)] else [])" if "j < length xs" for j
    using assms i b other [OF that] that by (cases "j = i") (auto simp: bucket_enqueue_def tickets_rep_def)
  moreover have "qr_buckets ?q ! k = []" if "k < length (qr_buckets q)" "k \<notin> ticket_bucket base q ` {..<length xs}" for k
  proof -
    have "k \<noteq> b" using that(2) i by auto
    then show ?thesis using assms that by (simp add: bucket_enqueue_def tickets_rep_def)
  qed
  ultimately have "tickets_rep base ?q pend ?xs" using assms pend' unfolding tickets_rep_def tb by (simp add: bucket_enqueue_def)
  then show ?thesis using i by blast
qed

lemma tickets_rep_read:
  "tickets_rep base (q\<lparr>qr_read := r\<rparr>) pend xs = tickets_rep base q pend xs"
  by (simp add: tickets_rep_def ticket_bucket_def)

lemma tickets_rep_take:
  assumes "tickets_rep base q pend xs" and "qr_buckets q \<noteq> []" and "bucket_dequeue ((base + 1) mod length (qr_buckets q)) q = Some (c, q')"
  shows "\<exists>ys. xs = (c, True) # ys \<and> tickets_rep (base + 1) q' pend ys"
proof -
  let ?b = "ticket_bucket base q 0"
  have b: "?b < length (qr_buckets q)" using assms(2) by (rule ticket_bucket_less)
  obtain es where es: "qr_buckets q ! ?b = c # es" "q' = q\<lparr>qr_buckets := (qr_buckets q)[?b := es]\<rparr>"
    using assms(3) by (auto simp: bucket_dequeue_def ticket_bucket_def split: list.splits)
  then have "?b \<in> ticket_bucket base q ` {..<length xs}" using assms(1) b unfolding tickets_rep_def by fastforce
  then obtain j where "j < length xs" "ticket_bucket base q 0 = ticket_bucket base q j" by auto
  then have "0 < length xs" using ticket_bucket_inj [of base q 0 j] assms(1,2) by (auto simp: tickets_rep_def)
  then obtain x ys where xs: "xs = x # ys" by (cases xs) auto
  have "qr_buckets q ! ?b = (if snd x then [fst x] else [])" using assms(1) xs by (auto simp: tickets_rep_def)
  then have x: "x = (c, True)" "es = []" using es(1) by (auto simp: prod_eq_iff split: if_splits)
  have tb: "ticket_bucket (base + 1) q' i = ticket_bucket base q (Suc i)" for i by (simp add: ticket_bucket_def es(2))
  have other: "ticket_bucket base q (Suc i) \<noteq> ?b" if "i < length ys" for i
    using ticket_bucket_inj [of base q "Suc i" 0] that assms(1,2) by (auto simp: tickets_rep_def xs)
  have "{i. i < length xs \<and> \<not> snd (xs ! i)} = Suc ` {i. i < length ys \<and> \<not> snd (ys ! i)}"
    using xs x by (auto simp: image_iff less_Suc_eq_0_disj)
  then have "pend = image_mset (\<lambda>i. (fst (ys ! i), ticket_bucket base q (Suc i))) (mset_set {i. i < length ys \<and> \<not> snd (ys ! i)})"
    using assms(1) xs by (simp add: tickets_rep_def multiset.map_comp o_def flip: image_mset_mset_set)
  moreover have "qr_buckets q' ! k = []" if "k < length (qr_buckets q)" "k \<notin> (\<lambda>i. ticket_bucket base q (Suc i)) ` {..<length ys}" for k
  proof (cases "k = ?b")
    case False
    then have "k \<notin> ticket_bucket base q ` {..<length xs}" using that(2) xs by (auto simp: less_Suc_eq_0_disj)
    then show ?thesis using assms(1) that(1) es(2) False unfolding tickets_rep_def by auto
  qed (use b es x in simp)
  ultimately have "tickets_rep (base + 1) q' pend ys" using assms(1) b other unfolding tickets_rep_def tb
    by (auto simp: es(2) xs x nth_list_update)
  then show ?thesis using xs x by blast
qed

lemma tickets_rep_wait:
  assumes "tickets_rep base q pend xs" and "bucket_dequeue ((base + 1) mod length (qr_buckets q)) q = None"
  shows "xs = [] \<or> pend \<noteq> {#}"
proof (cases xs)
  case (Cons x ys)
  have "qr_buckets q ! ticket_bucket base q 0 = (if snd (xs ! 0) then [fst (xs ! 0)] else [])"
    using assms(1) Cons by (simp add: tickets_rep_def)
  then have "\<not> snd (xs ! 0)" using assms(2) by (auto simp: bucket_dequeue_def ticket_bucket_def split: list.splits if_splits)
  then have "{i. i < length xs \<and> \<not> snd (xs ! i)} \<noteq> {}" using Cons by auto
  then show ?thesis using assms(1) by (auto simp: tickets_rep_def mset_set_empty_iff)
qed simp

text \<open>Where the connections are: in the buckets, on their way back or in use.\<close>

definition conn_inv :: "'c list \<Rightarrow> nat \<Rightarrow> 'c queue_ring \<Rightarrow> ('c \<times> nat) multiset \<Rightarrow> 'c multiset \<Rightarrow> bool" where
  "conn_inv conns base q pend held \<longleftrightarrow> length (qr_buckets q) = length conns \<and>
     mset (concat (qr_buckets q)) + image_mset fst pend + held = mset conns \<and>
     (\<exists>xs. tickets_rep base q pend xs \<and> mset (map fst xs) + held = mset conns)"

lemma ring_fields [simp]:
  "length (qr_buckets (bucket_enqueue b c q)) = length (qr_buckets q)" "qr_read (bucket_enqueue b c q) = qr_read q"
  by (simp_all add: bucket_enqueue_def)

lemma conn_inv_read: "conn_inv conns base (q\<lparr>qr_read := r\<rparr>) pend held = conn_inv conns base q pend held"
  by (simp add: conn_inv_def tickets_rep_read)

lemma conn_inv_ticket:
  assumes "conn_inv conns base q pend (add_mset c held)" and "qr_write_ticket q = (b, q')"
  shows "conn_inv conns base q' (add_mset (c, b) pend) held"
proof -
  obtain xs where xs: "tickets_rep base q pend xs" "mset (map fst xs) + add_mset c held = mset conns"
    using assms(1) by (auto simp: conn_inv_def)
  have "qr_buckets q' = qr_buckets q" using assms(2) by (auto simp: qr_write_ticket_def Let_def)
  moreover have "length xs < length (qr_buckets q)"
    using arg_cong [OF xs(2), of size] assms(1) by (simp add: conn_inv_def)
  from tickets_rep_ticket [OF xs(1) this assms(2)] have "tickets_rep base q' (add_mset (c, b) pend) (xs @ [(c, False)])" .
  moreover have "mset (map fst (xs @ [(c, False)])) + held = mset conns" using xs(2) by simp
  ultimately show ?thesis using assms(1) by (auto simp: conn_inv_def)
qed

lemma conn_inv_push:
  assumes "conn_inv conns base q (add_mset (c, b) pend) held"
  shows "conn_inv conns base (bucket_enqueue b c q) pend held"
proof -
  obtain xs where xs: "tickets_rep base q (add_mset (c, b) pend) xs" "mset (map fst xs) + held = mset conns"
    using assms by (auto simp: conn_inv_def)
  from tickets_rep_push [OF xs(1)] obtain i
    where i: "i < length xs" "xs ! i = (c, False)" "tickets_rep base (bucket_enqueue b c q) pend (xs[i := (c, True)])" by blast
  have "map fst (xs[i := (c, True)]) = map fst xs" using i(1,2) by (simp add: map_update list_update_same_conv)
  then have "mset (map fst (xs[i := (c, True)])) + held = mset conns" using xs(2) by (simp only:)
  moreover have "(c, b) \<in># image_mset (\<lambda>i. (fst (xs ! i), ticket_bucket base q i)) (mset_set {i. i < length xs \<and> \<not> snd (xs ! i)})"
    using xs(1) unfolding tickets_rep_def by (metis union_single_eq_member)
  then have "b < length (qr_buckets q)" using xs(1) ticket_bucket_less [of q base] by (cases "qr_buckets q") (auto simp: tickets_rep_def)
  from mset_concat_update [OF this, of "qr_buckets q ! b @ [c]"]
  have "mset (concat (qr_buckets (bucket_enqueue b c q))) = add_mset c (mset (concat (qr_buckets q)))" by (simp add: bucket_enqueue_def)
  ultimately show ?thesis using assms i(3) unfolding conn_inv_def by auto
qed

lemma conn_inv_take:
  assumes "conn_inv conns base q pend held" and "conns \<noteq> []"
    and "bucket_dequeue ((base + 1) mod length (qr_buckets q)) q = Some (c, q')"
  shows "conn_inv conns (base + 1) q' pend (add_mset c held)" and "qr_read q' = qr_read q" and "length (qr_buckets q') = length (qr_buckets q)"
proof -
  let ?b = "(base + 1) mod length (qr_buckets q)"
  have nonempty: "qr_buckets q \<noteq> []" using assms(1,2) by (auto simp: conn_inv_def)
  obtain xs where xs: "tickets_rep base q pend xs" "mset (map fst xs) + held = mset conns"
    using assms(1) by (auto simp: conn_inv_def)
  from tickets_rep_take [OF xs(1) nonempty assms(3)] obtain ys where ys: "xs = (c, True) # ys" "tickets_rep (base + 1) q' pend ys" by blast
  obtain es where es: "qr_buckets q ! ?b = c # es" "q' = q\<lparr>qr_buckets := (qr_buckets q)[?b := es]\<rparr>"
    using assms(3) by (auto simp: bucket_dequeue_def split: list.splits)
  then show "qr_read q' = qr_read q" "length (qr_buckets q') = length (qr_buckets q)" by simp_all
  have "?b < length (qr_buckets q)" using nonempty by simp
  from mset_concat_update [OF this, of es] have "add_mset c (mset (concat (qr_buckets q'))) = mset (concat (qr_buckets q))" using es by simp
  from this [symmetric] have "mset (concat (qr_buckets q')) + image_mset fst pend + add_mset c held = mset conns"
    using assms(1) by (simp add: conn_inv_def)
  moreover have "mset (map fst ys) + add_mset c held = mset conns" using xs(2) ys(1) by simp
  ultimately show "conn_inv conns (base + 1) q' pend (add_mset c held)"
    using assms(1) ys(2) es(2) unfolding conn_inv_def by auto
qed

text \<open>The number of the last connection that was read; a waiting reader has taken the next number.\<close>

definition reader_base :: "('c, 'r) process_state \<Rightarrow> nat" where
  "reader_base s = (case ps_acceptor s of AWaiting b \<Rightarrow> qr_read (ps_ring s) - 1 | _ \<Rightarrow> qr_read (ps_ring s))"

definition waits_for :: "('c, 'r) process_state \<Rightarrow> bool" where
  "waits_for s \<longleftrightarrow> (\<forall>b. ps_acceptor s = AWaiting b \<longrightarrow> 0 < qr_read (ps_ring s) \<and> b = qr_read (ps_ring s) mod length (qr_buckets (ps_ring s)))"

definition proc_inv :: "'c list \<Rightarrow> ('c, 'r) process_state \<Rightarrow> bool" where
  "proc_inv conns s \<longleftrightarrow> waits_for s \<and> conn_inv conns (reader_base s) (ps_ring s) (mset (pending_conns s)) (mset (held_conns s))"

lemma filter_upt_single: "i < n \<Longrightarrow> filter (\<lambda>j. j = i) [0..<n] = [i]"
  by (induction n) (auto simp: less_Suc_eq filter_empty_conv)

lemma ring_rep_tickets:
  assumes "ring_rep base q xs" and "length xs = length (qr_buckets q)"
  shows "tickets_rep base q {#} (map (\<lambda>x. (x, True)) xs)"
proof -
  let ?n = "length (qr_buckets q)"
  have bucket: "qr_buckets q ! ticket_bucket base q i = [xs ! i]" if "i < length xs" for i
  proof -
    have "qr_buckets q \<noteq> []" using that assms(2) by auto
    then have "qr_buckets q ! ticket_bucket base q i = map ((!) xs) (filter (\<lambda>j. (base + 1 + j) mod ?n = ticket_bucket base q i) [0..<length xs])"
      using assms(1) ticket_bucket_less [of q base i] unfolding ring_rep_def by blast
    also have "filter (\<lambda>j. (base + 1 + j) mod ?n = ticket_bucket base q i) [0..<length xs] = filter (\<lambda>j. j = i) [0..<length xs]"
      using ticket_bucket_inj [of base q _ i] that assms(2) by (intro filter_cong) (auto simp: ticket_bucket_def)
    also have "\<dots> = [i]" using that by (rule filter_upt_single)
    finally show ?thesis by simp
  qed
  have "qr_buckets q ! b = []" if "b < ?n" "b \<notin> ticket_bucket base q ` {..<length xs}" for b
    using assms(1) that unfolding ring_rep_def by (fastforce simp: ticket_bucket_def filter_empty_conv)
  then show ?thesis using assms bucket by (simp add: tickets_rep_def ring_rep_def cong: conj_cong)
qed

lemma fold_enqueue:
  assumes "qr_buckets q \<noteq> []"
  shows "length (qr_buckets (fold qr_enqueue ys q)) = length (qr_buckets q) \<and>
    mset (concat (qr_buckets (fold qr_enqueue ys q))) = mset (concat (qr_buckets q)) + mset ys"
  using assms
proof (induction ys arbitrary: q)
  case (Cons y ys)
  let ?b = "(qr_write q + 1) mod length (qr_buckets q)"
  have len: "length (qr_buckets (qr_enqueue y q)) = length (qr_buckets q)" by (simp add: qr_enqueue_def qr_write_ticket_def Let_def)
  then have nonempty: "qr_buckets (qr_enqueue y q) \<noteq> []" using Cons.prems by auto
  have "?b < length (qr_buckets q)" using Cons.prems by simp
  from mset_concat_update [OF this, of "qr_buckets q ! ?b @ [y]"]
  have "mset (concat (qr_buckets (qr_enqueue y q))) = add_mset y (mset (concat (qr_buckets q)))"
    by (simp add: qr_enqueue_def qr_write_ticket_def bucket_enqueue_def Let_def)
  then show ?case using Cons.IH [OF nonempty] len by simp
qed simp

lemma proc_inv_start:
  assumes "conns \<noteq> []"
  shows "proc_inv conns (start_process conns num_threads)"
proof -
  let ?q = "fold qr_enqueue conns (new_queue_ring (length conns))"
  have "ring_rep (qr_read (new_queue_ring (length conns) :: 'a queue_ring)) (new_queue_ring (length conns)) []"
    using ring_rep_new [of "length conns"] assms by (simp add: new_queue_ring_def)
  from ring.enq_all [OF this, of conns] have rep: "ring_rep (qr_read ?q) ?q conns" by simp
  have start: "qr_buckets (new_queue_ring (length conns) :: 'a queue_ring) \<noteq> []" using assms by (simp add: new_queue_ring_def)
  have "length (qr_buckets ?q) = length conns" by (simp add: fold_enqueue [OF start]) (simp add: new_queue_ring_def)
  moreover from this ring_rep_tickets [OF rep] have "tickets_rep (qr_read ?q) ?q {#} (map (\<lambda>x. (x, True)) conns)" by simp
  moreover have "mset (concat (qr_buckets ?q)) = mset conns" by (simp add: fold_enqueue [OF start]) (simp add: new_queue_ring_def)
  ultimately show ?thesis
    by (auto simp: proc_inv_def conn_inv_def start_process_def waits_for_def reader_base_def pending_conns_def held_conns_def place_defs o_def multiset.map_comp
        intro!: exI [of _ "map (\<lambda>x. (x, True)) conns"])
qed

lemma held_update:
  assumes "w < length ws"
  shows "mset (concat (map worker_held (ws[w := y]))) + mset (worker_held (ws ! w)) = mset (concat (map worker_held ws)) + mset (worker_held y)"
    and "mset (concat (map worker_pending (ws[w := y]))) + mset (worker_pending (ws ! w)) = mset (concat (map worker_pending ws)) + mset (worker_pending y)"
  using mset_concat_map_update [OF assms] by blast+

lemma proc_inv_step:
  assumes "pstep e s s'" and "proc_inv conns s" and "conns \<noteq> []"
  shows "proc_inv conns s'"
proof -
  let ?n = "length (qr_buckets (ps_ring s))"
  have inv: "conn_inv conns (reader_base s) (ps_ring s) (mset (pending_conns s)) (mset (held_conns s))" and waits: "waits_for s"
    using assms(2) by (auto simp: proc_inv_def)
  have ticket: "q = (ps_ring s)\<lparr>qr_write := qr_write (ps_ring s) + 1\<rparr>" if "qr_write_ticket (ps_ring s) = (b, q)" for b q
    using that by (auto simp: qr_write_ticket_def Let_def)
  note defs = waits_for_def reader_base_def pending_conns_def held_conns_def place_defs
  show ?thesis
    using assms(1)
  proof cases
    case (alloc b q c q')
    then have q: "q = (ps_ring s)\<lparr>qr_read := qr_read (ps_ring s) + 1\<rparr>" "b = (qr_read (ps_ring s) + 1) mod length (qr_buckets q)" "reader_base s = qr_read (ps_ring s)"
      by (auto simp: qr_ticket_def reader_base_def Let_def)
    from inv have "conn_inv conns (qr_read (ps_ring s)) q (mset (pending_conns s)) (mset (held_conns s))" by (simp add: q conn_inv_read)
    note took = conn_inv_take [OF this assms(3) alloc(5) [unfolded q(2)]]
    have "qr_read q' = qr_read (ps_ring s) + 1" using took(2) by (simp add: q(1))
    then show ?thesis using alloc(2,3) took(1) by (simp add: proc_inv_def defs)
  next
    case (alloc_wait b q)
    then have "q = (ps_ring s)\<lparr>qr_read := qr_read (ps_ring s) + 1\<rparr>" "b = (qr_read (ps_ring s) + 1) mod ?n" by (auto simp: qr_ticket_def Let_def)
    then show ?thesis using alloc_wait inv by (simp add: proc_inv_def conn_inv_read defs)
  next
    case (wake b c q')
    then have b: "b = (reader_base s + 1) mod ?n" "reader_base s + 1 = qr_read (ps_ring s)"
      using waits by (auto simp: waits_for_def reader_base_def)
    from conn_inv_take [OF inv assms(3) wake(4) [unfolded b(1)]] wake b(2) show ?thesis by (simp add: proc_inv_def defs)
  next
    case (accept c r)
    then show ?thesis using inv by (simp add: proc_inv_def defs wq_enqueue_def ac_simps)
  next
    case (reject c b q)
    then have "conn_inv conns (reader_base s) (ps_ring s) (mset (pending_conns s)) (add_mset c (mset (held_conns s'))) "
      using inv by (simp add: defs)
    from conn_inv_ticket [OF this reject(4)] reject ticket [OF reject(4)] show ?thesis by (simp add: proc_inv_def defs)
  next
    case (leave c b)
    then have "conn_inv conns (reader_base s) (ps_ring s) (add_mset (c, b) (mset (pending_conns s'))) (mset (held_conns s))"
      using inv by (simp add: defs)
    from conn_inv_push [OF this] leave show ?thesis by (simp add: proc_inv_def defs)
  next
    case (start w c r q)
    have "reader_base s' = reader_base s" "waits_for s'" using start waits by (simp_all add: waits_for_def reader_base_def split: acceptor.splits)
    moreover have "mset (pending_conns s') = mset (pending_conns s)" "mset (held_conns s') = mset (held_conns s)"
      using start held_update [of w "ps_workers s" "WBusy c r"]
      by (auto simp: pending_conns_def held_conns_def worker_held_def worker_pending_def wq_dequeue_def split: list.splits)
    ultimately show ?thesis using start inv by (simp add: proc_inv_def)
  next
    case (finish w c r b q)
    have "reader_base s' = reader_base s" "waits_for s'" using finish ticket waits by (simp_all add: waits_for_def reader_base_def split: acceptor.splits)
    moreover have "mset (pending_conns s') = add_mset (c, b) (mset (pending_conns s))" "mset (held_conns s) = add_mset c (mset (held_conns s'))"
      using finish held_update [of w "ps_workers s" "WReleasing c b"]
      by (auto simp: pending_conns_def held_conns_def worker_held_def worker_pending_def)
    ultimately show ?thesis using finish inv conn_inv_ticket [of conns _ _ _ c _ b q] by (simp add: proc_inv_def)
  next
    case (release w c b)
    have "reader_base s' = reader_base s" "waits_for s'" using release waits by (simp_all add: waits_for_def reader_base_def split: acceptor.splits)
    moreover have "mset (pending_conns s) = add_mset (c, b) (mset (pending_conns s'))" "mset (held_conns s') = mset (held_conns s)"
      using release held_update [of w "ps_workers s" WIdle]
      by (auto simp: pending_conns_def held_conns_def worker_held_def worker_pending_def)
    ultimately show ?thesis using release inv conn_inv_push [of conns _ _ c b] by (simp add: proc_inv_def)
  qed
qed

lemma reachable_inv: "reachable conns n s \<Longrightarrow> conns \<noteq> [] \<Longrightarrow> proc_inv conns s"
  by (induction rule: reachable.induct) (auto intro: proc_inv_start proc_inv_step)

text \<open>The connections in use: those held and those on their way back.\<close>

definition used_conns :: "('c, 'r) process_state \<Rightarrow> 'c list" where
  "used_conns s = held_conns s @ map fst (pending_conns s)"

text \<open>C6: However the threads are interleaved, every connection is in exactly one place: in a bucket of the ring, with the
  accepting thread, with one queued request or with one worker.  So no connection ever serves two requests and none is
  lost.  And the accepting thread never waits in vain: when its bucket is empty, a request is queued or a worker is busy.\<close>

theorem connections_conserved:
  assumes "reachable conns num_threads s" and "distinct conns" and "conns \<noteq> []"
  shows "distinct (concat (qr_buckets (ps_ring s)) @ used_conns s) \<and>
    set (concat (qr_buckets (ps_ring s)) @ used_conns s) = set conns \<and>
    (ps_acceptor s = AWaiting b \<and> bucket_dequeue b (ps_ring s) = None \<longrightarrow>
      ps_queue s \<noteq> [] \<or> (\<exists>w \<in> set (ps_workers s). w \<noteq> WIdle))"
proof -
  have inv: "conn_inv conns (reader_base s) (ps_ring s) (mset (pending_conns s)) (mset (held_conns s))" and waits: "waits_for s"
    using reachable_inv [OF assms(1,3)] by (auto simp: proc_inv_def)
  have all: "mset (concat (qr_buckets (ps_ring s)) @ used_conns s) = mset conns"
    using inv by (simp add: conn_inv_def used_conns_def ac_simps)
  have "ps_queue s \<noteq> [] \<or> (\<exists>w \<in> set (ps_workers s). w \<noteq> WIdle)" if wait: "ps_acceptor s = AWaiting b" "bucket_dequeue b (ps_ring s) = None"
  proof (rule ccontr)
    assume "\<not> ?thesis"
    then have "held_conns s = []" "pending_conns s = []"
      using wait(1) by (auto simp: held_conns_def pending_conns_def place_defs)
    then obtain xs where xs: "tickets_rep (reader_base s) (ps_ring s) {#} xs" "mset (map fst xs) = mset conns"
      using inv by (auto simp: conn_inv_def)
    moreover have "b = (reader_base s + 1) mod length (qr_buckets (ps_ring s))" using waits wait(1) by (auto simp: waits_for_def reader_base_def)
    ultimately have "xs = []" using tickets_rep_wait [OF xs(1)] wait(2) by simp
    then show False using xs(2) assms(3) by simp
  qed
  moreover have "distinct (concat (qr_buckets (ps_ring s)) @ used_conns s)" using all assms(2) by (metis mset_eq_imp_distinct_iff)
  moreover have "set (concat (qr_buckets (ps_ring s)) @ used_conns s) = set conns" using all by (metis mset_eq_setD)
  ultimately show ?thesis by blast
qed

definition one_conn :: "(nat, nat) process_state" where
  "one_conn = start_process [7] 1"

abbreviation sample_ring :: "nat list \<Rightarrow> nat \<Rightarrow> nat queue_ring" where
  "sample_ring es w \<equiv> \<lparr>qr_buckets = [es], qr_read = 1, qr_write = w\<rparr>"

abbreviation sample_state :: "nat queue_ring \<Rightarrow> nat acceptor \<Rightarrow> (nat \<times> nat) list \<Rightarrow> (nat, nat) worker \<Rightarrow> (nat, nat) process_state" where
  "sample_state q a reqs w \<equiv> \<lparr>ps_ring = q, ps_acceptor = a, ps_queue = reqs, ps_workers = [w]\<rparr>"

lemma sample_steps:
  "pstep Alloc one_conn (sample_state (sample_ring [] 1) (AHolding 7) [] WIdle)"
  "pstep (Accept 5) (sample_state q (AHolding 7) [] WIdle) (sample_state q AIdle [(7, 5)] WIdle)"
  "pstep (Start 0) (sample_state q AIdle [(7, 5)] WIdle) (sample_state q AIdle [] (WBusy 7 5))"
  "pstep (Finish 0) (sample_state (sample_ring [] 1) AIdle [] (WBusy 7 5)) (sample_state (sample_ring [] 2) AIdle [] (WReleasing 7 0))"
  "pstep (Release 0) (sample_state (sample_ring [] 2) AIdle [] (WReleasing 7 0)) (sample_state (sample_ring [7] 2) AIdle [] WIdle)"
proof -
  let ?r = "\<lparr>qr_buckets = [[7]], qr_read = 0, qr_write = 1\<rparr> :: nat queue_ring"
  have ring: "one_conn = sample_state ?r AIdle [] WIdle" by code_simp
  show "pstep Alloc one_conn (sample_state (sample_ring [] 1) (AHolding 7) [] WIdle)"
    using pstep.alloc [of one_conn 0 "?r\<lparr>qr_read := 1\<rparr>" 7 "sample_ring [] 1"]
    by (simp add: ring qr_ticket_def bucket_dequeue_def)
  show "pstep (Accept 5) (sample_state q (AHolding 7) [] WIdle) (sample_state q AIdle [(7, 5)] WIdle)"
    using pstep.accept [of "sample_state q (AHolding 7) [] WIdle" 7 5] by (simp add: wq_enqueue_def)
  show "pstep (Start 0) (sample_state q AIdle [(7, 5)] WIdle) (sample_state q AIdle [] (WBusy 7 5))"
    using pstep.start [of 0 "sample_state q AIdle [(7, 5)] WIdle"] by (simp add: wq_dequeue_def)
  show "pstep (Finish 0) (sample_state (sample_ring [] 1) AIdle [] (WBusy 7 5)) (sample_state (sample_ring [] 2) AIdle [] (WReleasing 7 0))"
    using pstep.finish [of 0 "sample_state (sample_ring [] 1) AIdle [] (WBusy 7 5)" 7 5] by (simp add: qr_write_ticket_def Let_def numeral_2_eq_2)
  show "pstep (Release 0) (sample_state (sample_ring [] 2) AIdle [] (WReleasing 7 0)) (sample_state (sample_ring [7] 2) AIdle [] WIdle)"
    using pstep.release [of 0 "sample_state (sample_ring [] 2) AIdle [] (WReleasing 7 0)" 7 0] by (simp add: bucket_enqueue_def)
qed

theorem connections_conserved_witness:
  "\<exists>s. reachable [7] 1 s \<and> ps_queue s = [(7 :: nat, 5 :: nat)] \<and> distinct (concat (qr_buckets (ps_ring s)) @ used_conns s) \<and>
     set (concat (qr_buckets (ps_ring s)) @ used_conns s) = {7}"
proof -
  let ?s = "sample_state (sample_ring [] 1) AIdle [(7, 5)] WIdle"
  have "reachable [7] 1 ?s"
    using reachable.init [of "[7]" 1] sample_steps(1) sample_steps(2) [of "sample_ring [] 1"] unfolding one_conn_def by (blast intro: reachable.step)
  with connections_conserved [OF this] show ?thesis by (intro exI [of _ ?s]) simp
qed

section \<open>Every request is served\<close>

text \<open>An infinite run; a position without an event stands for a step of some other part of the program.\<close>

definition process_run :: "(nat \<Rightarrow> ('c, 'r) process_state) \<Rightarrow> (nat \<Rightarrow> 'r event option) \<Rightarrow> bool" where
  "process_run \<sigma> ev \<longleftrightarrow> (\<forall>i. case ev i of None \<Rightarrow> \<sigma> (Suc i) = \<sigma> i | Some e \<Rightarrow> pstep e (\<sigma> i) (\<sigma> (Suc i)))"

text \<open>The schedule is fair: the handling of a request ends, a worker that gives a connection back goes on, and when a request is
  queued and a worker is idle, some worker takes one.\<close>

definition fair_workers :: "(nat \<Rightarrow> ('c, 'r) process_state) \<Rightarrow> (nat \<Rightarrow> 'r event option) \<Rightarrow> bool" where
  "fair_workers \<sigma> ev \<longleftrightarrow>
     (\<forall>i w c r. w < length (ps_workers (\<sigma> i)) \<longrightarrow> ps_workers (\<sigma> i) ! w = WBusy c r \<longrightarrow> (\<exists>j \<ge> i. ev j = Some (Finish w))) \<and>
     (\<forall>i w c b. w < length (ps_workers (\<sigma> i)) \<longrightarrow> ps_workers (\<sigma> i) ! w = WReleasing c b \<longrightarrow> (\<exists>j \<ge> i. ev j = Some (Release w))) \<and>
     (\<forall>i. ps_queue (\<sigma> i) \<noteq> [] \<longrightarrow> WIdle \<in> set (ps_workers (\<sigma> i)) \<longrightarrow> (\<exists>j \<ge> i. \<exists>w. ev j = Some (Start w)))"

lemma fair_workersD:
  assumes "fair_workers \<sigma> ev"
  shows "w < length (ps_workers (\<sigma> i)) \<Longrightarrow> ps_workers (\<sigma> i) ! w = WBusy c r \<Longrightarrow> \<exists>j \<ge> i. ev j = Some (Finish w)"
    and "w < length (ps_workers (\<sigma> i)) \<Longrightarrow> ps_workers (\<sigma> i) ! w = WReleasing c b \<Longrightarrow> \<exists>j \<ge> i. ev j = Some (Release w)"
    and "ps_queue (\<sigma> i) \<noteq> [] \<Longrightarrow> WIdle \<in> set (ps_workers (\<sigma> i)) \<Longrightarrow> \<exists>j \<ge> i. \<exists>w. ev j = Some (Start w)"
  using assms unfolding fair_workers_def by blast+

lemma process_runD:
  "process_run \<sigma> ev \<Longrightarrow> ev i = None \<Longrightarrow> \<sigma> (Suc i) = \<sigma> i"
  "process_run \<sigma> ev \<Longrightarrow> ev i = Some e \<Longrightarrow> pstep e (\<sigma> i) (\<sigma> (Suc i))"
  unfolding process_run_def by (auto dest: spec [of _ i])

inductive_cases pstep_startE: "pstep (Start w) s s'"
inductive_cases pstep_finishE: "pstep (Finish w) s s'"
inductive_cases pstep_releaseE: "pstep (Release w) s s'"

lemma queue_grows_step:
  assumes "pstep e s s'" and "\<And>w. e \<noteq> Start w"
  shows "\<exists>ys. ps_queue s' = ps_queue s @ ys"
  using assms by cases (auto simp: wq_enqueue_def)

lemma workers_step:
  assumes "pstep e s s'"
  shows "length (ps_workers s') = length (ps_workers s)"
    and "w < length (ps_workers s) \<Longrightarrow> ps_workers s ! w = WBusy c r \<Longrightarrow> e \<noteq> Finish w \<Longrightarrow> ps_workers s' ! w = WBusy c r"
  using assms by (cases; auto simp: nth_list_update)+

lemma queue_grows:
  assumes "process_run \<sigma> ev" and "i \<le> j" and "\<And>m w. i \<le> m \<Longrightarrow> m < j \<Longrightarrow> ev m \<noteq> Some (Start w)"
  shows "\<exists>ys. ps_queue (\<sigma> j) = ps_queue (\<sigma> i) @ ys"
  using assms(2,3)
proof (induction j rule: dec_induct)
  case (step m)
  then obtain ys where ys: "ps_queue (\<sigma> m) = ps_queue (\<sigma> i) @ ys" by force
  show ?case
  proof (cases "ev m")
    case None
    then show ?thesis using process_runD(1) [OF assms(1)] ys by auto
  next
    case (Some e)
    then have "\<And>w. e \<noteq> Start w" using step.prems [of m] step.hyps by auto
    then show ?thesis using queue_grows_step [OF process_runD(2) [OF assms(1) Some]] ys by auto
  qed
qed simp

lemma worker_count: "process_run \<sigma> ev \<Longrightarrow> length (ps_workers (\<sigma> i)) = length (ps_workers (\<sigma> 0))"
proof (induction i)
  case (Suc i)
  then show ?case
    using process_runD(1) [OF Suc.prems, of i] workers_step(1) [OF process_runD(2) [OF Suc.prems, of i]] by (cases "ev i") simp_all
qed simp

lemma worker_keeps:
  assumes "process_run \<sigma> ev" and "i \<le> j" and "w < length (ps_workers (\<sigma> 0))" and "ps_workers (\<sigma> i) ! w = WBusy c r"
    and "\<And>m. i \<le> m \<Longrightarrow> m < j \<Longrightarrow> ev m \<noteq> Some (Finish w)"
  shows "ps_workers (\<sigma> j) ! w = WBusy c r"
  using assms(2,5)
proof (induction j rule: dec_induct)
  case (step m)
  then have m: "ps_workers (\<sigma> m) ! w = WBusy c r" by auto
  show ?case
  proof (cases "ev m")
    case None
    then show ?thesis using process_runD(1) [OF assms(1)] m by simp
  next
    case (Some e)
    then have "e \<noteq> Finish w" using step.prems [of m] step.hyps by auto
    then show ?thesis using workers_step(2) [OF process_runD(2) [OF assms(1) Some] _ m] worker_count [OF assms(1), of m] assms(3) by simp
  qed
qed (rule assms(4))

text \<open>The first start of a request after a position.\<close>

lemma first_start:
  assumes "process_run \<sigma> ev" and "\<exists>j \<ge> i. \<exists>w. ev j = Some (Start w)"
  shows "\<exists>j \<ge> i. \<exists>w ys. ev j = Some (Start w) \<and> ps_queue (\<sigma> j) = ps_queue (\<sigma> i) @ ys"
proof -
  define j where "j = (LEAST j. i \<le> j \<and> (\<exists>w. ev j = Some (Start w)))"
  have j: "i \<le> j" "\<exists>w. ev j = Some (Start w)" unfolding j_def using LeastI_ex [OF assms(2)] by blast+
  have "ev m \<noteq> Some (Start w)" if "i \<le> m" "m < j" for m w
    using not_less_Least [of m "\<lambda>j. i \<le> j \<and> (\<exists>w. ev j = Some (Start w))"] that unfolding j_def by blast
  from queue_grows [OF assms(1) j(1) this] j show ?thesis by blast
qed

lemma idle_happens:
  assumes run: "process_run \<sigma> ev" and fair: "fair_workers \<sigma> ev" and w: "w < length (ps_workers (\<sigma> 0))"
  shows "\<exists>j \<ge> i. ps_workers (\<sigma> j) ! w = WIdle"
proof -
  have len: "w < length (ps_workers (\<sigma> k))" for k using w worker_count [OF run, of k] by simp
  have releasing: "\<exists>j \<ge> i. ps_workers (\<sigma> j) ! w = WIdle" if at: "ps_workers (\<sigma> i) ! w = WReleasing c b" for i c b
  proof -
    obtain j where j: "i \<le> j" "ev j = Some (Release w)" using fair_workersD(2) [OF fair len at] by blast
    then have "ps_workers (\<sigma> (Suc j)) ! w = WIdle" using process_runD(2) [OF run j(2)] by (auto elim!: pstep_releaseE)
    then show ?thesis using j(1) le_SucI by blast
  qed
  show ?thesis
  proof (cases "ps_workers (\<sigma> i) ! w")
    case (WBusy c r)
    obtain j where j: "i \<le> j" "ev j = Some (Finish w)" using fair_workersD(1) [OF fair len WBusy] by blast
    then obtain c' b where "ps_workers (\<sigma> (Suc j)) ! w = WReleasing c' b" using process_runD(2) [OF run j(2)] by (auto elim!: pstep_finishE)
    from releasing [OF this] show ?thesis using j(1) by (meson Suc_leD le_trans)
  qed (use releasing in auto)
qed

lemma start_happens:
  assumes run: "process_run \<sigma> ev" and fair: "fair_workers \<sigma> ev" and "ps_workers (\<sigma> 0) \<noteq> []" and queue: "ps_queue (\<sigma> i) \<noteq> []"
  shows "\<exists>j \<ge> i. \<exists>w. ev j = Some (Start w)"
proof (rule ccontr)
  assume none: "\<not> ?thesis"
  obtain j where j: "i \<le> j" "ps_workers (\<sigma> j) ! 0 = WIdle" using idle_happens [OF run fair, of 0] assms(3) by blast
  have "0 < length (ps_workers (\<sigma> j))" using assms(3) worker_count [OF run, of j] by simp
  then have idle: "WIdle \<in> set (ps_workers (\<sigma> j))" using j(2) by (metis nth_mem)
  have "\<And>m w. i \<le> m \<Longrightarrow> m < j \<Longrightarrow> ev m \<noteq> Some (Start w)" using none by blast
  then have "ps_queue (\<sigma> j) \<noteq> []" using queue_grows [OF run j(1)] queue by fastforce
  from fair_workersD(3) [OF fair this idle] show False using none j(1) le_trans by blast
qed

lemma request_starts:
  assumes run: "process_run \<sigma> ev" and fair: "fair_workers \<sigma> ev" and workers: "ps_workers (\<sigma> 0) \<noteq> []"
  shows "k < length (ps_queue (\<sigma> i)) \<Longrightarrow> ps_queue (\<sigma> i) ! k = x \<Longrightarrow>
    \<exists>j \<ge> i. \<exists>w q. ev j = Some (Start w) \<and> ps_queue (\<sigma> j) = x # q"
proof (induction k arbitrary: i)
  case (0 i)
  then have "\<exists>j \<ge> i. \<exists>w. ev j = Some (Start w)" by (intro start_happens [OF run fair workers]) auto
  from first_start [OF run this] 0 show ?case by (cases "ps_queue (\<sigma> i)") auto
next
  case (Suc k i)
  then have "\<exists>j \<ge> i. \<exists>w. ev j = Some (Start w)" by (intro start_happens [OF run fair workers]) auto
  from first_start [OF run this] obtain j w ys where j: "i \<le> j" "ev j = Some (Start w)" "ps_queue (\<sigma> j) = ps_queue (\<sigma> i) @ ys" by blast
  have "ps_queue (\<sigma> (Suc j)) = tl (ps_queue (\<sigma> j))"
    using process_runD(2) [OF run j(2)] by (auto elim!: pstep_startE simp: wq_dequeue_def split: list.splits)
  then have "k < length (ps_queue (\<sigma> (Suc j)))" "ps_queue (\<sigma> (Suc j)) ! k = x"
    using Suc.prems j(3) by (simp_all add: nth_tl nth_append)
  from Suc.IH [OF this] j(1) show ?case by (meson Suc_leD le_trans)
qed

text \<open>C5: Under a fair schedule every accepted request is served: whatever is queued in front of it and is accepted after it,
  some worker takes it from the queue, is busy with it and nothing else until it is done, and then gives its connection
  back.\<close>

theorem accepted_request_served:
  assumes "process_run \<sigma> ev" and "\<sigma> 0 = start_process conns num_threads" and "0 < num_threads" and "fair_workers \<sigma> ev"
    and "(c, r) \<in> set (ps_queue (\<sigma> i))"
  shows "\<exists>j k l w. i \<le> j \<and> j < k \<and> k < l \<and> w < num_threads \<and> ev j = Some (Start w) \<and> ev k = Some (Finish w) \<and> ev l = Some (Release w) \<and>
    (\<forall>m \<in> {j<..k}. ps_workers (\<sigma> m) ! w = WBusy c r)"
proof -
  have workers: "length (ps_workers (\<sigma> m)) = num_threads" for m
    using worker_count [OF assms(1), of m] by (simp add: assms(2) start_process_def)
  then have "ps_workers (\<sigma> 0) \<noteq> []" using assms(3) by (metis length_greater_0_conv)
  then obtain j w q where j: "i \<le> j" "ev j = Some (Start w)" "ps_queue (\<sigma> j) = (c, r) # q"
    using request_starts [OF assms(1,4)] assms(5) unfolding in_set_conv_nth by blast
  have w: "w < num_threads" "ps_workers (\<sigma> (Suc j)) ! w = WBusy c r"
    using process_runD(2) [OF assms(1) j(2)] workers [of j] j(3) by (auto elim!: pstep_startE simp: wq_dequeue_def)
  define k where "k = (LEAST k. Suc j \<le> k \<and> ev k = Some (Finish w))"
  have "\<exists>k. Suc j \<le> k \<and> ev k = Some (Finish w)" using fair_workersD(1) [OF assms(4) _ w(2)] w(1) workers by simp
  from LeastI_ex [OF this] have k: "Suc j \<le> k" "ev k = Some (Finish w)" unfolding k_def by blast+
  have "ev m \<noteq> Some (Finish w)" if "Suc j \<le> m" "m < k" for m
    using not_less_Least [of m "\<lambda>k. Suc j \<le> k \<and> ev k = Some (Finish w)"] that unfolding k_def by blast
  then have busy: "\<forall>m \<in> {j<..k}. ps_workers (\<sigma> m) ! w = WBusy c r"
    using worker_keeps [OF assms(1) _ _ w(2)] w(1) workers [of 0] by auto
  obtain c' b where "ps_workers (\<sigma> (Suc k)) ! w = WReleasing c' b" using process_runD(2) [OF assms(1) k(2)] by (auto elim!: pstep_finishE)
  from fair_workersD(2) [OF assms(4) _ this] obtain l where "Suc k \<le> l" "ev l = Some (Release w)" using w(1) workers by auto
  then show ?thesis using j(1,2) k w(1) busy by (metis Suc_le_lessD)
qed

text \<open>A run of one connection and one worker: a request is accepted, taken and ended, and nothing happens afterwards.\<close>

definition sample_run :: "nat \<Rightarrow> (nat, nat) process_state" where
  "sample_run i =
     [one_conn,
      sample_state (sample_ring [] 1) (AHolding 7) [] WIdle,
      sample_state (sample_ring [] 1) AIdle [(7, 5)] WIdle,
      sample_state (sample_ring [] 1) AIdle [] (WBusy 7 5),
      sample_state (sample_ring [] 2) AIdle [] (WReleasing 7 0),
      sample_state (sample_ring [7] 2) AIdle [] WIdle] ! min i 5"

definition sample_events :: "nat \<Rightarrow> nat event option" where
  "sample_events i = (if i < 5 then Some ([Alloc, Accept 5, Start 0, Finish 0, Release 0] ! i) else None)"

lemma below_five: "(i :: nat) = 4 \<or> i = 3 \<or> i = 2 \<or> i = 1 \<or> i = 0 \<or> 5 \<le> i"
  by arith

lemma sample_run_steps: "process_run sample_run sample_events"
  unfolding process_run_def
proof
  fix i
  show "case sample_events i of None \<Rightarrow> sample_run (Suc i) = sample_run i | Some e \<Rightarrow> pstep e (sample_run i) (sample_run (Suc i))"
    using below_five [of i] sample_steps by (elim disjE) (simp_all add: sample_run_def sample_events_def min_def)
qed

lemma sample_run_at:
  "ps_queue (sample_run i) = (if i = 2 then [(7, 5)] else [])"
  "ps_workers (sample_run i) = (if i = 3 then [WBusy 7 5] else if i = 4 then [WReleasing 7 0] else [WIdle])"
  using below_five [of i]
  by (elim disjE; simp add: sample_run_def min_def one_conn_def start_process_def)+

lemma sample_run_fair: "fair_workers sample_run sample_events"
proof -
  have "\<exists>j \<ge> 3. sample_events j = Some (Finish 0)" by (rule exI [of _ 3]) (simp add: sample_events_def)
  moreover have "\<exists>j \<ge> 4. sample_events j = Some (Release 0)" by (rule exI [of _ 4]) (simp add: sample_events_def)
  moreover have "\<exists>j \<ge> 2. sample_events j = Some (Start 0)" by (rule exI [of _ 2]) (simp add: sample_events_def)
  ultimately show ?thesis unfolding fair_workers_def sample_run_at by (auto split: if_splits)
qed

theorem accepted_request_served_witness:
  "\<exists>j k. 2 \<le> j \<and> j < k \<and> sample_events j = Some (Start 0) \<and> sample_events k = Some (Finish 0) \<and>
     ps_workers (sample_run k) ! 0 = WBusy 7 5"
proof -
  have "sample_run 0 = start_process [7] 1" by (simp add: sample_run_def one_conn_def)
  from accepted_request_served [OF sample_run_steps this _ sample_run_fair, of 7 5 2]
  show ?thesis by (fastforce simp: sample_run_at)
qed

end
