(* ===== verification/Spec2Isabelle.thy ===== *)
theory Spec2Isabelle
  imports Armor Escape Mime Req_Info Obj_Name Rgw_Strings Acl Users Auth_S3 Formatter Conf Rest Response Quota Policies Bucket_List Object_Store Request_Queue
begin

text \<open>
  A verification of an S3 gateway, the program \<^verbatim>\<open>rgw\<close> that \<^verbatim>\<open>src/rgw/Makefile\<close> builds: a port of the
  RADOS gateway in which a bucket is a directory and an object is a file.  Paths are those of the repository; most of the
  program is in the files \<^verbatim>\<open>src/rgw/porting_*\<close>.

  \<^bold>\<open>The program and the theories.\<close>  A request goes through the parts in this order.

  \<^item> \<^emph>\<open>Threads\<close> (\<^verbatim>\<open>Request_Queue\<close>; \<^verbatim>\<open>rgw_main.cc\<close>, \<^verbatim>\<open>QueueRing.h\<close>, \<^verbatim>\<open>WorkQueue.cc\<close>).  One thread takes a free
    connection from a ring, waits for a client and queues the request; workers take requests from the queue.  Each
    access to a shared counter and each locked section is a step of the relation \<^verbatim>\<open>pstep\<close>; the state is the ring, the
    queue, and what each thread is doing.
  \<^item> \<^emph>\<open>Connection\<close> (\<^verbatim>\<open>Client_Io\<close>; \<^verbatim>\<open>rgw_client_io.cc\<close>, \<^verbatim>\<open>rgw_fcgi.cc\<close>).  Counted reads and formatted writes; what was
    written is part of the state, the FastCGI library is a parameter.
  \<^item> \<^emph>\<open>Environment and arguments\<close> (\<^verbatim>\<open>Std_Map\<close>, \<^verbatim>\<open>Str_List\<close>, \<^verbatim>\<open>Http_Args\<close>, \<^verbatim>\<open>Req_Info\<close>, \<^verbatim>\<open>Req_State\<close>;
    \<^verbatim>\<open>porting_env.cc\<close>, \<^verbatim>\<open>porting_common.cc\<close>, \<^verbatim>\<open>str_list.cc\<close>).  The environment is a case-insensitive ordered map;
    \<^verbatim>\<open>req_state\<close> is the record of the request that all later parts update.
  \<^item> \<^emph>\<open>Routing\<close> (\<^verbatim>\<open>Rest\<close>; \<^verbatim>\<open>porting_rest.cc\<close>, \<^verbatim>\<open>porting_rest_s3.cc\<close>).  Names are validated, a resource manager is
    found by the address, and the handler and the operation are chosen.
  \<^item> \<^emph>\<open>Authentication\<close> (\<^verbatim>\<open>Auth_S3\<close>, \<^verbatim>\<open>Rgw_Time\<close>, \<^verbatim>\<open>Users\<close>, \<^verbatim>\<open>Conf\<close>; \<^verbatim>\<open>rgw_auth_s3.cc\<close>, \<^verbatim>\<open>porting_rest_s3.cc\<close>,
    \<^verbatim>\<open>porting_user.cc\<close>, \<^verbatim>\<open>porting_tools.cc\<close>).  The string to sign, its digest, the user of a key and the record of the
    user from its configuration file.
  \<^item> \<^emph>\<open>Permissions\<close> (\<^verbatim>\<open>Acl\<close>, \<^verbatim>\<open>Xml\<close>, \<^verbatim>\<open>Xml_Text\<close>, \<^verbatim>\<open>Acl_S3\<close>, \<^verbatim>\<open>Req_State\<close>; \<^verbatim>\<open>porting_acl*.cc\<close>, \<^verbatim>\<open>porting_xml.cc\<close>).
    Grants, the decision, canned lists, and policies in XML; \<^verbatim>\<open>Xml_Text\<close> states what is relied on from the XML library
    and has a small tokenizer that provides it.
  \<^item> \<^emph>\<open>Buckets\<close> (\<^verbatim>\<open>Policies\<close>; \<^verbatim>\<open>porting_rados.cc\<close>, \<^verbatim>\<open>porting_op.cc\<close>, \<^verbatim>\<open>porting_rest.cc\<close>).  How the bucket of a
    request is found and the policies that are used for the bucket and the object.
  \<^item> \<^emph>\<open>Listings\<close> (\<^verbatim>\<open>Bucket_List\<close>; \<^verbatim>\<open>cls_rgw_client.cc\<close>, \<^verbatim>\<open>cls_user_client.cc\<close>, \<^verbatim>\<open>porting_rados.cc\<close>).  The entries of a
    directory from the output of the shell, the merge of the shards, the loop with prefix, delimiter and limit, and the documents.
  \<^item> \<^emph>\<open>Operations\<close> (\<^verbatim>\<open>Objects\<close>, \<^verbatim>\<open>Object_Store\<close>, \<^verbatim>\<open>File_Sys\<close>; \<^verbatim>\<open>porting_op.cc\<close>, \<^verbatim>\<open>porting_rest_s3.cc\<close>,
    \<^verbatim>\<open>shell.cc\<close>, \<^verbatim>\<open>buffer.cc\<close>).  Reading, storing, deleting and copying objects; the file system is part of the
    state and the system calls are parameters.
  \<^item> \<^emph>\<open>Quotas\<close> (\<^verbatim>\<open>Lru_Map\<close>, \<^verbatim>\<open>Quota\<close>; \<^verbatim>\<open>lru_map.h\<close>, \<^verbatim>\<open>porting_quota.cc\<close>, \<^verbatim>\<open>porting_rados.cc\<close>, \<^verbatim>\<open>RadosClient.cc\<close>).  The
    caches of statistics, the statistics file of a bucket and the decision.
  \<^item> \<^emph>\<open>Responses\<close> (\<^verbatim>\<open>Formatter\<close>, \<^verbatim>\<open>Response\<close>; \<^verbatim>\<open>Formatter.cc\<close>, \<^verbatim>\<open>rgw_http_errors.h\<close>, \<^verbatim>\<open>porting_rest.cc\<close>).  Status line,
    headers and documents as the bytes that are sent.
  \<^item> \<^emph>\<open>Encodings\<close> (\<^verbatim>\<open>Armor\<close>, \<^verbatim>\<open>Escape\<close>, \<^verbatim>\<open>Utf8\<close>, \<^verbatim>\<open>Mime\<close>, \<^verbatim>\<open>Strtol\<close>, \<^verbatim>\<open>Encoding\<close>, \<^verbatim>\<open>Rgw_Types\<close>, \<^verbatim>\<open>Obj_Name\<close>,
    \<^verbatim>\<open>Rgw_Strings\<close>; \<^verbatim>\<open>src/common\<close>, \<^verbatim>\<open>src/include/encoding.h\<close>, \<^verbatim>\<open>porting_common.h\<close>).  Base64, escaping, UTF-8,
    quoted-printable text, numbers, the binary format of stored records, and the names of stored objects.

  \<^bold>\<open>How code is represented.\<close>  A function with side effects takes and returns the state it changes.  An error code is an
  \<^typ>\<open>int\<close>, negative as in the code, or the left side of \<^verbatim>\<open>result\<close>; \<^const>\<open>None\<close> is undefined behaviour (a null
  pointer, a failing assertion, a buffer that is too small) or a loop that does not end, and the theorems show where it
  cannot happen.  Integers of 32 and 64 bits are words where they can wrap around.  Strings are lists of bytes, C strings are cut at
  the first zero byte by \<^verbatim>\<open>c_str\<close>.  A \<^verbatim>\<open>std::map\<close> is a list sorted by its keys.  The operating system, the FastCGI, the XML and the
  crypto library, the clock and the password databases are arguments; what is assumed of them is named
  (\<^verbatim>\<open>os_ok\<close>, \<^verbatim>\<open>fcgx_writes\<close>, \<^verbatim>\<open>fcgx_reads\<close>, \<^verbatim>\<open>expat_reads\<close>) and shown to be satisfiable by the witnesses.  What uninitialised memory or a missing
  return value holds is an argument too.

  \<^bold>\<open>Interfaces.\<close>  \<^verbatim>\<open>dict\<close> (\<^verbatim>\<open>Std_Map\<close>) is the contract of the ordered maps, \<^verbatim>\<open>codec\<close> and \<^verbatim>\<open>map_codec\<close> (\<^verbatim>\<open>Encoding\<close>) the
  round trip that every stored record promises, \<^verbatim>\<open>xml_classes\<close> (\<^verbatim>\<open>Xml\<close>) what the XML parser asks of the classes of its
  elements, \<^verbatim>\<open>fifo\<close> (\<^verbatim>\<open>Request_Queue\<close>) the contract of a queue.  Each is interpreted on the definitions that model the code.

  \<^bold>\<open>What is shown.\<close>  The numbered theorems are the properties of the program.  Across parts: an object that was stored is
  read back byte for byte (C1); a signed request is accepted exactly when its user exists and its signature is right, and the signed
  string determines the request (C2, C3); permissions are decided exactly by the grants (C4); every accepted request is served and no
  connection serves two (C5, C6); a quota refuses exactly what exceeds it (C7); the names of bucket and object reach
  their handler unchanged, which is there exactly for valid names (C8); an aborted request gets a well-formed error response (C9); what a request may do
  depends on the directory of its bucket and on no stored policy (C10); a listing is the sorted directory up to the limit (C11).  The others show the same kind of facts for the single parts.
  Several theorems state what the code does where it differs from what it means to do, such as the range of a range
  request, the marker of a listing, object lists that are never consulted, values that the XML
  formatter and the policy printer do not escape, and signatures that never expire; they are listed as findings of the development.

  \<^bold>\<open>Bounds.\<close>  There is no fuel: loops are structural, terminate by a measure, or are partial functions whose
  result the theorems show to exist; \<^verbatim>\<open>list_rounds\<close> and \<^verbatim>\<open>list_buckets_loop\<close> need not end in general, as the code they model.  Stored records need their strings shorter than 4 GB; the text that one call prints must fit the
  buffers of \<^verbatim>\<open>RGWClientIO::print\<close>, which \<^verbatim>\<open>short_text\<close> states.  Lengths that the code holds in an \<^verbatim>\<open>int\<close> are
  unbounded here in \<^verbatim>\<open>get_len\<close> of the formatters, in the writes of the connection and in the loop that reads a body of unknown
  length: the model is the code for documents and writes below 2 GB and, in the loop, for limits below 2 GB less two chunks, as its
  callers pass.  The counters of the ring of connections do not wrap
  around.

  \<^bold>\<open>Not modelled.\<close>  Creation and removal of buckets, their status and access list, multipart uploads, and the
  responses of these operations; the loop of \<^verbatim>\<open>process_request\<close> that calls the parts in order; the administrative
  interface.
  The metadata manager, and the object cache, which is never enabled.  Logging,
  locks, start-up, signals and sockets, which have no effect on the results.  The floating-point parsers.  Files of
  \<^verbatim>\<open>src/rgw\<close> that the build does not compile (\<^verbatim>\<open>rgw_*.cc\<close> beside the ones named here), the vendored JSON library and the tests.
\<close>

end
